(* ===== verification/Prelude.thy ===== *)
theory Prelude
  imports Main "HOL-Library.AList" "HOL-Library.Word" "HOL-Library.Char_ord"
    "HOL-Library.List_Lexorder"
begin

text \<open>
  Shared vocabulary of the development: the Rust standard-library notions the RelayGate sources
  use (byte strings, fixed-width integers, \<open>Instant\<close>/\<open>Duration\<close>, \<open>HashMap\<close>, \<open>BTreeMap\<close>,
  \<open>BTreeSet\<close>), with the lemmas the component theories need about them.

  \<^item> A Rust byte string or \<open>str\<close> is a \<^typ>\<open>string\<close>: \<^typ>\<open>char\<close> is an 8-bit value, so a
    character of the model is one byte of the program.
  \<^item> \<open>Instant\<close> and \<open>Duration\<close> count nanoseconds in \<^typ>\<open>nat\<close>.
  \<^item> A \<open>HashMap\<close> is an association list with distinct keys. Its list order stands for the
    unspecified iteration order of the table: every theorem holds for all lists, hence for all
    iteration orders.
  \<^item> A \<open>BTreeMap\<close> is an association list whose keys are strictly increasing, a \<open>BTreeSet\<close> a
    strictly increasing list.
\<close>

named_theorems table_simps \<open>lookups in updated tables\<close>
named_theorems table_wf \<open>well-formedness of tables is kept by the table operations\<close>

section \<open>Names for the Rust types\<close>

type_synonym byte = char
type_synonym bytes = string
type_synonym uuid = "128 word"
type_synonym u64 = "64 word"
type_synonym instant = nat
type_synonym duration = nat

definition U128_MAX :: nat where
  "U128_MAX = 2 ^ 128 - 1"

definition saturating_add_u128 :: "nat \<Rightarrow> nat \<Rightarrow> nat" where
  "saturating_add_u128 a b = min (a + b) U128_MAX"

definition saturating_mul_u128 :: "nat \<Rightarrow> nat \<Rightarrow> nat" where
  "saturating_mul_u128 a b = min (a * b) U128_MAX"

text \<open>
  \<open>Instant::saturating_duration_since\<close> is zero when the argument is later; truncated subtraction
  on \<^typ>\<open>nat\<close> is exactly that. \<open>Instant::checked_add\<close> fails when the sum is not representable;
  on the Unix targets an \<open>Instant\<close> holds a signed 64-bit second count and a nanosecond part.
\<close>

definition INSTANT_MAX :: instant where
  "INSTANT_MAX = (2 ^ 63 - 1) * 1000000000 + 999999999"

definition instant_checked_add :: "instant \<Rightarrow> duration \<Rightarrow> instant option" where
  "instant_checked_add t d = (if t + d \<le> INSTANT_MAX then Some (t + d) else None)"

definition saturating_duration_since :: "instant \<Rightarrow> instant \<Rightarrow> duration" where
  "saturating_duration_since later earlier = later - earlier"

text \<open>What \<open>try_send\<close> on a bounded channel answers.\<close>

datatype send_result = Sent | QueueFull | QueueClosed

section \<open>Hash tables\<close>

type_synonym ('k, 'v) hashmap = "('k \<times> 'v) list"

abbreviation hm_get :: "('k, 'v) hashmap \<Rightarrow> 'k \<Rightarrow> 'v option" where
  "hm_get \<equiv> map_of"

abbreviation hm_contains :: "('k, 'v) hashmap \<Rightarrow> 'k \<Rightarrow> bool" where
  "hm_contains m k \<equiv> map_of m k \<noteq> None"

abbreviation hm_insert :: "'k \<Rightarrow> 'v \<Rightarrow> ('k, 'v) hashmap \<Rightarrow> ('k, 'v) hashmap" where
  "hm_insert \<equiv> AList.update"

abbreviation hm_remove :: "'k \<Rightarrow> ('k, 'v) hashmap \<Rightarrow> ('k, 'v) hashmap" where
  "hm_remove \<equiv> AList.delete"

definition hm_ok :: "('k, 'v) hashmap \<Rightarrow> bool" where
  "hm_ok m \<longleftrightarrow> distinct (map fst m)"

lemma hm_ok_Nil [table_wf]: "hm_ok []"
  by (simp add: hm_ok_def)

lemma hm_ok_insert [table_wf]: "hm_ok m \<Longrightarrow> hm_ok (hm_insert k v m)"
  by (simp add: hm_ok_def distinct_update)

lemma hm_ok_remove [table_wf]: "hm_ok m \<Longrightarrow> hm_ok (hm_remove k m)"
  by (simp add: hm_ok_def distinct_delete)

lemma hm_ok_filter [table_wf]: "hm_ok m \<Longrightarrow> hm_ok (filter P m)"
  by (simp add: hm_ok_def distinct_map_filter)

lemma hm_get_insert [table_simps]:
  "hm_get (hm_insert k v m) k' = (if k' = k then Some v else hm_get m k')"
  by (simp add: update_conv')

lemma hm_get_remove [table_simps]:
  "hm_get (hm_remove k m) k' = (if k' = k then None else hm_get m k')"
  by (simp add: delete_conv')

lemma hm_get_insert_fun: "hm_get (hm_insert k v m) = (hm_get m)(k \<mapsto> v)"
  by (rule ext) (simp add: hm_get_insert)

lemma hm_get_remove_fun: "hm_get (hm_remove k m) = (hm_get m)(k := None)"
  by (rule ext) (simp add: hm_get_remove)

lemma hm_get_in_set: "hm_ok m \<Longrightarrow> hm_get m k = Some v \<longleftrightarrow> (k, v) \<in> set m"
  by (simp add: hm_ok_def)

lemma hm_get_SomeD: "hm_get m k = Some v \<Longrightarrow> (k, v) \<in> set m"
  by (rule map_of_SomeD)

lemma set_hm_insert_fresh:
  "hm_get m k = None \<Longrightarrow> set (hm_insert k v m) = insert (k, v) (set m)"
  by (induction m) (auto split: if_splits)

lemma set_hm_remove: "set (hm_remove k m) = {e \<in> set m. fst e \<noteq> k}"
  by (auto simp: AList.delete_eq)

lemma length_hm_insert:
  "length (hm_insert k v m) = (if hm_contains m k then length m else Suc (length m))"
  by (induction m) auto

lemma length_hm_remove:
  "hm_ok m \<Longrightarrow> length (hm_remove k m) = (if hm_contains m k then length m - 1 else length m)"
proof (induction m)
  case Nil
  then show ?case by simp
next
  case (Cons e m)
  obtain k' v' where e: "e = (k', v')" by (cases e)
  have ok: "hm_ok m" and fresh: "k' \<notin> fst ` set m"
    using Cons.prems by (simp_all add: hm_ok_def e)
  have gone: "hm_get m k' = None" using fresh by (simp add: map_of_eq_None_iff)
  show ?case
  proof (cases "k' = k")
    case True
    then show ?thesis using fresh by (simp add: e)
  next
    case False
    have "hm_contains m k \<Longrightarrow> 0 < length m" by (cases m) auto
    then show ?thesis using False Cons.IH [OF ok] gone by (auto simp: e)
  qed
qed

text \<open>Counting entries that satisfy a predicate, the shape of the counters kept beside tables.\<close>

definition hm_count :: "('v \<Rightarrow> bool) \<Rightarrow> ('k, 'v) hashmap \<Rightarrow> nat" where
  "hm_count P m = length (filter (\<lambda>e. P (snd e)) m)"

lemma hm_count_Nil [simp]: "hm_count P [] = 0"
  by (simp add: hm_count_def)

lemma hm_count_Cons [simp]: "hm_count P ((k, v) # m) = (if P v then Suc (hm_count P m) else hm_count P m)"
  by (simp add: hm_count_def)

lemma hm_count_insert_fresh:
  "hm_get m k = None \<Longrightarrow>
   hm_count P (hm_insert k v m) = (if P v then Suc (hm_count P m) else hm_count P m)"
  by (induction m) (auto split: if_splits)

lemma hm_count_pos: "hm_get m k = Some v \<Longrightarrow> P v \<Longrightarrow> 0 < hm_count P m"
  by (induction m) (auto split: if_splits)

lemma hm_remove_notin: "hm_get m k = None \<Longrightarrow> hm_remove k m = m"
  by (simp add: map_of_eq_None_iff)

lemma hm_count_remove:
  "hm_ok m \<Longrightarrow> hm_get m k = Some v \<Longrightarrow>
   hm_count P (hm_remove k m) = (if P v then hm_count P m - 1 else hm_count P m)"
proof (induction m)
  case Nil
  then show ?case by simp
next
  case (Cons e m)
  obtain k' v' where e: "e = (k', v')" by (cases e)
  have ok: "hm_ok m" and fresh: "hm_get m k' = None"
    using Cons.prems(1) by (simp_all add: hm_ok_def e map_of_eq_None_iff)
  show ?case
  proof (cases "k' = k")
    case True
    then show ?thesis using Cons.prems(2) fresh by (simp add: e hm_remove_notin)
  next
    case False
    then have get: "hm_get m k = Some v" using Cons.prems(2) by (simp add: e)
    have "P v \<Longrightarrow> 0 < hm_count P m" using hm_count_pos [OF get] .
    then show ?thesis using False Cons.IH [OF ok get] by (auto simp: e)
  qed
qed

lemma hm_count_update:
  "hm_ok m \<Longrightarrow> hm_get m k = Some v \<Longrightarrow>
   hm_count P (hm_insert k v' m) =
     (if P v then hm_count P m - 1 else hm_count P m) + (if P v' then 1 else 0)"
proof (induction m)
  case Nil
  then show ?case by simp
next
  case (Cons e m)
  obtain k1 v1 where e: "e = (k1, v1)" by (cases e)
  have ok: "hm_ok m" using Cons.prems(1) by (simp add: hm_ok_def e)
  show ?case
  proof (cases "k1 = k")
    case True
    then show ?thesis using Cons.prems(2) by (simp add: e)
  next
    case False
    then have get: "hm_get m k = Some v" using Cons.prems(2) by (simp add: e)
    have "P v \<Longrightarrow> 0 < hm_count P m" using hm_count_pos [OF get] .
    then show ?thesis using False Cons.IH [OF ok get] by (auto simp: e)
  qed
qed

lemma hm_count_le_length: "hm_count P m \<le> length m"
  by (simp add: hm_count_def)

definition hm_sum :: "('v \<Rightarrow> nat) \<Rightarrow> ('k, 'v) hashmap \<Rightarrow> nat" where
  "hm_sum f m = sum_list (map (f \<circ> snd) m)"

lemma hm_sum_Nil [simp]: "hm_sum f [] = 0"
  by (simp add: hm_sum_def)

lemma hm_sum_remove:
  "hm_ok m \<Longrightarrow> hm_get m k = Some v \<Longrightarrow> hm_sum f m = f v + hm_sum f (hm_remove k m)"
proof (induction m)
  case (Cons e m)
  show ?case
  proof (cases "fst e = k")
    case True
    then have "hm_get m k = None" using Cons.prems by (auto simp: hm_ok_def map_of_eq_None_iff)
    then show ?thesis using True Cons.prems by (simp add: hm_sum_def hm_remove_notin)
  next
    case False
    then show ?thesis using Cons by (simp add: hm_sum_def hm_ok_def split: if_splits)
  qed
qed simp

lemma hm_sum_insert: "hm_ok m \<Longrightarrow> hm_sum f (hm_insert k v m) = f v + hm_sum f (hm_remove k m)"
proof (induction m)
  case (Cons e m)
  show ?case
  proof (cases "fst e = k")
    case True
    then have "hm_get m k = None" using Cons.prems by (auto simp: hm_ok_def map_of_eq_None_iff)
    then show ?thesis using True by (cases e) (simp add: hm_sum_def hm_remove_notin)
  next
    case False
    then show ?thesis using Cons by (cases e) (simp add: hm_sum_def hm_ok_def)
  qed
qed (simp add: hm_sum_def)

lemma card_dom_hm: "hm_ok m \<Longrightarrow> card (dom (hm_get m)) = length m"
  by (simp add: hm_ok_def dom_map_of_conv_image_fst distinct_card flip: set_map)

lemma hm_sum_dom: "hm_ok m \<Longrightarrow> hm_sum f m = (\<Sum>k \<in> dom (hm_get m). f (the (hm_get m k)))"
proof (induction m)
  case (Cons e m)
  obtain k v where e: "e = (k, v)" by fastforce
  have k: "k \<notin> dom (hm_get m)" and ok: "hm_ok m"
    using Cons.prems by (auto simp: e hm_ok_def dom_map_of_conv_image_fst)
  have dom: "dom (hm_get (e # m)) = insert k (dom (hm_get m))" by (auto simp: e dom_def)
  have "(\<Sum>k' \<in> dom (hm_get (e # m)). f (the (hm_get (e # m) k'))) =
      f v + (\<Sum>k' \<in> dom (hm_get m). f (the (hm_get (e # m) k')))"
    using k unfolding dom by (subst sum.insert) (auto simp: e finite_dom_map_of)
  also have "(\<Sum>k' \<in> dom (hm_get m). f (the (hm_get (e # m) k'))) = (\<Sum>k' \<in> dom (hm_get m). f (the (hm_get m k')))"
    using k by (intro sum.cong) (auto simp: e)
  finally show ?case using Cons.IH [OF ok] by (simp only: e hm_sum_def list.map sum_list.Cons comp_def snd_conv)
qed simp

text \<open>Quantifiers over the entries of a map after a change of one key.\<close>

lemma ex_map_remove:
  "(\<exists>k' v'. (m(k := None)) k' = Some v' \<and> P k' v') \<longleftrightarrow> (\<exists>k' v'. k' \<noteq> k \<and> m k' = Some v' \<and> P k' v')"
  by (auto split: if_splits)

lemma ex_map_upd:
  "(\<exists>k' v'. (m(k \<mapsto> v)) k' = Some v' \<and> P k' v') \<longleftrightarrow> P k v \<or> (\<exists>k' v'. k' \<noteq> k \<and> m k' = Some v' \<and> P k' v')"
  by (auto split: if_splits)

lemma ex_map_fresh:
  "m k = None \<Longrightarrow> (\<exists>k' v'. (m(k \<mapsto> v)) k' = Some v' \<and> P k' v') \<longleftrightarrow> P k v \<or> (\<exists>k' v'. m k' = Some v' \<and> P k' v')"
  unfolding ex_map_upd by (metis option.distinct(1))

lemma ex_map_split:
  "m k = Some v \<Longrightarrow> (\<exists>k' v'. m k' = Some v' \<and> P k' v') \<longleftrightarrow> P k v \<or> (\<exists>k' v'. k' \<noteq> k \<and> m k' = Some v' \<and> P k' v')"
  by (metis option.inject)

section \<open>Ordered tables\<close>

type_synonym ('k, 'v) btreemap = "('k \<times> 'v) list"

fun bt_insert :: "'k::linorder \<Rightarrow> 'v \<Rightarrow> ('k, 'v) btreemap \<Rightarrow> ('k, 'v) btreemap" where
  "bt_insert k v [] = [(k, v)]"
| "bt_insert k v (e # m) =
     (if fst e < k then e # bt_insert k v m
      else if fst e = k then (k, v) # m
      else (k, v) # e # m)"

definition bt_ok :: "('k::linorder, 'v) btreemap \<Rightarrow> bool" where
  "bt_ok m \<longleftrightarrow> sorted_wrt (<) (map fst m)"

definition bs_insert :: "'a::linorder \<Rightarrow> 'a list \<Rightarrow> 'a list" where
  "bs_insert x xs = (if x \<in> set xs then xs else insort x xs)"

definition bs_ok :: "'a::linorder list \<Rightarrow> bool" where
  "bs_ok xs \<longleftrightarrow> sorted_wrt (<) xs"

lemma bt_get_insert [table_simps]:
  "map_of (bt_insert k v m) k' = (if k' = k then Some v else map_of m k')"
  by (induction m) auto

lemma set_fst_bt_insert: "fst ` set (bt_insert k v m) = insert k (fst ` set m)"
  by (induction m) auto

lemma set_bt_insert_fresh: "k \<notin> fst ` set m \<Longrightarrow> set (bt_insert k v m) = insert (k, v) (set m)"
  by (induction m) auto

lemma bt_ok_Nil [table_wf]: "bt_ok []"
  by (simp add: bt_ok_def)

lemma bt_ok_insert [table_wf]: "bt_ok m \<Longrightarrow> bt_ok (bt_insert k v m)"
proof (induction m)
  case Nil
  then show ?case by (simp add: bt_ok_def)
next
  case (Cons e m)
  have ok: "bt_ok m" and above: "\<forall>k' \<in> fst ` set m. fst e < k'"
    using Cons.prems by (auto simp: bt_ok_def)
  consider "fst e < k" | "fst e = k" | "k < fst e" by fastforce
  then show ?case
  proof cases
    case 1
    have "bt_ok (bt_insert k v m)" using Cons.IH [OF ok] .
    moreover have "\<forall>k' \<in> fst ` set (bt_insert k v m). fst e < k'"
      using above 1 by (simp add: set_fst_bt_insert)
    ultimately show ?thesis using 1 by (auto simp: bt_ok_def)
  next
    case 2
    then show ?thesis using Cons.prems by (auto simp: bt_ok_def)
  next
    case 3
    then show ?thesis using Cons.prems by (auto simp: bt_ok_def)
  qed
qed

lemma bt_ok_remove [table_wf]: "bt_ok m \<Longrightarrow> bt_ok (AList.delete k m)"
  unfolding bt_ok_def AList.delete_eq
  by (induction m) auto

lemma bt_ok_modify: "bt_ok m \<Longrightarrow> map_of m k = Some w \<Longrightarrow> bt_ok (AList.update k v m)"
  by (force simp: bt_ok_def update_keys dest: map_of_SomeD)

lemma strict_sorted_distinct: "sorted_wrt (<) (xs :: 'a::linorder list) \<Longrightarrow> distinct xs"
  by (induction xs) auto

lemma bt_ok_distinct: "bt_ok m \<Longrightarrow> distinct (map fst m)"
  unfolding bt_ok_def by (rule strict_sorted_distinct)

lemma map_of_rebuild: "distinct (map fst m) \<Longrightarrow> map (\<lambda>k. (k, the (map_of m k))) (map fst m) = m"
  by (auto intro!: map_idI)

lemma bt_ok_unique:
  assumes "bt_ok m" "bt_ok n" "set m = set n"
  shows "m = n"
proof -
  have d: "distinct (map fst m)" "distinct (map fst n)" using assms bt_ok_distinct by auto
  have "map fst m = map fst n"
    using assms by (intro strict_sorted_equal) (simp_all add: bt_ok_def)
  moreover have "map_of m = map_of n" using d assms(3) by (simp add: map_of_inject_set)
  ultimately show ?thesis using map_of_rebuild [OF d(1)] map_of_rebuild [OF d(2)] by simp
qed

lemma bt_first_least: "bt_ok ((k, v) # m) \<Longrightarrow> k' \<in> fst ` set m \<Longrightarrow> k < k'"
  by (auto simp: bt_ok_def)

lemma bs_ok_insert: "bs_ok xs \<Longrightarrow> bs_ok (bs_insert x xs)"
  unfolding bs_ok_def bs_insert_def strict_sorted_iff
  by (auto simp: sorted_insort distinct_insort)

lemma set_bs_insert [simp]: "set (bs_insert x xs) = insert x (set xs)"
  by (auto simp: bs_insert_def set_insort_key)

lemma bs_ok_removeAll: "bs_ok xs \<Longrightarrow> bs_ok (removeAll x xs)"
  unfolding bs_ok_def removeAll_filter_not_eq by (rule sorted_wrt_filter)

lemma length_bs_insert: "length (bs_insert x xs) = (if x \<in> set xs then length xs else Suc (length xs))"
  by (simp add: bs_insert_def)

section \<open>Reachable states of a transition system\<close>

text \<open>
  A component that changes state in steps is a set of initial states and a labelled step
  relation; the states it can be in are the reachable ones. The locale is the contract of an
  inductive invariant; every interpretation yields that the invariant holds in all reachable
  states.
\<close>

inductive reach :: "('s \<Rightarrow> bool) \<Rightarrow> ('s \<Rightarrow> 'e \<Rightarrow> 's \<Rightarrow> bool) \<Rightarrow> 's \<Rightarrow> bool"
  for init step where
  reach_start: "init s \<Longrightarrow> reach init step s"
| reach_step: "reach init step s \<Longrightarrow> step s e t \<Longrightarrow> reach init step t"

locale inductive_invariant =
  fixes init :: "'s \<Rightarrow> bool" and step :: "'s \<Rightarrow> 'e \<Rightarrow> 's \<Rightarrow> bool" and inv :: "'s \<Rightarrow> bool"
  assumes inv_start: "init s \<Longrightarrow> inv s"
    and inv_step: "inv s \<Longrightarrow> step s e t \<Longrightarrow> inv t"
begin

lemma reach_inv: "reach init step s \<Longrightarrow> inv s"
  by (induction rule: reach.induct) (auto intro: inv_start inv_step)

end

text \<open>
  A component implements another, more abstract one when an abstraction function carries each of
  its steps to a step with the same label; then what it reaches is reached abstractly.
\<close>

locale simulation = inductive_invariant init step inv
  for init :: "'s \<Rightarrow> bool" and step :: "'s \<Rightarrow> 'e \<Rightarrow> 's \<Rightarrow> bool" and inv :: "'s \<Rightarrow> bool" +
  fixes ainit :: "'a \<Rightarrow> bool" and astep :: "'a \<Rightarrow> 'e \<Rightarrow> 'a \<Rightarrow> bool" and abs :: "'s \<Rightarrow> 'a"
  assumes sim_start: "init s \<Longrightarrow> ainit (abs s)"
    and sim_step: "inv s \<Longrightarrow> step s e t \<Longrightarrow> astep (abs s) e (abs t)"
begin

lemma reach_abs: "reach init step s \<Longrightarrow> reach ainit astep (abs s)"
  by (induction rule: reach.induct) (auto intro: reach.intros sim_start sim_step reach_inv)

lemma reach_sim: "reach init step s \<Longrightarrow> step s e t \<Longrightarrow> astep (abs s) e (abs t)"
  using reach_inv sim_step by blast

end

end
