(* ===== verification/Byte_Strings.thy ===== *)
theory Byte_Strings
  imports Prelude
begin

text \<open>
  Byte-string operations of the Rust standard library that the sources call: big-endian integers
  (\<open>to_be_bytes\<close>, \<open>from_be_bytes\<close>, \<open>BufMut::put_u16\<close> and its kin), \<open>str::split\<close>,
  \<open>str::split_once\<close>, \<open>str::strip_prefix\<close> and the well-formedness check of
  \<open>std::str::from_utf8\<close>, with the inversion lemmas the codecs and the parsers rest on.
\<close>

section \<open>Results\<close>

definition and_then :: "'e + 'a \<Rightarrow> ('a \<Rightarrow> 'e + 'b) \<Rightarrow> 'e + 'b" where
  "and_then r f = (case r of Inl e \<Rightarrow> Inl e | Inr x \<Rightarrow> f x)"

lemma and_then_simps [simp]: "and_then (Inl e) f = Inl e" "and_then (Inr x) f = f x"
  by (simp_all add: and_then_def)

lemma and_then_Inr: "and_then r f = Inr y \<longleftrightarrow> (\<exists>x. r = Inr x \<and> f x = Inr y)"
  by (cases r) auto

definition map_err :: "('e \<Rightarrow> 'f) \<Rightarrow> 'e + 'a \<Rightarrow> 'f + 'a" where
  "map_err f r = (case r of Inl e \<Rightarrow> Inl (f e) | Inr x \<Rightarrow> Inr x)"

lemma map_err_simps [simp]: "map_err f (Inl e) = Inl (f e)" "map_err f (Inr x) = Inr x"
  by (simp_all add: map_err_def)

lemma map_err_Inr: "map_err f r = Inr y \<longleftrightarrow> r = Inr y"
  by (cases r) auto

section \<open>Big-endian integers\<close>

fun be_bytes :: "nat \<Rightarrow> nat \<Rightarrow> bytes" where
  "be_bytes 0 x = []"
| "be_bytes (Suc n) x = be_bytes n (x div 256) @ [char_of (x mod 256)]"

lemma be_bytes_numeral:
  "be_bytes (numeral k) x = be_bytes (pred_numeral k) (x div 256) @ [char_of (x mod 256)]"
  using be_bytes.simps(2) [of "pred_numeral k" x] by (simp only: numeral_eq_Suc [of k])

definition be_val :: "bytes \<Rightarrow> nat" where
  "be_val bs = foldl (\<lambda>a b. a * 256 + of_char b) 0 bs"

lemma length_be_bytes [simp]: "length (be_bytes n x) = n"
  by (induction n arbitrary: x) auto

lemma be_val_snoc: "be_val (bs @ [b]) = be_val bs * 256 + of_char b"
  by (simp add: be_val_def)

lemma be_val_be_bytes: "be_val (be_bytes n x) = x mod 256 ^ n"
proof (induction n arbitrary: x)
  case 0
  then show ?case by (simp add: be_val_def)
next
  case (Suc n)
  have "be_val (be_bytes (Suc n) x) = (x div 256) mod 256 ^ n * 256 + x mod 256"
    using Suc.IH by (simp add: be_val_snoc)
  also have "\<dots> = x mod 256 ^ Suc n"
    by (simp add: mod_mult2_eq mult.commute add.commute)
  finally show ?case .
qed

lemma be_val_less: "be_val bs < 256 ^ length bs"
proof (induction bs rule: rev_induct)
  case Nil
  then show ?case by (simp add: be_val_def)
next
  case (snoc b bs)
  have "of_char b < (256::nat)" by simp
  then have "be_val bs * 256 + of_char b < (be_val bs + 1) * 256" by simp
  also have "\<dots> \<le> 256 ^ length bs * 256" using snoc.IH by (intro mult_right_mono) auto
  finally show ?case by (simp add: be_val_snoc mult.commute)
qed

lemma be_bytes_be_val: "length bs = n \<Longrightarrow> be_bytes n (be_val bs) = bs"
proof (induction bs arbitrary: n rule: rev_induct)
  case Nil
  then show ?case by simp
next
  case (snoc b bs)
  then show ?case by (auto simp: be_val_snoc)
qed

lemma be_val_cong: "x < 256 ^ n \<Longrightarrow> be_val (be_bytes n x) = x"
  by (simp add: be_val_be_bytes)

lemma be_bytes_inject:
  "x < 256 ^ n \<Longrightarrow> y < 256 ^ n \<Longrightarrow> be_bytes n x = be_bytes n y \<longleftrightarrow> x = y"
  using be_val_cong by metis

definition u64_bytes :: "u64 \<Rightarrow> bytes" where
  "u64_bytes x = be_bytes 8 (unat x)"

definition u64_of_bytes :: "bytes \<Rightarrow> u64" where
  "u64_of_bytes bs = word_of_nat (be_val bs)"

definition uuid_bytes :: "uuid \<Rightarrow> bytes" where
  "uuid_bytes x = be_bytes 16 (unat x)"

definition uuid_of_bytes :: "bytes \<Rightarrow> uuid" where
  "uuid_of_bytes bs = word_of_nat (be_val bs)"

lemma length_u64_bytes [simp]: "length (u64_bytes x) = 8"
  by (simp add: u64_bytes_def)

lemma length_uuid_bytes [simp]: "length (uuid_bytes x) = 16"
  by (simp add: uuid_bytes_def)

lemma unat_less_pow: "unat (x :: 'a::len word) < 2 ^ LENGTH('a)"
  by (rule unsigned_less)

lemma u64_of_u64_bytes [simp]: "u64_of_bytes (u64_bytes x) = x"
proof -
  have "unat x < 256 ^ 8" using unat_less_pow [of x] by simp
  then show ?thesis by (simp add: u64_of_bytes_def u64_bytes_def be_val_cong)
qed

lemma uuid_of_uuid_bytes [simp]: "uuid_of_bytes (uuid_bytes x) = x"
proof -
  have "unat x < 256 ^ 16" using unat_less_pow [of x] by simp
  then show ?thesis by (simp add: uuid_of_bytes_def uuid_bytes_def be_val_cong)
qed

lemma u64_bytes_of_bytes: "length bs = 8 \<Longrightarrow> u64_bytes (u64_of_bytes bs) = bs"
  using be_val_less [of bs]
  by (simp add: u64_bytes_def u64_of_bytes_def unat_of_nat be_bytes_be_val)

lemma uuid_bytes_of_bytes: "length bs = 16 \<Longrightarrow> uuid_bytes (uuid_of_bytes bs) = bs"
  using be_val_less [of bs]
  by (simp add: uuid_bytes_def uuid_of_bytes_def unat_of_nat be_bytes_be_val)

section \<open>Splitting\<close>

fun split_char :: "char \<Rightarrow> string \<Rightarrow> string list" where
  "split_char c [] = [[]]"
| "split_char c (x # xs) =
     (if x = c then [] # split_char c xs
      else (case split_char c xs of [] \<Rightarrow> [[x]] | w # ws \<Rightarrow> (x # w) # ws))"

fun join_char :: "char \<Rightarrow> string list \<Rightarrow> string" where
  "join_char c [] = []"
| "join_char c [w] = w"
| "join_char c (w # v # ws) = w @ c # join_char c (v # ws)"

fun split_once :: "char \<Rightarrow> string \<Rightarrow> (string \<times> string) option" where
  "split_once c [] = None"
| "split_once c (x # xs) =
     (if x = c then Some ([], xs)
      else map_option (\<lambda>(a, b). (x # a, b)) (split_once c xs))"

fun strip_prefix :: "string \<Rightarrow> string \<Rightarrow> string option" where
  "strip_prefix [] s = Some s"
| "strip_prefix (p # ps) [] = None"
| "strip_prefix (p # ps) (x # xs) = (if p = x then strip_prefix ps xs else None)"

lemma split_char_nonempty [simp]: "split_char c s \<noteq> []"
  by (cases s) (auto split: list.split)

lemma join_char_Cons: "ws \<noteq> [] \<Longrightarrow> join_char c (w # ws) = w @ c # join_char c ws"
  by (cases ws) auto

lemma join_char_Cons_head: "join_char c ((x # w) # ws) = x # join_char c (w # ws)"
  by (cases ws) auto

lemma join_char_append:
  "vs \<noteq> [] \<Longrightarrow> ws \<noteq> [] \<Longrightarrow> join_char c (vs @ ws) = join_char c vs @ c # join_char c ws"
  by (induction vs rule: induct_list012) (auto simp: join_char_Cons)

lemma join_split [simp]: "join_char c (split_char c s) = s"
proof (induction s)
  case (Cons x xs)
  then show ?case
    by (cases "split_char c xs") (auto simp: join_char_Cons join_char_Cons_head)
qed simp

lemma split_char_no_sep: "w \<in> set (split_char c s) \<Longrightarrow> c \<notin> set w"
proof (induction s arbitrary: w)
  case (Cons x xs)
  then show ?case
    by (cases "split_char c xs") (auto split: if_splits)
qed simp

lemma split_char_word: "c \<notin> set w \<Longrightarrow> split_char c w = [w]"
  by (induction w) auto

lemma split_char_append_sep:
  "c \<notin> set w \<Longrightarrow> split_char c (w @ c # s) = w # split_char c s"
  by (induction w) auto

lemma split_join: "ws \<noteq> [] \<Longrightarrow> \<forall>w \<in> set ws. c \<notin> set w \<Longrightarrow> split_char c (join_char c ws) = ws"
  by (induction c ws rule: join_char.induct) (auto simp: split_char_word split_char_append_sep)

lemma split_char_append:
  "split_char c (s @ c # t) = split_char c s @ split_char c t"
proof (induction s)
  case (Cons x xs)
  then show ?case
    by (cases "split_char c xs") auto
qed simp

lemma split_once_Some:
  "split_once c s = Some (a, b) \<longleftrightarrow> s = a @ c # b \<and> c \<notin> set a"
proof (induction s arbitrary: a)
  case (Cons x xs)
  then show ?case by (cases a) auto
qed simp

lemma split_once_None: "split_once c s = None \<longleftrightarrow> c \<notin> set s"
  by (induction s) auto

lemma strip_prefix_Some: "strip_prefix p s = Some r \<longleftrightarrow> s = p @ r"
  by (induction p s rule: strip_prefix.induct) auto

section \<open>UTF-8\<close>

text \<open>
  The byte sequences \<open>std::str::from_utf8\<close> accepts: the well-formed sequences of the Unicode
  standard (table 3-7), so no overlong form, no surrogate and nothing above U+10FFFF.
\<close>

definition in_range :: "nat \<Rightarrow> nat \<Rightarrow> byte \<Rightarrow> bool" where
  "in_range lo hi b \<longleftrightarrow> lo \<le> of_char b \<and> of_char b \<le> hi"

abbreviation continuation :: "byte \<Rightarrow> bool" where
  "continuation b \<equiv> in_range 128 191 b"

fun utf8_valid :: "bytes \<Rightarrow> bool" where
  "utf8_valid [] = True"
| "utf8_valid (a # r) =
     (if in_range 0 127 a then utf8_valid r
      else if in_range 194 223 a then
        (case r of b # r' \<Rightarrow> continuation b \<and> utf8_valid r' | _ \<Rightarrow> False)
      else if in_range 224 239 a then
        (case r of
           b # c # r' \<Rightarrow>
             (if of_char a = (224::nat) then in_range 160 191 b
              else if of_char a = (237::nat) then in_range 128 159 b
              else continuation b) \<and> continuation c \<and> utf8_valid r'
         | _ \<Rightarrow> False)
      else if in_range 240 244 a then
        (case r of
           b # c # d # r' \<Rightarrow>
             (if of_char a = (240::nat) then in_range 144 191 b
              else if of_char a = (244::nat) then in_range 128 143 b
              else continuation b) \<and> continuation c \<and> continuation d \<and> utf8_valid r'
         | _ \<Rightarrow> False)
      else False)"

definition ascii :: "bytes \<Rightarrow> bool" where
  "ascii s \<longleftrightarrow> (\<forall>b \<in> set s. in_range 0 127 b)"

lemma utf8_valid_ascii: "ascii s \<Longrightarrow> utf8_valid s"
  by (induction s) (auto simp: ascii_def)

end
