(* ===== verification/Destination.thy ===== *)
theory Destination
  imports Byte_Strings
begin

text \<open>
  The crate \<open>relaygate-destination\<close>: validation of namespaces and destination names
  (\<open>name.rs\<close>), the exact routing key \<open>Destination\<close> with its parser, its display and the
  canonical byte key that the shard authority hash reads (\<open>destination.rs\<close>).
\<close>

definition MAX_LABEL_BYTES :: nat where
  "MAX_LABEL_BYTES = 63"

definition MAX_DESTINATION_NAME_BYTES :: nat where
  "MAX_DESTINATION_NAME_BYTES = 253"

datatype destination_error =
    InvalidDestination
  | InvalidNamespace
  | DestinationNameLength
  | LabelLength
  | LabelBoundary
  | LabelCharacter

datatype namespace = Namespace (namespace_as_str: string)

datatype destination_name = DestinationName (name_as_str: string)

record destination =
  dest_namespace :: namespace
  dest_name :: destination_name

definition is_alphanumeric :: "byte \<Rightarrow> bool" where
  "is_alphanumeric b \<longleftrightarrow> in_range 97 122 b \<or> in_range 48 57 b"

definition validate_label :: "string \<Rightarrow> destination_error + unit" where
  "validate_label value =
     (if value = [] \<or> length value > MAX_LABEL_BYTES then Inl LabelLength
      else if \<not> is_alphanumeric (hd value) \<or> \<not> is_alphanumeric (last value) then Inl LabelBoundary
      else if \<not> list_all (\<lambda>b. is_alphanumeric b \<or> b = CHR ''-'') value then Inl LabelCharacter
      else Inr ())"

definition namespace_new :: "string \<Rightarrow> destination_error + namespace" where
  "namespace_new value =
     (if CHR ''.'' \<in> set value then Inl InvalidNamespace
      else and_then (validate_label value) (\<lambda>_. Inr (Namespace value)))"

fun validate_labels :: "string list \<Rightarrow> destination_error + unit" where
  "validate_labels [] = Inr ()"
| "validate_labels (label # labels) = and_then (validate_label label) (\<lambda>_. validate_labels labels)"

definition destination_name_new :: "string \<Rightarrow> destination_error + destination_name" where
  "destination_name_new value =
     (if length value > MAX_DESTINATION_NAME_BYTES then Inl DestinationNameLength
      else and_then (validate_labels (split_char CHR ''.'' value)) (\<lambda>_. Inr (DestinationName value)))"

definition is_descendant_of :: "destination_name \<Rightarrow> destination_name \<Rightarrow> bool" where
  "is_descendant_of n prefix =
     (case strip_prefix (name_as_str prefix) (name_as_str n) of
        None \<Rightarrow> False
      | Some suffix \<Rightarrow> suffix \<noteq> [] \<and> hd suffix = CHR ''.'')"

definition destination_new :: "namespace \<Rightarrow> destination_name \<Rightarrow> destination" where
  "destination_new ns n = \<lparr>dest_namespace = ns, dest_name = n\<rparr>"

definition canonical_key :: "destination \<Rightarrow> bytes" where
  "canonical_key d =
     (let ns = namespace_as_str (dest_namespace d); n = name_as_str (dest_name d)
      in be_bytes 2 (length ns) @ ns @ be_bytes 2 (length n) @ n)"

definition destination_from_str :: "string \<Rightarrow> destination_error + destination" where
  "destination_from_str value =
     (case split_once CHR ''/'' value of
        None \<Rightarrow> Inl InvalidDestination
      | Some (ns, n) \<Rightarrow>
          if CHR ''/'' \<in> set n then Inl InvalidDestination
          else and_then (namespace_new ns)
                 (\<lambda>ns. and_then (destination_name_new n) (\<lambda>n. Inr (destination_new ns n))))"

definition destination_display :: "destination \<Rightarrow> string" where
  "destination_display d =
     namespace_as_str (dest_namespace d) @ CHR ''/'' # name_as_str (dest_name d)"

text \<open>
  The type invariant the constructors enforce: a namespace or name value exists only if its
  constructor accepts its text.
\<close>

definition label_ok :: "string \<Rightarrow> bool" where
  "label_ok l \<longleftrightarrow> validate_label l = Inr ()"

definition namespace_ok :: "namespace \<Rightarrow> bool" where
  "namespace_ok ns \<longleftrightarrow> namespace_new (namespace_as_str ns) = Inr ns"

definition name_ok :: "destination_name \<Rightarrow> bool" where
  "name_ok n \<longleftrightarrow> destination_name_new (name_as_str n) = Inr n"

definition destination_ok :: "destination \<Rightarrow> bool" where
  "destination_ok d \<longleftrightarrow> namespace_ok (dest_namespace d) \<and> name_ok (dest_name d)"

abbreviation labels :: "destination_name \<Rightarrow> string list" where
  "labels n \<equiv> split_char CHR ''.'' (name_as_str n)"

lemma validate_label_cases: "validate_label l = Inr () \<longleftrightarrow> \<not> (\<exists>e. validate_label l = Inl e)"
  by (simp add: validate_label_def)

lemma label_ok_iff:
  "label_ok l \<longleftrightarrow> l \<noteq> [] \<and> length l \<le> 63 \<and> is_alphanumeric (hd l) \<and> is_alphanumeric (last l)
     \<and> (\<forall>b \<in> set l. is_alphanumeric b \<or> b = CHR ''-'')"
  by (auto simp: label_ok_def validate_label_def MAX_LABEL_BYTES_def list_all_iff)

lemma label_bytes: "label_ok l \<Longrightarrow> b \<in> set l \<Longrightarrow> b \<noteq> CHR ''.'' \<and> b \<noteq> CHR ''/'' \<and> in_range 0 127 b"
  by (auto simp: label_ok_iff is_alphanumeric_def in_range_def)

lemma validate_labels_iff: "validate_labels ls = Inr () \<longleftrightarrow> (\<forall>l \<in> set ls. label_ok l)"
  by (induction ls) (auto simp: and_then_Inr label_ok_def)

lemma namespace_new_iff: "namespace_new v = Inr ns \<longleftrightarrow> ns = Namespace v \<and> label_ok v"
proof -
  have "label_ok v \<Longrightarrow> CHR ''.'' \<notin> set v" using label_bytes by blast
  then show ?thesis by (auto simp: namespace_new_def and_then_Inr label_ok_def)
qed

lemma destination_name_new_iff:
  "destination_name_new v = Inr n \<longleftrightarrow>
     n = DestinationName v \<and> length v \<le> 253 \<and> (\<forall>l \<in> set (split_char CHR ''.'' v). label_ok l)"
  by (auto simp: destination_name_new_def and_then_Inr validate_labels_iff MAX_DESTINATION_NAME_BYTES_def)

lemma namespace_ok_iff: "namespace_ok ns \<longleftrightarrow> label_ok (namespace_as_str ns)"
  by (auto simp: namespace_ok_def namespace_new_iff)

lemma name_ok_iff:
  "name_ok n \<longleftrightarrow> length (name_as_str n) \<le> 253 \<and> (\<forall>l \<in> set (labels n). label_ok l)"
  by (auto simp: name_ok_def destination_name_new_iff)

lemma set_join_char: "set (join_char c ws) \<subseteq> insert c (\<Union>w \<in> set ws. set w)"
  by (induction c ws rule: join_char.induct) auto

lemma name_bytes:
  assumes "name_ok n" and "b \<in> set (name_as_str n)"
  shows "b \<noteq> CHR ''/'' \<and> in_range 0 127 b"
proof -
  have "b \<in> set (join_char CHR ''.'' (labels n))" using assms(2) by simp
  then consider "b = CHR ''.''" | w where "w \<in> set (labels n)" "b \<in> set w"
    using set_join_char by blast
  then show ?thesis
  proof cases
    case 1
    then show ?thesis by (simp add: in_range_def)
  next
    case 2
    then show ?thesis using assms(1) label_bytes by (auto simp: name_ok_iff)
  qed
qed

lemma namespace_bytes:
  "namespace_ok ns \<Longrightarrow> b \<in> set (namespace_as_str ns) \<Longrightarrow> b \<noteq> CHR ''/'' \<and> in_range 0 127 b"
  using label_bytes by (auto simp: namespace_ok_iff)

lemma namespace_ascii: "namespace_ok ns \<Longrightarrow> ascii (namespace_as_str ns)"
  using namespace_bytes by (simp add: ascii_def)

lemma name_ascii: "name_ok n \<Longrightarrow> ascii (name_as_str n)"
  using name_bytes by (simp add: ascii_def)

lemma namespace_length: "namespace_ok ns \<Longrightarrow> length (namespace_as_str ns) \<le> 63"
  by (simp add: namespace_ok_iff label_ok_iff)

lemma name_length: "name_ok n \<Longrightarrow> length (name_as_str n) \<le> 253"
  by (simp add: name_ok_iff)

lemma be_prefixed_inject:
  assumes "length a < 65536" "length b < 65536"
    and "be_bytes 2 (length a) @ a @ r = be_bytes 2 (length b) @ b @ s"
  shows "a = b \<and> r = s"
proof -
  have "be_bytes 2 (length a) = be_bytes 2 (length b)" and rest: "a @ r = b @ s"
    using assms(3) by (simp_all add: append_eq_append_conv)
  then have "length a = length b"
    using assms(1,2) be_bytes_inject [of "length a" 2 "length b"] by simp
  then show ?thesis using rest by simp
qed

text \<open>
  C29. Parsing and display are inverse to each other: a valid destination survives the round trip
  through its text, and the parser accepts a text only if it is the display of the valid
  destination it returns.
\<close>
theorem destination_roundtrip:
  "(destination_ok d \<longrightarrow> destination_from_str (destination_display d) = Inr d) \<and>
   (destination_from_str s = Inr d \<longleftrightarrow> destination_ok d \<and> destination_display d = s)"
proof -
  have parse: "destination_from_str (destination_display d) = Inr d" if ok: "destination_ok d"
  proof -
    let ?ns = "namespace_as_str (dest_namespace d)" and ?n = "name_as_str (dest_name d)"
    have "CHR ''/'' \<notin> set ?ns" "CHR ''/'' \<notin> set ?n"
      using ok namespace_bytes name_bytes by (auto simp: destination_ok_def)
    moreover have "split_once CHR ''/'' (destination_display d) = Some (?ns, ?n)"
      using calculation by (simp add: split_once_Some destination_display_def)
    ultimately show ?thesis
      using ok by (simp add: destination_from_str_def destination_ok_def namespace_ok_def name_ok_def
          destination_new_def)
  qed
  have "destination_ok d \<and> destination_display d = s" if parsed: "destination_from_str s = Inr d"
  proof -
    obtain a b where "s = a @ CHR ''/'' # b" "namespace_new a = Inr (dest_namespace d)"
      "destination_name_new b = Inr (dest_name d)"
      using parsed
      by (auto simp: destination_from_str_def destination_new_def and_then_Inr split_once_Some
          split: option.splits if_splits)
    then show ?thesis
      by (simp add: destination_ok_def namespace_ok_def name_ok_def destination_display_def
          namespace_new_iff destination_name_new_iff)
  qed
  then show ?thesis using parse by blast
qed

theorem destination_roundtrip_witness:
  "destination_ok \<lparr>dest_namespace = Namespace ''inference'', dest_name = DestinationName ''stt.seoul''\<rparr> \<and>
   destination_from_str ''inference/stt.seoul'' =
     Inr \<lparr>dest_namespace = Namespace ''inference'', dest_name = DestinationName ''stt.seoul''\<rparr>"
proof -
  let ?d = "\<lparr>dest_namespace = Namespace ''inference'', dest_name = DestinationName ''stt.seoul''\<rparr>"
  have "destination_ok ?d" by code_simp
  moreover have "destination_display ?d = ''inference/stt.seoul''" by code_simp
  ultimately show ?thesis using destination_roundtrip [of ?d "''inference/stt.seoul''"] by simp
qed

text \<open>
  C30. The canonical key is collision-free: two valid destinations with the same key bytes are
  equal, although the key is a plain concatenation.
\<close>
theorem canonical_key_inject:
  assumes "destination_ok d" "destination_ok e"
  shows "canonical_key d = canonical_key e \<longleftrightarrow> d = e"
proof
  assume eq: "canonical_key d = canonical_key e"
  let ?ns = "\<lambda>x. namespace_as_str (dest_namespace x)" and ?n = "\<lambda>x. name_as_str (dest_name x)"
  have small: "length (?ns x) < 65536 \<and> length (?n x) < 65536" if "destination_ok x" for x
  proof -
    have "length (?ns x) \<le> 63" "length (?n x) \<le> 253"
      using that namespace_length name_length by (simp_all add: destination_ok_def)
    then show ?thesis by simp
  qed
  have key: "canonical_key x = be_bytes 2 (length (?ns x)) @ ?ns x @ be_bytes 2 (length (?n x)) @ ?n x @ []"
    for x by (simp only: canonical_key_def Let_def append_Nil2)
  have ns: "?ns d = ?ns e \<and> be_bytes 2 (length (?n d)) @ ?n d @ [] = be_bytes 2 (length (?n e)) @ ?n e @ []"
    using small [OF assms(1)] small [OF assms(2)] eq unfolding key by (intro be_prefixed_inject) blast+
  then have "?n d = ?n e"
    using small [OF assms(1)] small [OF assms(2)] be_prefixed_inject [of "?n d" "?n e" "[]" "[]"] by blast
  with ns show "d = e"
    by (intro destination.equality) (auto intro: namespace.expand destination_name.expand)
qed simp

theorem canonical_key_inject_witness:
  "destination_ok \<lparr>dest_namespace = Namespace ''a'', dest_name = DestinationName ''bc''\<rparr> \<and>
   destination_ok \<lparr>dest_namespace = Namespace ''ab'', dest_name = DestinationName ''c''\<rparr> \<and>
   canonical_key \<lparr>dest_namespace = Namespace ''a'', dest_name = DestinationName ''bc''\<rparr> \<noteq>
   canonical_key \<lparr>dest_namespace = Namespace ''ab'', dest_name = DestinationName ''c''\<rparr>"
proof -
  let ?d = "\<lparr>dest_namespace = Namespace ''a'', dest_name = DestinationName ''bc''\<rparr>"
  let ?e = "\<lparr>dest_namespace = Namespace ''ab'', dest_name = DestinationName ''c''\<rparr>"
  have "destination_ok ?d" "destination_ok ?e" by code_simp+
  then show ?thesis using canonical_key_inject [of ?d ?e] by simp
qed

text \<open>
  A name is a descendant of a prefix exactly when the prefix's labels are a proper prefix of its
  labels: permission subtrees never match inside a label.
\<close>
lemma is_descendant_of_labels:
  "is_descendant_of n p \<longleftrightarrow> (\<exists>ls. ls \<noteq> [] \<and> labels n = labels p @ ls)"
proof
  assume "is_descendant_of n p"
  then obtain r where "name_as_str n = name_as_str p @ CHR ''.'' # r"
    by (cases n; cases p)
      (auto simp: is_descendant_of_def strip_prefix_Some neq_Nil_conv split: option.splits)
  then show "\<exists>ls. ls \<noteq> [] \<and> labels n = labels p @ ls"
    by (auto simp: split_char_append)
next
  assume "\<exists>ls. ls \<noteq> [] \<and> labels n = labels p @ ls"
  then obtain ls where ls: "ls \<noteq> []" "labels n = labels p @ ls" by blast
  have "name_as_str n = join_char CHR ''.'' (labels p @ ls)" using ls by (metis join_split)
  also have "\<dots> = join_char CHR ''.'' (labels p) @ CHR ''.'' # join_char CHR ''.'' ls"
    using ls(1) by (simp only: join_char_append split_char_nonempty not_False_eq_True)
  finally show "is_descendant_of n p"
    by (simp add: is_descendant_of_def strip_prefix_Some [THEN iffD2])
qed

end
