(* ===== verification/Frame.thy ===== *)
theory Frame
  imports Destination
begin

text \<open>
  The SDK--Gateway wire vocabulary of the crate \<open>relaygate-protocol\<close>: error codes, peer
  observations and frames (\<open>frame.rs\<close>), identifiers (\<open>identity.rs\<close>), the bounded credential
  (\<open>secret.rs\<close>), the codec's errors (\<open>error.rs\<close>) and the redacting \<open>Debug\<close> of a frame.
  The opaque UUID newtypes are synonyms of \<^typ>\<open>uuid\<close>; constructors carry the name of their
  Rust enum where two enums share a variant name.
\<close>

type_synonym session_id = uuid
type_synonym binding_id = uuid

record pipe_id =
  origin_session_id :: session_id
  pipe_connection_id :: u64

definition pipe_id_new :: "session_id \<Rightarrow> u64 \<Rightarrow> pipe_id" where
  "pipe_id_new s c = \<lparr>origin_session_id = s, pipe_connection_id = c\<rparr>"

datatype error_code =
    InvalidArgument | Unauthenticated | PermissionDenied | NotFound | FailedPrecondition
  | Unavailable | DeadlineExceeded | ResourceExhausted | Cancelled | ProtocolError | Internal
  | AlreadyExists

fun error_code_to_wire :: "error_code \<Rightarrow> nat" where
  "error_code_to_wire InvalidArgument = 1"
| "error_code_to_wire Unauthenticated = 2"
| "error_code_to_wire PermissionDenied = 3"
| "error_code_to_wire NotFound = 4"
| "error_code_to_wire FailedPrecondition = 5"
| "error_code_to_wire Unavailable = 6"
| "error_code_to_wire DeadlineExceeded = 7"
| "error_code_to_wire ResourceExhausted = 8"
| "error_code_to_wire Cancelled = 9"
| "error_code_to_wire ProtocolError = 10"
| "error_code_to_wire Internal = 11"
| "error_code_to_wire AlreadyExists = 12"

fun metric_name :: "error_code \<Rightarrow> string" where
  "metric_name InvalidArgument = ''invalid_argument''"
| "metric_name Unauthenticated = ''unauthenticated''"
| "metric_name PermissionDenied = ''permission_denied''"
| "metric_name NotFound = ''not_found''"
| "metric_name FailedPrecondition = ''failed_precondition''"
| "metric_name Unavailable = ''unavailable''"
| "metric_name DeadlineExceeded = ''deadline_exceeded''"
| "metric_name ResourceExhausted = ''resource_exhausted''"
| "metric_name Cancelled = ''cancelled''"
| "metric_name ProtocolError = ''protocol_error''"
| "metric_name Internal = ''internal''"
| "metric_name AlreadyExists = ''already_exists''"

definition error_code_from_wire :: "nat \<Rightarrow> error_code option" where
  "error_code_from_wire v =
     (if v = 1 then Some InvalidArgument else if v = 2 then Some Unauthenticated
      else if v = 3 then Some PermissionDenied else if v = 4 then Some NotFound
      else if v = 5 then Some FailedPrecondition else if v = 6 then Some Unavailable
      else if v = 7 then Some DeadlineExceeded else if v = 8 then Some ResourceExhausted
      else if v = 9 then Some Cancelled else if v = 10 then Some ProtocolError
      else if v = 11 then Some Internal else if v = 12 then Some AlreadyExists
      else None)"

datatype peer_observation = NotObserved | MaybeObserved | Observed

fun observation_to_wire :: "peer_observation \<Rightarrow> nat" where
  "observation_to_wire NotObserved = 1"
| "observation_to_wire MaybeObserved = 2"
| "observation_to_wire Observed = 3"

definition observation_from_wire :: "nat \<Rightarrow> peer_observation option" where
  "observation_from_wire v =
     (if v = 1 then Some NotObserved else if v = 2 then Some MaybeObserved
      else if v = 3 then Some Observed else None)"

datatype protocol_error =
    Io
  | FrameTooLarge nat nat
  | UnsupportedVersion nat
  | InvalidMagic
  | UnknownFrameKind nat
  | UnknownEnum string nat
  | Truncated string
  | InvalidUtf8 string
  | ProtocolInvalidDestination
  | FieldTooLong string nat nat
  | TrailingBytes nat
  | LengthOverflow

definition MAX_BEARER_TOKEN_BYTES :: nat where
  "MAX_BEARER_TOKEN_BYTES = 4096"

datatype bearer_token = BearerToken (expose_secret: string)

definition bearer_token_new :: "string \<Rightarrow> protocol_error + bearer_token" where
  "bearer_token_new value =
     (if length value > MAX_BEARER_TOKEN_BYTES
      then Inl (FieldTooLong ''access_token'' (length value) MAX_BEARER_TOKEN_BYTES)
      else Inr (BearerToken value))"

datatype frame =
    FrameHello
  | FrameWelcome session_id
  | FrameSessionRejected error_code string
  | FramePublish u64 destination bearer_token
  | FramePublished u64 binding_id
  | FramePublishFailed u64 error_code string
  | FrameUnpublish u64 binding_id
  | FrameUnpublished u64
  | FrameDial u64 destination bearer_token
  | FrameOffer pipe_id binding_id destination
  | FrameOfferAccepted pipe_id
  | FrameOfferRejected pipe_id error_code string
  | FrameOpened pipe_id
  | FrameDialFailed u64 error_code peer_observation string
  | FrameData pipe_id bytes
  | FrameFin pipe_id
  | FrameClose pipe_id
  | FrameReset pipe_id error_code string
  | FramePing u64
  | FramePong u64
  | FrameCancel pipe_id

text \<open>
  What the Rust types of the fields guarantee: a \<open>String\<close> is UTF-8, a \<open>Destination\<close> and a
  \<open>BearerToken\<close> only exist when their constructors accepted them.
\<close>

definition token_ok :: "bearer_token \<Rightarrow> bool" where
  "token_ok t \<longleftrightarrow> utf8_valid (expose_secret t) \<and> bearer_token_new (expose_secret t) = Inr t"

fun frame_ok :: "frame \<Rightarrow> bool" where
  "frame_ok (FrameSessionRejected c m) = utf8_valid m"
| "frame_ok (FramePublish i d t) = (destination_ok d \<and> token_ok t)"
| "frame_ok (FramePublishFailed i c m) = utf8_valid m"
| "frame_ok (FrameDial i d t) = (destination_ok d \<and> token_ok t)"
| "frame_ok (FrameOffer p b d) = destination_ok d"
| "frame_ok (FrameOfferRejected p c m) = utf8_valid m"
| "frame_ok (FrameDialFailed i c ob m) = utf8_valid m"
| "frame_ok (FrameReset p c m) = utf8_valid m"
| "frame_ok _ = True"

lemma error_code_wire_roundtrip [simp]: "error_code_from_wire (error_code_to_wire c) = Some c"
  by (cases c) (simp_all add: error_code_from_wire_def)

lemma error_code_from_wire_Some: "error_code_from_wire v = Some c \<longleftrightarrow> v = error_code_to_wire c"
proof
  show "error_code_from_wire v = Some c \<Longrightarrow> v = error_code_to_wire c"
    by (auto simp: error_code_from_wire_def split: if_splits)
qed simp

lemma error_code_to_wire_less: "error_code_to_wire c < 256"
  by (cases c) simp_all

lemma observation_wire_roundtrip [simp]: "observation_from_wire (observation_to_wire c) = Some c"
  by (cases c) (simp_all add: observation_from_wire_def)

lemma observation_from_wire_Some: "observation_from_wire v = Some c \<longleftrightarrow> v = observation_to_wire c"
proof
  show "observation_from_wire v = Some c \<Longrightarrow> v = observation_to_wire c"
    by (auto simp: observation_from_wire_def split: if_splits)
qed simp

lemma observation_to_wire_less: "observation_to_wire c < 256"
  by (cases c) simp_all

lemma bearer_token_new_Inr: "bearer_token_new s = Inr t \<longleftrightarrow> t = BearerToken s \<and> length s \<le> 4096"
  by (auto simp: bearer_token_new_def MAX_BEARER_TOKEN_BYTES_def)

lemma token_ok_iff: "token_ok t \<longleftrightarrow> utf8_valid (expose_secret t) \<and> length (expose_secret t) \<le> 4096"
  by (auto simp: token_ok_def bearer_token_new_Inr)

section \<open>Debug output\<close>

text \<open>
  What the \<open>Debug\<close> implementation hands to the formatter: a structure name and named fields. A
  field value is the debugged value itself, except that a token prints its redaction text.
\<close>

datatype debug_value =
    DebugUuid uuid
  | DebugU64 u64
  | DebugUsize nat
  | DebugCode error_code
  | DebugObservation peer_observation
  | DebugString string
  | DebugDestination destination
  | DebugPipe pipe_id
  | DebugRaw string

datatype debug_output =
    DebugStr string
  | DebugStruct string "(string \<times> debug_value) list"

definition bearer_token_debug :: "bearer_token \<Rightarrow> debug_value" where
  "bearer_token_debug t = DebugRaw ''BearerToken([REDACTED])''"

fun frame_debug :: "frame \<Rightarrow> debug_output" where
  "frame_debug FrameHello = DebugStr ''Hello''"
| "frame_debug (FrameWelcome s) = DebugStruct ''Welcome'' [(''session_id'', DebugUuid s)]"
| "frame_debug (FrameSessionRejected c m) =
     DebugStruct ''SessionRejected'' [(''code'', DebugCode c), (''message'', DebugString m)]"
| "frame_debug (FramePublish i d t) =
     DebugStruct ''Publish'' [(''request_id'', DebugU64 i), (''destination'', DebugDestination d),
       (''access_token'', bearer_token_debug t)]"
| "frame_debug (FramePublished i b) =
     DebugStruct ''Published'' [(''request_id'', DebugU64 i), (''binding_id'', DebugUuid b)]"
| "frame_debug (FramePublishFailed i c m) =
     DebugStruct ''PublishFailed'' [(''request_id'', DebugU64 i), (''code'', DebugCode c),
       (''message'', DebugString m)]"
| "frame_debug (FrameUnpublish i b) =
     DebugStruct ''Unpublish'' [(''request_id'', DebugU64 i), (''binding_id'', DebugUuid b)]"
| "frame_debug (FrameUnpublished i) = DebugStruct ''Unpublished'' [(''request_id'', DebugU64 i)]"
| "frame_debug (FrameDial i d t) =
     DebugStruct ''Dial'' [(''connection_id'', DebugU64 i), (''destination'', DebugDestination d),
       (''access_token'', bearer_token_debug t)]"
| "frame_debug (FrameOffer p b d) =
     DebugStruct ''Offer'' [(''pipe_id'', DebugPipe p), (''binding_id'', DebugUuid b),
       (''destination'', DebugDestination d)]"
| "frame_debug (FrameOfferAccepted p) = DebugStruct ''OfferAccepted'' [(''pipe_id'', DebugPipe p)]"
| "frame_debug (FrameOfferRejected p c m) =
     DebugStruct ''OfferRejected'' [(''pipe_id'', DebugPipe p), (''code'', DebugCode c),
       (''message'', DebugString m)]"
| "frame_debug (FrameOpened p) = DebugStruct ''Opened'' [(''pipe_id'', DebugPipe p)]"
| "frame_debug (FrameDialFailed i c ob m) =
     DebugStruct ''DialFailed'' [(''connection_id'', DebugU64 i), (''code'', DebugCode c),
       (''observation'', DebugObservation ob), (''message'', DebugString m)]"
| "frame_debug (FrameData p payload) =
     DebugStruct ''Data'' [(''pipe_id'', DebugPipe p), (''payload_len'', DebugUsize (length payload))]"
| "frame_debug (FrameFin p) = DebugStruct ''Fin'' [(''pipe_id'', DebugPipe p)]"
| "frame_debug (FrameClose p) = DebugStruct ''Close'' [(''pipe_id'', DebugPipe p)]"
| "frame_debug (FrameReset p c m) =
     DebugStruct ''Reset'' [(''pipe_id'', DebugPipe p), (''code'', DebugCode c),
       (''message'', DebugString m)]"
| "frame_debug (FramePing n) = DebugStruct ''Ping'' [(''nonce'', DebugU64 n)]"
| "frame_debug (FramePong n) = DebugStruct ''Pong'' [(''nonce'', DebugU64 n)]"
| "frame_debug (FrameCancel p) = DebugStruct ''Cancel'' [(''pipe_id'', DebugPipe p)]"

text \<open>Two frames an observer without credentials and payloads cannot tell apart.\<close>

fun scrub :: "frame \<Rightarrow> frame" where
  "scrub (FramePublish i d t) = FramePublish i d (BearerToken '''')"
| "scrub (FrameDial i d t) = FrameDial i d (BearerToken '''')"
| "scrub (FrameData p payload) = FrameData p (replicate (length payload) CHR 0x00)"
| "scrub f = f"

text \<open>
  C36. Logging a frame reveals neither the credential nor the application bytes, and nothing else
  is hidden: two frames have the same debug output exactly when they agree once tokens are erased
  and payload bytes are zeroed.
\<close>
theorem frame_debug_redacts: "frame_debug f = frame_debug g \<longleftrightarrow> scrub f = scrub g"
proof -
  have payload: "replicate (length p) c = replicate (length q) c \<longleftrightarrow> length p = length q"
    for p q :: bytes and c by (metis length_replicate)
  show ?thesis
    by (cases f; cases g) (simp_all add: bearer_token_debug_def payload)
qed

end
