(* ===== verification/Codec.thy ===== *)
theory Codec
  imports Frame
begin

text \<open>
  The length-delimited codec of \<open>relaygate-protocol/src/codec.rs\<close>: \<open>FrameCodec::encode\<close> with
  its copy-free path for \<open>DATA\<close>, \<open>FrameCodec::decode\<close>, the payload encoder and decoder and the
  \<open>PayloadReader\<close>. A codec is its \<open>max_frame_len\<close>. The output buffer is passed and returned;
  an encoder error leaves the caller's buffer as it was. \<open>usize\<close> has 64 bits.
\<close>

definition MAGIC :: bytes where "MAGIC = ''RG''"
definition VERSION :: nat where "VERSION = 3"
definition HEADER_LEN :: nat where "HEADER_LEN = 8"
definition PIPE_ID_WIRE_LEN :: nat where "PIPE_ID_WIRE_LEN = 24"
definition MAX_STRING_LEN :: nat where "MAX_STRING_LEN = 65535"
definition MAX_HELLO_FRAME_LEN :: nat where "MAX_HELLO_FRAME_LEN = 0"
definition DEFAULT_MAX_FRAME_LEN :: nat where "DEFAULT_MAX_FRAME_LEN = 1024 * 1024"

definition usize_checked_add :: "nat \<Rightarrow> nat \<Rightarrow> nat option" where
  "usize_checked_add a b = (if a + b < 2 ^ 64 then Some (a + b) else None)"

section \<open>Encoding\<close>

definition put_u8 :: "nat \<Rightarrow> bytes \<Rightarrow> bytes" where
  "put_u8 v buf = buf @ be_bytes 1 v"

definition put_u64 :: "u64 \<Rightarrow> bytes \<Rightarrow> bytes" where
  "put_u64 v buf = buf @ u64_bytes v"

definition put_string :: "string \<Rightarrow> string \<Rightarrow> bytes \<Rightarrow> protocol_error + bytes" where
  "put_string field value buf =
     (if length value > MAX_STRING_LEN then Inl (FieldTooLong field (length value) MAX_STRING_LEN)
      else Inr (buf @ be_bytes 2 (length value) @ value))"

definition put_session_id :: "session_id \<Rightarrow> bytes \<Rightarrow> bytes" where
  "put_session_id v buf = buf @ uuid_bytes v"

definition put_binding_id :: "binding_id \<Rightarrow> bytes \<Rightarrow> bytes" where
  "put_binding_id v buf = buf @ uuid_bytes v"

definition put_destination :: "destination \<Rightarrow> bytes \<Rightarrow> protocol_error + bytes" where
  "put_destination d buf =
     and_then (put_string ''namespace'' (namespace_as_str (dest_namespace d)) buf)
       (put_string ''name'' (name_as_str (dest_name d)))"

definition put_pipe_id :: "pipe_id \<Rightarrow> bytes \<Rightarrow> bytes" where
  "put_pipe_id p buf = put_u64 (pipe_connection_id p) (put_session_id (origin_session_id p) buf)"

abbreviation with_kind :: "nat \<Rightarrow> protocol_error + bytes \<Rightarrow> protocol_error + (nat \<times> bytes)" where
  "with_kind kind r \<equiv> and_then r (\<lambda>buf. Inr (kind, buf))"

fun encode_payload :: "frame \<Rightarrow> bytes \<Rightarrow> protocol_error + (nat \<times> bytes)" where
  "encode_payload FrameHello buf = Inr (1, buf)"
| "encode_payload (FrameWelcome s) buf = Inr (2, put_session_id s buf)"
| "encode_payload (FrameSessionRejected c m) buf =
     with_kind 3 (put_string ''message'' m (put_u8 (error_code_to_wire c) buf))"
| "encode_payload (FramePublish i d t) buf =
     with_kind 4 (and_then (put_destination d (put_u64 i buf))
       (put_string ''access_token'' (expose_secret t)))"
| "encode_payload (FramePublished i b) buf = Inr (5, put_binding_id b (put_u64 i buf))"
| "encode_payload (FramePublishFailed i c m) buf =
     with_kind 6 (put_string ''message'' m (put_u8 (error_code_to_wire c) (put_u64 i buf)))"
| "encode_payload (FrameUnpublish i b) buf = Inr (7, put_binding_id b (put_u64 i buf))"
| "encode_payload (FrameUnpublished i) buf = Inr (8, put_u64 i buf)"
| "encode_payload (FrameDial i d t) buf =
     with_kind 9 (and_then (put_destination d (put_u64 i buf))
       (put_string ''access_token'' (expose_secret t)))"
| "encode_payload (FrameOffer p b d) buf =
     with_kind 10 (put_destination d (put_binding_id b (put_pipe_id p buf)))"
| "encode_payload (FrameOfferAccepted p) buf = Inr (11, put_pipe_id p buf)"
| "encode_payload (FrameOfferRejected p c m) buf =
     with_kind 12 (put_string ''message'' m (put_u8 (error_code_to_wire c) (put_pipe_id p buf)))"
| "encode_payload (FrameOpened p) buf = Inr (13, put_pipe_id p buf)"
| "encode_payload (FrameDialFailed i c ob m) buf =
     with_kind 14 (put_string ''message'' m
       (put_u8 (observation_to_wire ob) (put_u8 (error_code_to_wire c) (put_u64 i buf))))"
| "encode_payload (FrameData p payload) buf = Inr (15, put_pipe_id p buf @ payload)"
| "encode_payload (FrameFin p) buf = Inr (16, put_pipe_id p buf)"
| "encode_payload (FrameClose p) buf = Inr (17, put_pipe_id p buf)"
| "encode_payload (FrameReset p c m) buf =
     with_kind 18 (put_string ''message'' m (put_u8 (error_code_to_wire c) (put_pipe_id p buf)))"
| "encode_payload (FramePing n) buf = Inr (19, put_u64 n buf)"
| "encode_payload (FramePong n) buf = Inr (20, put_u64 n buf)"
| "encode_payload (FrameCancel p) buf = Inr (21, put_pipe_id p buf)"

definition encode_data :: "nat \<Rightarrow> pipe_id \<Rightarrow> bytes \<Rightarrow> bytes \<Rightarrow> protocol_error + bytes" where
  "encode_data max_frame_len pipe payload buf =
     (case usize_checked_add PIPE_ID_WIRE_LEN (length payload) of
        None \<Rightarrow> Inl LengthOverflow
      | Some payload_len \<Rightarrow>
          if payload_len > max_frame_len then Inl (FrameTooLarge payload_len max_frame_len)
          else if payload_len \<ge> 2 ^ 32 then Inl LengthOverflow
          else (case usize_checked_add HEADER_LEN payload_len of
             None \<Rightarrow> Inl LengthOverflow
           | Some frame_len \<Rightarrow>
               (case usize_checked_add (length buf) frame_len of
                  None \<Rightarrow> Inl LengthOverflow
                | Some _ \<Rightarrow>
                    Inr (put_pipe_id pipe
                      (put_u8 15 (put_u8 VERSION (buf @ MAGIC)) @ be_bytes 4 payload_len) @ payload))))"

definition encode_framed :: "nat \<Rightarrow> frame \<Rightarrow> bytes \<Rightarrow> protocol_error + bytes" where
  "encode_framed max_frame_len item buf =
     and_then (encode_payload item []) (\<lambda>(kind, payload).
       if length payload > max_frame_len then Inl (FrameTooLarge (length payload) max_frame_len)
       else if length payload \<ge> 2 ^ 32 then Inl LengthOverflow
       else Inr (put_u8 kind (put_u8 VERSION (buf @ MAGIC)) @ be_bytes 4 (length payload) @ payload))"

fun encode :: "nat \<Rightarrow> frame \<Rightarrow> bytes \<Rightarrow> protocol_error + bytes" where
  "encode max_frame_len (FrameData p payload) buf = encode_data max_frame_len p payload buf"
| "encode max_frame_len item buf = encode_framed max_frame_len item buf"

section \<open>Decoding\<close>

record payload_reader =
  payload :: bytes
  position :: nat

type_synonym 'a read = "protocol_error + ('a \<times> payload_reader)"

definition reader_new :: "bytes \<Rightarrow> payload_reader" where
  "reader_new bs = \<lparr>payload = bs, position = 0\<rparr>"

definition read_take :: "nat \<Rightarrow> string \<Rightarrow> payload_reader \<Rightarrow> bytes read" where
  "read_take len field r =
     (case usize_checked_add (position r) len of
        None \<Rightarrow> Inl LengthOverflow
      | Some stop \<Rightarrow>
          if stop \<le> length (payload r)
          then Inr (take len (drop (position r) (payload r)), r\<lparr>position := stop\<rparr>)
          else Inl (Truncated field))"

definition read_u8 :: "string \<Rightarrow> payload_reader \<Rightarrow> nat read" where
  "read_u8 field r = and_then (read_take 1 field r) (\<lambda>(bs, r). Inr (be_val bs, r))"

definition read_u16 :: "string \<Rightarrow> payload_reader \<Rightarrow> nat read" where
  "read_u16 field r = and_then (read_take 2 field r) (\<lambda>(bs, r). Inr (be_val bs, r))"

definition read_u64 :: "string \<Rightarrow> payload_reader \<Rightarrow> u64 read" where
  "read_u64 field r = and_then (read_take 8 field r) (\<lambda>(bs, r). Inr (u64_of_bytes bs, r))"

definition read_string :: "string \<Rightarrow> payload_reader \<Rightarrow> string read" where
  "read_string field r =
     and_then (read_u16 field r) (\<lambda>(len, r).
     and_then (read_take len field r) (\<lambda>(bs, r).
       if utf8_valid bs then Inr (bs, r) else Inl (InvalidUtf8 field)))"

definition read_uuid :: "string \<Rightarrow> payload_reader \<Rightarrow> uuid read" where
  "read_uuid field r = and_then (read_take 16 field r) (\<lambda>(bs, r). Inr (uuid_of_bytes bs, r))"

definition read_session_id :: "payload_reader \<Rightarrow> session_id read" where
  "read_session_id = read_uuid ''session_id''"

definition read_binding_id :: "payload_reader \<Rightarrow> binding_id read" where
  "read_binding_id = read_uuid ''binding_id''"

definition read_destination :: "payload_reader \<Rightarrow> destination read" where
  "read_destination r =
     and_then (read_string ''namespace'' r) (\<lambda>(s, r).
     and_then (map_err (\<lambda>_. ProtocolInvalidDestination) (namespace_new s)) (\<lambda>ns.
     and_then (read_string ''name'' r) (\<lambda>(s, r).
     and_then (map_err (\<lambda>_. ProtocolInvalidDestination) (destination_name_new s)) (\<lambda>n.
       Inr (destination_new ns n, r)))))"

definition read_access_token :: "payload_reader \<Rightarrow> bearer_token read" where
  "read_access_token r =
     and_then (read_u16 ''access_token'' r) (\<lambda>(len, r).
       if len > MAX_BEARER_TOKEN_BYTES then Inl (FieldTooLong ''access_token'' len MAX_BEARER_TOKEN_BYTES)
       else and_then (read_take len ''access_token'' r) (\<lambda>(bs, r).
         if utf8_valid bs then and_then (bearer_token_new bs) (\<lambda>t. Inr (t, r))
         else Inl (InvalidUtf8 ''access_token'')))"

definition read_pipe_id :: "payload_reader \<Rightarrow> pipe_id read" where
  "read_pipe_id r =
     and_then (read_session_id r) (\<lambda>(s, r).
     and_then (read_u64 ''connection_id'' r) (\<lambda>(c, r). Inr (pipe_id_new s c, r)))"

definition read_error_code :: "payload_reader \<Rightarrow> error_code read" where
  "read_error_code r =
     and_then (read_u8 ''error_code'' r) (\<lambda>(v, r).
       case error_code_from_wire v of None \<Rightarrow> Inl (UnknownEnum ''ErrorCode'' v) | Some c \<Rightarrow> Inr (c, r))"

definition read_observation :: "payload_reader \<Rightarrow> peer_observation read" where
  "read_observation r =
     and_then (read_u8 ''peer_observation'' r) (\<lambda>(v, r).
       case observation_from_wire v of
         None \<Rightarrow> Inl (UnknownEnum ''PeerObservation'' v) | Some c \<Rightarrow> Inr (c, r))"

definition read_remaining :: "payload_reader \<Rightarrow> bytes \<times> payload_reader" where
  "read_remaining r = (drop (position r) (payload r), r\<lparr>position := length (payload r)\<rparr>)"

definition read_finish :: "payload_reader \<Rightarrow> protocol_error + unit" where
  "read_finish r =
     (let trailing = length (payload r) - position r
      in if trailing = 0 then Inr () else Inl (TrailingBytes trailing))"

definition decode_body :: "nat \<Rightarrow> payload_reader \<Rightarrow> frame read" where
  "decode_body kind r =
     (if kind = 1 then Inr (FrameHello, r)
      else if kind = 2 then and_then (read_session_id r) (\<lambda>(s, r). Inr (FrameWelcome s, r))
      else if kind = 3 then
        and_then (read_error_code r) (\<lambda>(c, r).
        and_then (read_string ''message'' r) (\<lambda>(m, r). Inr (FrameSessionRejected c m, r)))
      else if kind = 4 then
        and_then (read_u64 ''request_id'' r) (\<lambda>(i, r).
        and_then (read_destination r) (\<lambda>(d, r).
        and_then (read_access_token r) (\<lambda>(t, r). Inr (FramePublish i d t, r))))
      else if kind = 5 then
        and_then (read_u64 ''request_id'' r) (\<lambda>(i, r).
        and_then (read_binding_id r) (\<lambda>(b, r). Inr (FramePublished i b, r)))
      else if kind = 6 then
        and_then (read_u64 ''request_id'' r) (\<lambda>(i, r).
        and_then (read_error_code r) (\<lambda>(c, r).
        and_then (read_string ''message'' r) (\<lambda>(m, r). Inr (FramePublishFailed i c m, r))))
      else if kind = 7 then
        and_then (read_u64 ''request_id'' r) (\<lambda>(i, r).
        and_then (read_binding_id r) (\<lambda>(b, r). Inr (FrameUnpublish i b, r)))
      else if kind = 8 then
        and_then (read_u64 ''request_id'' r) (\<lambda>(i, r). Inr (FrameUnpublished i, r))
      else if kind = 9 then
        and_then (read_u64 ''connection_id'' r) (\<lambda>(i, r).
        and_then (read_destination r) (\<lambda>(d, r).
        and_then (read_access_token r) (\<lambda>(t, r). Inr (FrameDial i d t, r))))
      else if kind = 10 then
        and_then (read_pipe_id r) (\<lambda>(p, r).
        and_then (read_binding_id r) (\<lambda>(b, r).
        and_then (read_destination r) (\<lambda>(d, r). Inr (FrameOffer p b d, r))))
      else if kind = 11 then and_then (read_pipe_id r) (\<lambda>(p, r). Inr (FrameOfferAccepted p, r))
      else if kind = 12 then
        and_then (read_pipe_id r) (\<lambda>(p, r).
        and_then (read_error_code r) (\<lambda>(c, r).
        and_then (read_string ''message'' r) (\<lambda>(m, r). Inr (FrameOfferRejected p c m, r))))
      else if kind = 13 then and_then (read_pipe_id r) (\<lambda>(p, r). Inr (FrameOpened p, r))
      else if kind = 14 then
        and_then (read_u64 ''connection_id'' r) (\<lambda>(i, r).
        and_then (read_error_code r) (\<lambda>(c, r).
        and_then (read_observation r) (\<lambda>(ob, r).
        and_then (read_string ''message'' r) (\<lambda>(m, r). Inr (FrameDialFailed i c ob m, r)))))
      else if kind = 15 then
        and_then (read_pipe_id r) (\<lambda>(p, r). case read_remaining r of (bs, r) \<Rightarrow> Inr (FrameData p bs, r))
      else if kind = 16 then and_then (read_pipe_id r) (\<lambda>(p, r). Inr (FrameFin p, r))
      else if kind = 17 then and_then (read_pipe_id r) (\<lambda>(p, r). Inr (FrameClose p, r))
      else if kind = 18 then
        and_then (read_pipe_id r) (\<lambda>(p, r).
        and_then (read_error_code r) (\<lambda>(c, r).
        and_then (read_string ''message'' r) (\<lambda>(m, r). Inr (FrameReset p c m, r))))
      else if kind = 19 then and_then (read_u64 ''nonce'' r) (\<lambda>(n, r). Inr (FramePing n, r))
      else if kind = 20 then and_then (read_u64 ''nonce'' r) (\<lambda>(n, r). Inr (FramePong n, r))
      else if kind = 21 then and_then (read_pipe_id r) (\<lambda>(p, r). Inr (FrameCancel p, r))
      else Inl (UnknownFrameKind kind))"

definition decode_payload :: "nat \<Rightarrow> bytes \<Rightarrow> protocol_error + frame" where
  "decode_payload kind bs =
     and_then (decode_body kind (reader_new bs)) (\<lambda>(f, r). and_then (read_finish r) (\<lambda>_. Inr f))"

text \<open>
  \<open>decode\<close> returns the outcome and the source buffer afterwards: untouched while the frame is
  incomplete or its header is refused, advanced past the frame otherwise. The indexed reads of the
  header are in range because of the length check in front of them.
\<close>

definition decode :: "nat \<Rightarrow> bytes \<Rightarrow> (protocol_error + frame option) \<times> bytes" where
  "decode max_frame_len source =
     (if length source < HEADER_LEN then (Inr None, source)
      else if take 2 source \<noteq> MAGIC then (Inl InvalidMagic, source)
      else let version = of_char (source ! 2) in
        if version \<noteq> VERSION then (Inl (UnsupportedVersion version), source)
        else let kind = of_char (source ! 3);
                 payload_len = be_val [source ! 4, source ! 5, source ! 6, source ! 7] in
          if payload_len > max_frame_len then (Inl (FrameTooLarge payload_len max_frame_len), source)
          else if length source < HEADER_LEN + payload_len then (Inr None, source)
          else let rest = drop HEADER_LEN source in
            (and_then (decode_payload kind (take payload_len rest)) (\<lambda>f. Inr (Some f)),
             drop payload_len rest))"

end
