(* ===== verification/Codec_Laws.thy ===== *)
theory Codec_Laws
  imports Codec
begin

text \<open>
  The contract of a wire field and the reference grammar of a payload. The locale \<open>field_codec\<close>
  says what the decoder relies on for one field: reading what was written returns the value and
  stops right behind it, and whatever is read was written that way. Every field reader of
  \<open>PayloadReader\<close> is an interpretation. \<open>frame_kind\<close> and \<open>frame_wire\<close> are the wire format as a
  function of the frame; the encoder and the decoder are both shown to implement them.
\<close>

definition reader_at :: "bytes \<Rightarrow> bytes \<Rightarrow> payload_reader" where
  "reader_at pre bs = \<lparr>payload = pre @ bs, position = length pre\<rparr>"

lemma reader_new_at: "reader_new bs = reader_at [] bs"
  by (simp add: reader_new_def reader_at_def)

lemma read_take_at:
  "length xs = n \<Longrightarrow> length pre + length (xs @ rest) < 2 ^ 64 \<Longrightarrow>
   read_take n field (reader_at pre (xs @ rest)) = Inr (xs, reader_at (pre @ xs) rest)"
  by (simp add: read_take_def reader_at_def usize_checked_add_def)

lemma read_take_inv:
  assumes "read_take n field (reader_at pre bs) = Inr (xs, r)"
  shows "\<exists>rest. bs = xs @ rest \<and> length xs = n \<and> r = reader_at (pre @ xs) rest"
proof -
  have "n \<le> length bs" and xs: "xs = take n bs"
    and r: "r = \<lparr>payload = pre @ bs, position = length pre + n\<rparr>"
    using assms by (auto simp: read_take_def reader_at_def usize_checked_add_def split: if_splits)
  then have "bs = xs @ drop n bs" "length xs = n" by simp_all
  moreover have "r = reader_at (pre @ xs) (drop n bs)"
    using calculation r by (simp add: reader_at_def)
  ultimately show ?thesis by blast
qed

lemma read_finish_at: "read_finish (reader_at pre bs) = Inr () \<longleftrightarrow> bs = []"
  by (simp add: read_finish_def reader_at_def Let_def)

lemma read_remaining_at: "read_remaining (reader_at pre bs) = (bs, reader_at (pre @ bs) [])"
  by (simp add: read_remaining_def reader_at_def)

text \<open>What the decoder relies on for one field.\<close>

locale field_codec =
  fixes put :: "'a \<Rightarrow> bytes" and get :: "payload_reader \<Rightarrow> 'e + ('a \<times> payload_reader)" and valid :: "'a \<Rightarrow> bool"
  assumes get_put: "valid x \<Longrightarrow> length pre + length (put x @ rest) < 2 ^ 64 \<Longrightarrow>
      get (reader_at pre (put x @ rest)) = Inr (x, reader_at (pre @ put x) rest)"
    and get_inv: "get (reader_at pre bs) = Inr (x, r) \<Longrightarrow>
      \<exists>rest. bs = put x @ rest \<and> valid x \<and> r = reader_at (pre @ put x) rest"
begin

lemma get_last:
  "valid x \<Longrightarrow> length pre + length (put x) < 2 ^ 64 \<Longrightarrow>
   get (reader_at pre (put x)) = Inr (x, reader_at (pre @ put x) [])"
  using get_put [of x pre "[]"] by simp

lemma put_prefix_free:
  assumes "valid x" "valid y" "length (put x @ r) < 2 ^ 64" "put x @ r = put y @ s"
  shows "x = y \<and> r = s"
proof -
  have "get (reader_at [] (put x @ r)) = Inr (x, reader_at (put x) r)"
    "get (reader_at [] (put x @ r)) = Inr (y, reader_at (put y) s)"
    using get_put [of x "[]" r] get_put [of y "[]" s] assms by simp_all
  then have "x = y" by simp
  with assms(4) show ?thesis by simp
qed

end

definition string_wire :: "string \<Rightarrow> bytes" where
  "string_wire s = be_bytes 2 (length s) @ s"

definition destination_wire :: "destination \<Rightarrow> bytes" where
  "destination_wire d =
     string_wire (namespace_as_str (dest_namespace d)) @ string_wire (name_as_str (dest_name d))"

definition pipe_wire :: "pipe_id \<Rightarrow> bytes" where
  "pipe_wire p = uuid_bytes (origin_session_id p) @ u64_bytes (pipe_connection_id p)"

text \<open>
  Every reader takes its bytes from the payload through one function; the SDK codec and the peer codec have
  one each, with their own error types. \<open>byte_source\<close> is what the field readers rely on there.
\<close>

locale byte_source =
  fixes tk :: "nat \<Rightarrow> string \<Rightarrow> payload_reader \<Rightarrow> 'e + (bytes \<times> payload_reader)"
  assumes take_at: "length xs = n \<Longrightarrow> length pre + length (xs @ rest) < 2 ^ 64 \<Longrightarrow>
      tk n field (reader_at pre (xs @ rest)) = Inr (xs, reader_at (pre @ xs) rest)"
    and take_inv: "tk n field (reader_at pre bs) = Inr (xs, r) \<Longrightarrow>
      \<exists>rest. bs = xs @ rest \<and> length xs = n \<and> r = reader_at (pre @ xs) rest"
begin

lemma fixed_field_codec:
  assumes enc: "\<And>x. valid x \<Longrightarrow> length (put x) = n \<and> conv (put x) = x"
    and dec: "\<And>bs. length bs = n \<Longrightarrow> valid (conv bs) \<and> put (conv bs) = bs"
    and get: "\<And>r. get r = and_then (tk n field r) (\<lambda>(bs, r). Inr (conv bs, r))"
  shows "field_codec put get valid"
proof
  show "get (reader_at pre (put x @ rest)) = Inr (x, reader_at (pre @ put x) rest)"
    if "valid x" "length pre + length (put x @ rest) < 2 ^ 64" for x pre rest
    using enc [OF that(1)] take_at [OF _ that(2), of n field] by (simp add: get)
next
  show "\<exists>rest. bs = put x @ rest \<and> valid x \<and> r = reader_at (pre @ put x) rest"
    if got: "get (reader_at pre bs) = Inr (x, r)" for pre bs x r
  proof -
    obtain xs where "tk n field (reader_at pre bs) = Inr (xs, r)" and x: "x = conv xs"
      using got by (auto simp: get and_then_Inr)
    then obtain rest where "bs = xs @ rest" "length xs = n" "r = reader_at (pre @ xs) rest"
      using take_inv by blast
    then show ?thesis using dec x by auto
  qed
qed

lemma u8_field_codec:
  assumes "\<And>r. get r = and_then (tk 1 field r) (\<lambda>(bs, r). Inr (be_val bs, r))"
  shows "field_codec (be_bytes 1) get (\<lambda>v. v < 256)"
proof (rule fixed_field_codec [OF _ _ assms])
  show "length (be_bytes 1 x) = 1 \<and> be_val (be_bytes 1 x) = x" if "x < 256" for x
    using that be_val_cong [of x 1] by simp
  show "be_val bs < 256 \<and> be_bytes 1 (be_val bs) = bs" if "length bs = 1" for bs
    using that be_val_less [of bs] be_bytes_be_val [OF that] by simp
qed

lemma u16_field_codec:
  assumes "\<And>r. get r = and_then (tk 2 field r) (\<lambda>(bs, r). Inr (be_val bs, r))"
  shows "field_codec (be_bytes 2) get (\<lambda>v. v < 65536)"
proof (rule fixed_field_codec [OF _ _ assms])
  show "length (be_bytes 2 x) = 2 \<and> be_val (be_bytes 2 x) = x" if "x < 65536" for x
    using that be_val_cong [of x 2] by simp
  show "be_val bs < 65536 \<and> be_bytes 2 (be_val bs) = bs" if "length bs = 2" for bs
    using that be_val_less [of bs] be_bytes_be_val [OF that] by simp
qed

lemma u64_field_codec:
  assumes "\<And>r. get r = and_then (tk 8 field r) (\<lambda>(bs, r). Inr (u64_of_bytes bs, r))"
  shows "field_codec u64_bytes get (\<lambda>_. True)"
  by (rule fixed_field_codec [OF _ _ assms]) (simp_all add: u64_bytes_of_bytes)

lemma uuid_field_codec:
  assumes "\<And>r. get r = and_then (tk 16 field r) (\<lambda>(bs, r). Inr (uuid_of_bytes bs, r))"
  shows "field_codec uuid_bytes get (\<lambda>_. True)"
  by (rule fixed_field_codec [OF _ _ assms]) (simp_all add: uuid_bytes_of_bytes)

lemma string_field_codec:
  assumes u16: "field_codec (be_bytes 2) get_len (\<lambda>v. v < 65536)"
    and get: "\<And>r. get r = and_then (get_len r) (\<lambda>(len, r). and_then (tk len field r) (\<lambda>(bs, r).
      if utf8_valid bs then Inr (bs, r) else Inl err))"
  shows "field_codec string_wire get (\<lambda>s. utf8_valid s \<and> length s < 65536)"
proof
  show "get (reader_at pre (string_wire x @ rest)) = Inr (x, reader_at (pre @ string_wire x) rest)"
    if "utf8_valid x \<and> length x < 65536" "length pre + length (string_wire x @ rest) < 2 ^ 64" for x pre rest
    using that field_codec.get_put [OF u16, of "length x" pre "x @ rest"]
      take_at [of x "length x" "pre @ be_bytes 2 (length x)" rest field]
    by (simp add: get string_wire_def)
next
  show "\<exists>rest. bs = string_wire x @ rest \<and> (utf8_valid x \<and> length x < 65536) \<and>
      r = reader_at (pre @ string_wire x) rest"
    if got: "get (reader_at pre bs) = Inr (x, r)" for pre bs x r
  proof -
    obtain n r1 where n: "get_len (reader_at pre bs) = Inr (n, r1)"
      and x: "tk n field r1 = Inr (x, r)" and utf8: "utf8_valid x"
      using got by (auto simp: get and_then_Inr split: if_splits)
    obtain rest where "bs = be_bytes 2 n @ rest" "n < 65536" "r1 = reader_at (pre @ be_bytes 2 n) rest"
      using field_codec.get_inv [OF u16 n] by blast
    then show ?thesis using x utf8 take_inv [of n field "pre @ be_bytes 2 n" rest x r] by (auto simp: string_wire_def)
  qed
qed

end

interpretation payload_source: byte_source read_take
  by unfold_locales (rule read_take_at read_take_inv; assumption)+

interpretation u8: field_codec "be_bytes 1" "read_u8 field" "\<lambda>v. v < 256"
  by (rule payload_source.u8_field_codec) (simp add: read_u8_def)

interpretation u16: field_codec "be_bytes 2" "read_u16 field" "\<lambda>v. v < 65536"
  by (rule payload_source.u16_field_codec) (simp add: read_u16_def)

interpretation wire_u64: field_codec u64_bytes "read_u64 field" "\<lambda>_. True"
  by (rule payload_source.u64_field_codec) (simp add: read_u64_def)

interpretation wire_uuid: field_codec uuid_bytes "read_uuid field" "\<lambda>_. True"
  by (rule payload_source.uuid_field_codec) (simp add: read_uuid_def)

interpretation wire_string: field_codec string_wire "read_string field" "\<lambda>s. utf8_valid s \<and> length s < 65536"
  by (rule payload_source.string_field_codec [OF u16.field_codec_axioms]) (simp add: read_string_def)

text \<open>A destination is two strings that pass its validation; an enumeration is one byte.\<close>

lemma destination_field_codec:
  assumes ns: "field_codec string_wire get_ns (\<lambda>s. utf8_valid s \<and> length s < 65536)"
    and n: "field_codec string_wire get_n (\<lambda>s. utf8_valid s \<and> length s < 65536)"
    and get: "\<And>r. get r = and_then (get_ns r) (\<lambda>(s, r). and_then (map_err e1 (namespace_new s)) (\<lambda>ns.
      and_then (get_n r) (\<lambda>(s, r). and_then (map_err e2 (destination_name_new s)) (\<lambda>n. Inr (destination_new ns n, r)))))"
  shows "field_codec destination_wire get destination_ok"
proof
  show "get (reader_at pre (destination_wire x @ rest)) = Inr (x, reader_at (pre @ destination_wire x) rest)"
    if ok: "destination_ok x" and small: "length pre + length (destination_wire x @ rest) < 2 ^ 64"
    for x pre rest
  proof -
    let ?ns = "namespace_as_str (dest_namespace x)" and ?n = "name_as_str (dest_name x)"
    have "utf8_valid ?ns \<and> length ?ns < 65536" "utf8_valid ?n \<and> length ?n < 65536"
      using ok namespace_ascii namespace_length name_ascii name_length
      by (fastforce simp: destination_ok_def intro: utf8_valid_ascii)+
    then show ?thesis
      using ok small field_codec.get_put [OF ns, of ?ns pre "string_wire ?n @ rest"]
        field_codec.get_put [OF n, of ?n "pre @ string_wire ?ns" rest]
      by (simp add: get destination_wire_def destination_ok_def namespace_ok_def name_ok_def destination_new_def)
  qed
next
  show "\<exists>rest. bs = destination_wire x @ rest \<and> destination_ok x \<and> r = reader_at (pre @ destination_wire x) rest"
    if got: "get (reader_at pre bs) = Inr (x, r)" for pre bs x r
  proof -
    obtain s r1 t where s: "get_ns (reader_at pre bs) = Inr (s, r1)"
      and ns_new: "namespace_new s = Inr (dest_namespace x)"
      and t: "get_n r1 = Inr (t, r)" and n_new: "destination_name_new t = Inr (dest_name x)"
      using got by (auto simp: get and_then_Inr map_err_Inr destination_new_def)
    obtain rest where "bs = string_wire s @ rest" "r1 = reader_at (pre @ string_wire s) rest"
      using field_codec.get_inv [OF ns s] by blast
    then show ?thesis
      using field_codec.get_inv [OF n, of "pre @ string_wire s" rest t r] t ns_new n_new
      by (auto simp: destination_wire_def destination_ok_def namespace_ok_def name_ok_def
          namespace_new_iff destination_name_new_iff)
  qed
qed

lemma enum_field_codec:
  assumes byte: "field_codec (be_bytes 1) get_byte (\<lambda>v. v < 256)"
    and less: "\<And>c. to_wire c < 256" and inverse: "\<And>v c. from_wire v = Some c \<longleftrightarrow> v = to_wire c"
    and get: "\<And>r. get r = and_then (get_byte r) (\<lambda>(v, r). case from_wire v of None \<Rightarrow> Inl (err v) | Some c \<Rightarrow> Inr (c, r))"
  shows "field_codec (\<lambda>c. be_bytes 1 (to_wire c)) get (\<lambda>_. True)"
proof
  show "get (reader_at pre (be_bytes 1 (to_wire x) @ rest)) = Inr (x, reader_at (pre @ be_bytes 1 (to_wire x)) rest)"
    if "length pre + length (be_bytes 1 (to_wire x) @ rest) < 2 ^ 64" for x pre rest
    using field_codec.get_put [OF byte less that] inverse [of "to_wire x" x] by (simp add: get)
next
  show "\<exists>rest. bs = be_bytes 1 (to_wire x) @ rest \<and> True \<and> r = reader_at (pre @ be_bytes 1 (to_wire x)) rest"
    if got: "get (reader_at pre bs) = Inr (x, r)" for pre bs x r
  proof -
    obtain v where "get_byte (reader_at pre bs) = Inr (v, r)" "v = to_wire x"
      using got by (auto simp: get and_then_Inr inverse split: option.splits)
    then show ?thesis using field_codec.get_inv [OF byte] by blast
  qed
qed

interpretation wire_destination: field_codec destination_wire read_destination destination_ok
  by (rule destination_field_codec [OF wire_string.field_codec_axioms wire_string.field_codec_axioms])
    (simp add: read_destination_def)

interpretation wire_token: field_codec "\<lambda>t. string_wire (expose_secret t)" read_access_token token_ok
proof
  show "read_access_token (reader_at pre (string_wire (expose_secret x) @ rest)) =
      Inr (x, reader_at (pre @ string_wire (expose_secret x)) rest)"
    if "token_ok x" "length pre + length (string_wire (expose_secret x) @ rest) < 2 ^ 64" for x pre rest
    using that u16.get_put [of "length (expose_secret x)" pre "expose_secret x @ rest" "''access_token''"]
      read_take_at [of "expose_secret x" "length (expose_secret x)"
        "pre @ be_bytes 2 (length (expose_secret x))" rest "''access_token''"]
    by (simp add: read_access_token_def string_wire_def token_ok_iff MAX_BEARER_TOKEN_BYTES_def
        bearer_token_new_def)
next
  show "\<exists>rest. bs = string_wire (expose_secret x) @ rest \<and> token_ok x \<and>
      r = reader_at (pre @ string_wire (expose_secret x)) rest"
    if got: "read_access_token (reader_at pre bs) = Inr (x, r)" for pre bs x r
  proof -
    obtain n r1 where n: "read_u16 ''access_token'' (reader_at pre bs) = Inr (n, r1)"
      and x: "read_take n ''access_token'' r1 = Inr (expose_secret x, r)" and "utf8_valid (expose_secret x)"
      and "length (expose_secret x) \<le> 4096"
      using got by (auto simp: read_access_token_def and_then_Inr bearer_token_new_Inr split: if_splits)
    moreover obtain rest where "bs = be_bytes 2 n @ rest" "r1 = reader_at (pre @ be_bytes 2 n) rest"
      using u16.get_inv [OF n] by blast
    ultimately show ?thesis
      using read_take_inv [of n "''access_token''" "pre @ be_bytes 2 n" rest "expose_secret x" r]
      by (auto simp: string_wire_def token_ok_iff)
  qed
qed

interpretation wire_pipe: field_codec pipe_wire read_pipe_id "\<lambda>_. True"
proof
  show "read_pipe_id (reader_at pre (pipe_wire x @ rest)) = Inr (x, reader_at (pre @ pipe_wire x) rest)"
    if "length pre + length (pipe_wire x @ rest) < 2 ^ 64" for x pre rest
    using that
      wire_uuid.get_put [where x = "origin_session_id x" and rest = "u64_bytes (pipe_connection_id x) @ rest"]
      wire_u64.get_put [where x = "pipe_connection_id x" and rest = rest]
    by (simp add: read_pipe_id_def read_session_id_def pipe_wire_def pipe_id_new_def)
next
  show "\<exists>rest. bs = pipe_wire x @ rest \<and> True \<and> r = reader_at (pre @ pipe_wire x) rest"
    if got: "read_pipe_id (reader_at pre bs) = Inr (x, r)" for pre bs x r
  proof -
    obtain s r1 c where s: "read_uuid ''session_id'' (reader_at pre bs) = Inr (s, r1)"
      and c: "read_u64 ''connection_id'' r1 = Inr (c, r)" and x: "x = pipe_id_new s c"
      using got by (auto simp: read_pipe_id_def read_session_id_def and_then_Inr)
    obtain rest where "bs = uuid_bytes s @ rest" "r1 = reader_at (pre @ uuid_bytes s) rest"
      using wire_uuid.get_inv [OF s] by blast
    then show ?thesis
      using wire_u64.get_inv [of "''connection_id''" "pre @ uuid_bytes s" rest c r] c x
      by (auto simp: pipe_wire_def pipe_id_new_def)
  qed
qed

interpretation wire_code: field_codec "\<lambda>c. be_bytes 1 (error_code_to_wire c)" read_error_code "\<lambda>_. True"
  by (rule enum_field_codec [OF u8.field_codec_axioms error_code_to_wire_less])
    (simp_all add: error_code_from_wire_Some read_error_code_def)

interpretation wire_observation:
  field_codec "\<lambda>c. be_bytes 1 (observation_to_wire c)" read_observation "\<lambda>_. True"
  by (rule enum_field_codec [OF u8.field_codec_axioms observation_to_wire_less])
    (simp_all add: observation_from_wire_Some read_observation_def)

end
