(* ===== verification/Codec_Correct.thy ===== *)
theory Codec_Correct
  imports Codec_Laws
begin

text \<open>
  Correctness of the frame codec: the encoder and the decoder both implement the wire grammar
  \<open>frame_kind\<close>/\<open>frame_wire\<close>, so they are inverse to each other on a stream of frames; an
  incomplete frame is left in the buffer; the decoder never asks for more than its limit.
\<close>

fun frame_kind :: "frame \<Rightarrow> nat" where
  "frame_kind FrameHello = 1"
| "frame_kind (FrameWelcome _) = 2"
| "frame_kind (FrameSessionRejected _ _) = 3"
| "frame_kind (FramePublish _ _ _) = 4"
| "frame_kind (FramePublished _ _) = 5"
| "frame_kind (FramePublishFailed _ _ _) = 6"
| "frame_kind (FrameUnpublish _ _) = 7"
| "frame_kind (FrameUnpublished _) = 8"
| "frame_kind (FrameDial _ _ _) = 9"
| "frame_kind (FrameOffer _ _ _) = 10"
| "frame_kind (FrameOfferAccepted _) = 11"
| "frame_kind (FrameOfferRejected _ _ _) = 12"
| "frame_kind (FrameOpened _) = 13"
| "frame_kind (FrameDialFailed _ _ _ _) = 14"
| "frame_kind (FrameData _ _) = 15"
| "frame_kind (FrameFin _) = 16"
| "frame_kind (FrameClose _) = 17"
| "frame_kind (FrameReset _ _ _) = 18"
| "frame_kind (FramePing _) = 19"
| "frame_kind (FramePong _) = 20"
| "frame_kind (FrameCancel _) = 21"

definition code_wire :: "error_code \<Rightarrow> bytes" where
  "code_wire c = be_bytes 1 (error_code_to_wire c)"

definition observation_wire :: "peer_observation \<Rightarrow> bytes" where
  "observation_wire ob = be_bytes 1 (observation_to_wire ob)"

fun frame_wire :: "frame \<Rightarrow> bytes" where
  "frame_wire FrameHello = []"
| "frame_wire (FrameWelcome s) = uuid_bytes s"
| "frame_wire (FrameSessionRejected c m) = code_wire c @ string_wire m"
| "frame_wire (FramePublish i d t) = u64_bytes i @ destination_wire d @ string_wire (expose_secret t)"
| "frame_wire (FramePublished i b) = u64_bytes i @ uuid_bytes b"
| "frame_wire (FramePublishFailed i c m) = u64_bytes i @ code_wire c @ string_wire m"
| "frame_wire (FrameUnpublish i b) = u64_bytes i @ uuid_bytes b"
| "frame_wire (FrameUnpublished i) = u64_bytes i"
| "frame_wire (FrameDial i d t) = u64_bytes i @ destination_wire d @ string_wire (expose_secret t)"
| "frame_wire (FrameOffer p b d) = pipe_wire p @ uuid_bytes b @ destination_wire d"
| "frame_wire (FrameOfferAccepted p) = pipe_wire p"
| "frame_wire (FrameOfferRejected p c m) = pipe_wire p @ code_wire c @ string_wire m"
| "frame_wire (FrameOpened p) = pipe_wire p"
| "frame_wire (FrameDialFailed i c ob m) =
     u64_bytes i @ code_wire c @ observation_wire ob @ string_wire m"
| "frame_wire (FrameData p pl) = pipe_wire p @ pl"
| "frame_wire (FrameFin p) = pipe_wire p"
| "frame_wire (FrameClose p) = pipe_wire p"
| "frame_wire (FrameReset p c m) = pipe_wire p @ code_wire c @ string_wire m"
| "frame_wire (FramePing n) = u64_bytes n"
| "frame_wire (FramePong n) = u64_bytes n"
| "frame_wire (FrameCancel p) = pipe_wire p"

text \<open>The one size limit a well-typed frame can break: the 16-bit length of its message.\<close>

fun frame_message :: "frame \<Rightarrow> string" where
  "frame_message (FrameSessionRejected c m) = m"
| "frame_message (FramePublishFailed i c m) = m"
| "frame_message (FrameOfferRejected p c m) = m"
| "frame_message (FrameDialFailed i c ob m) = m"
| "frame_message (FrameReset p c m) = m"
| "frame_message _ = []"

definition frame_fits :: "nat \<Rightarrow> frame \<Rightarrow> bool" where
  "frame_fits max_frame_len f \<longleftrightarrow> length (frame_message f) < 65536 \<and>
     length (frame_wire f) \<le> max_frame_len \<and> length (frame_wire f) < 2 ^ 32"

definition frame_bytes :: "frame \<Rightarrow> bytes" where
  "frame_bytes f = ''RG'' @ [char_of (3::nat), char_of (frame_kind f)] @
     be_bytes 4 (length (frame_wire f)) @ frame_wire f"

section \<open>The encoder implements the grammar\<close>

lemma put_string_ok: "length v < 65536 \<Longrightarrow> put_string field v buf = Inr (buf @ string_wire v)"
  by (simp add: put_string_def MAX_STRING_LEN_def string_wire_def)

lemma put_string_too_long: "\<not> length v < 65536 \<Longrightarrow> put_string field v buf = Inl (FieldTooLong field (length v) 65535)"
  by (simp add: put_string_def MAX_STRING_LEN_def)

lemma put_destination_ok:
  assumes "destination_ok d"
  shows "put_destination d buf = Inr (buf @ destination_wire d)"
proof -
  have "length (namespace_as_str (dest_namespace d)) < 65536" "length (name_as_str (dest_name d)) < 65536"
    using assms namespace_length name_length by (fastforce simp: destination_ok_def)+
  then show ?thesis by (simp add: put_destination_def put_string_ok destination_wire_def)
qed

lemma put_pipe_wire: "put_pipe_id p buf = buf @ pipe_wire p"
  by (simp add: put_pipe_id_def put_u64_def put_session_id_def pipe_wire_def)

lemma length_pipe_wire [simp]: "length (pipe_wire p) = 24"
  by (simp add: pipe_wire_def)

lemmas put_simps = code_wire_def observation_wire_def put_u8_def put_u64_def put_session_id_def put_binding_id_def put_pipe_wire

lemma encode_payload_ok:
  assumes "frame_ok f"
  shows "encode_payload f buf =
    (if length (frame_message f) < 65536 then Inr (frame_kind f, buf @ frame_wire f)
     else Inl (FieldTooLong ''message'' (length (frame_message f)) 65535))"
proof (cases f)
  case (FramePublish i d t)
  then have "length (expose_secret t) < 65536" "destination_ok d" using assms by (auto simp: token_ok_iff)
  then show ?thesis using FramePublish by (simp add: put_simps put_destination_ok put_string_ok)
next
  case (FrameDial i d t)
  then have "length (expose_secret t) < 65536" "destination_ok d" using assms by (auto simp: token_ok_iff)
  then show ?thesis using FrameDial by (simp add: put_simps put_destination_ok put_string_ok)
next
  case (FrameOffer p b d)
  then show ?thesis using assms by (simp add: put_simps put_destination_ok)
qed (simp_all add: put_simps put_string_ok put_string_too_long)

lemma header_bytes: "put_u8 k (put_u8 VERSION (buf @ MAGIC)) = buf @ ''RG'' @ [char_of (3::nat), char_of (k mod 256)]"
  by (simp add: put_u8_def VERSION_def MAGIC_def)

lemma frame_kind_less: "frame_kind f mod 256 = frame_kind f"
  by (cases f) simp_all

lemma encode_framed_ok:
  assumes "frame_ok f"
  shows "encode_framed max_frame_len f buf = Inr out \<longleftrightarrow> frame_fits max_frame_len f \<and> out = buf @ frame_bytes f"
  using encode_payload_ok [OF assms, of "[]"]
  by (auto simp: encode_framed_def header_bytes frame_kind_less frame_bytes_def frame_fits_def and_then_Inr)

text \<open>
  C26. The copy-free \<open>DATA\<close> path of the encoder produces exactly what the general path produces,
  success or error, whenever the output buffer stays addressable.
\<close>
theorem encode_data_equivalent:
  assumes "length buf + HEADER_LEN + PIPE_ID_WIRE_LEN + length pl < 2 ^ 64"
  shows "encode_data max_frame_len p pl buf = encode_framed max_frame_len (FrameData p pl) buf"
  using assms
  by (simp add: encode_data_def encode_framed_def usize_checked_add_def PIPE_ID_WIRE_LEN_def HEADER_LEN_def
      put_pipe_wire)

theorem encode_data_equivalent_witness:
  "encode_data 64 (pipe_id_new 7 9) ''hi'' ''x'' = encode_framed 64 (FrameData (pipe_id_new 7 9) ''hi'') ''x''"
  by (rule encode_data_equivalent) (simp add: HEADER_LEN_def PIPE_ID_WIRE_LEN_def)

lemma encode_ok:
  assumes "frame_ok f" and "length buf + length (frame_bytes f) < 2 ^ 64"
  shows "encode max_frame_len f buf = Inr out \<longleftrightarrow> frame_fits max_frame_len f \<and> out = buf @ frame_bytes f"
proof (cases "\<exists>p pl. f = FrameData p pl")
  case True
  then obtain p pl where f: "f = FrameData p pl" by blast
  have "encode max_frame_len f buf = encode_framed max_frame_len f buf"
    using assms(2)
    by (simp add: f encode_data_def encode_framed_def usize_checked_add_def PIPE_ID_WIRE_LEN_def
        HEADER_LEN_def put_pipe_wire frame_bytes_def)
  then show ?thesis using encode_framed_ok [OF assms(1)] by simp
next
  case False
  then have "encode max_frame_len f buf = encode_framed max_frame_len f buf" by (cases f) auto
  then show ?thesis using encode_framed_ok [OF assms(1)] by simp
qed

section \<open>The decoder implements the grammar\<close>

lemmas field_reads =
  wire_u64.get_put wire_u64.get_last wire_uuid.get_put wire_uuid.get_last
  wire_string.get_put wire_string.get_last wire_destination.get_put wire_destination.get_last
  wire_token.get_put wire_token.get_last wire_pipe.get_put wire_pipe.get_last
  wire_code.get_put [folded code_wire_def] wire_code.get_last [folded code_wire_def]
  wire_observation.get_put [folded observation_wire_def]
  wire_observation.get_last [folded observation_wire_def]

lemmas field_read_inv =
  wire_u64.get_inv wire_uuid.get_inv wire_string.get_inv wire_destination.get_inv wire_token.get_inv
  wire_pipe.get_inv wire_code.get_inv [folded code_wire_def]
  wire_observation.get_inv [folded observation_wire_def]

lemma length_code_wire [simp]: "length (code_wire c) = 1" "length (observation_wire ob) = 1"
  by (simp_all add: code_wire_def observation_wire_def)

lemma decode_body_wire:
  assumes "frame_ok f" "length (frame_message f) < 65536" "length (frame_wire f) < 2 ^ 32"
  shows "decode_body (frame_kind f) (reader_at [] (frame_wire f)) =
           Inr (f, reader_at (frame_wire f) [])"
  using assms
  by (cases f) (simp_all add: decode_body_def read_session_id_def read_binding_id_def field_reads
      read_remaining_at)

lemma decode_body_inv:
  assumes "decode_body kind (reader_at [] bs) = Inr (f, r)"
  shows "frame_ok f \<and> length (frame_message f) < 65536 \<and> kind = frame_kind f \<and>
         (\<exists>rest. bs = frame_wire f @ rest \<and> r = reader_at (frame_wire f) rest)"
  using assms
  by (auto simp: decode_body_def and_then_Inr read_session_id_def read_binding_id_def
      read_remaining_at dest!: field_read_inv split: if_splits)

lemma decode_payload_iff:
  assumes "length bs < 2 ^ 32"
  shows "decode_payload kind bs = Inr f \<longleftrightarrow>
    frame_ok f \<and> length (frame_message f) < 65536 \<and> kind = frame_kind f \<and> bs = frame_wire f"
    (is "_ \<longleftrightarrow> ?R")
proof
  assume "decode_payload kind bs = Inr f"
  then obtain r where "decode_body kind (reader_at [] bs) = Inr (f, r)" "read_finish r = Inr ()"
    by (auto simp: decode_payload_def reader_new_at and_then_Inr)
  then show ?R using decode_body_inv [of kind bs f r] by (auto simp: read_finish_at)
next
  assume ?R
  then show "decode_payload kind bs = Inr f"
    using assms decode_body_wire [of f]
    by (simp add: decode_payload_def reader_new_at read_finish_at [THEN iffD2])
qed

section \<open>Frames in a byte stream\<close>

definition header_bytes_of :: "nat \<Rightarrow> nat \<Rightarrow> bytes" where
  "header_bytes_of kind len = ''RG'' @ [char_of (3::nat), char_of kind] @ be_bytes 4 len"

lemma frame_bytes_header: "frame_bytes f = header_bytes_of (frame_kind f) (length (frame_wire f)) @ frame_wire f"
  by (simp add: frame_bytes_def header_bytes_of_def)

lemma length_header_bytes_of [simp]: "length (header_bytes_of k n) = 8"
  by (simp add: header_bytes_of_def)

lemma list_of_4:
  assumes "length xs = 4"
  shows "xs = [xs ! 0, xs ! 1, xs ! 2, xs ! 3]"
  using assms by (auto simp: length_Suc_conv numeral_eq_Suc)

lemma decode_after_header:
  assumes "k < 256" "n < 2 ^ 32"
  shows "decode max_frame_len (header_bytes_of k n @ body) =
    (if n > max_frame_len then (Inl (FrameTooLarge n max_frame_len), header_bytes_of k n @ body)
     else if length body < n then (Inr None, header_bytes_of k n @ body)
     else (and_then (decode_payload k (take n body)) (\<lambda>f. Inr (Some f)), drop n body))"
proof -
  let ?src = "header_bytes_of k n @ body" and ?l = "be_bytes 4 n"
  obtain a b c d where l: "?l = [a, b, c, d]" using list_of_4 [of ?l] by simp
  have nth: "?src ! 2 = char_of (3::nat)" "?src ! 3 = char_of k"
    "[?src ! 4, ?src ! 5, ?src ! 6, ?src ! 7] = ?l" "take 2 (header_bytes_of k n) = MAGIC"
    by (simp_all add: header_bytes_of_def l MAGIC_def)
  have "be_val ?l = n" using assms be_val_cong [of n 4] by simp
  then show ?thesis using assms
    by (simp add: decode_def nth HEADER_LEN_def VERSION_def Let_def)
qed

lemma frame_kind_byte: "frame_kind f < 256"
  by (cases f) simp_all

lemma decode_frame_bytes:
  assumes "frame_ok f" "frame_fits max_frame_len f"
  shows "decode max_frame_len (frame_bytes f @ rest) = (Inr (Some f), rest)"
proof -
  have "decode_payload (frame_kind f) (frame_wire f) = Inr f"
    using assms by (simp add: decode_payload_iff frame_fits_def)
  then show ?thesis
    using assms decode_after_header [OF frame_kind_byte, of "length (frame_wire f)" max_frame_len f "frame_wire f @ rest"]
    by (simp add: frame_bytes_header frame_fits_def)
qed

lemma decode_frame_prefix:
  assumes "frame_fits max_frame_len f" "n < length (frame_bytes f)"
  shows "decode max_frame_len (take n (frame_bytes f)) = (Inr None, take n (frame_bytes f))"
proof (cases "n < 8")
  case True
  then show ?thesis by (simp add: decode_def HEADER_LEN_def min_less_iff_disj)
next
  case False
  then have "n - 8 < length (frame_wire f)" using assms by (simp add: frame_bytes_header)
  then show ?thesis
    using assms False decode_after_header [OF frame_kind_byte, of "length (frame_wire f)" max_frame_len f "take (n - 8) (frame_wire f)"]
    by (simp add: frame_bytes_header frame_fits_def)
qed

lemma encode_Inr:
  assumes "frame_ok f" "encode max_frame_len f buf = Inr out"
  shows "frame_fits max_frame_len f \<and> out = buf @ frame_bytes f"
proof -
  have "encode_framed max_frame_len f buf = Inr out"
  proof (cases f)
    case (FrameData p pl)
    then show ?thesis using assms(2)
      by (auto simp: encode_data_def encode_framed_def usize_checked_add_def PIPE_ID_WIRE_LEN_def
          HEADER_LEN_def put_pipe_wire split: if_splits option.splits)
  qed (use assms(2) in simp_all)
  then show ?thesis using encode_framed_ok [OF assms(1)] by simp
qed

lemma list_of_8:
  assumes "8 \<le> length xs"
  obtains a b c d e f g h ys where "xs = [a, b, c, d, e, f, g, h] @ ys"
proof -
  have "length (take 8 xs) = 8" using assms by simp
  then obtain a b c d e f g h where "take 8 xs = [a, b, c, d, e, f, g, h]"
    by (auto simp: length_Suc_conv numeral_eq_Suc simp del: length_take take_Suc take_Suc_Cons)
  then have "xs = [a, b, c, d, e, f, g, h] @ drop 8 xs"
    using append_take_drop_id [of 8 xs] by simp
  then show thesis by (rule that)
qed

lemma decode_Some:
  assumes got: "decode max_frame_len src = (Inr (Some f), rest)"
  shows "frame_ok f \<and> frame_fits max_frame_len f \<and> src = frame_bytes f @ rest"
proof -
  have "8 \<le> length src" using got by (auto simp: decode_def HEADER_LEN_def split: if_splits)
  then obtain a b c d e1 e2 e3 e4 body where src: "src = [a, b, c, d, e1, e2, e3, e4] @ body"
    by (rule list_of_8)
  let ?l = "[e1, e2, e3, e4]"
  let ?n = "be_val ?l" and ?k = "of_char d :: nat"
  have l: "be_bytes 4 ?n = ?l" "?n < 2 ^ 32"
    using be_bytes_be_val [of ?l 4] be_val_less [of ?l] by simp_all
  have "[a, b] = MAGIC" "of_char c = VERSION"
    using got by (auto simp: decode_def src HEADER_LEN_def Let_def split: if_splits)
  then have "[a, b] = ''RG''" and "char_of (3::nat) = c"
    by (auto simp: MAGIC_def VERSION_def) (metis char_of_char)
  then have header: "src = header_bytes_of ?k ?n @ body"
    using l by (simp add: src header_bytes_of_def)
  have n: "?n \<le> max_frame_len"
    and "decode_payload ?k (take ?n body) = Inr f" "rest = drop ?n body" "?n \<le> length body"
    using got decode_after_header [OF _ l(2), of ?k max_frame_len body]
    unfolding header by (auto simp: and_then_Inr split: if_splits)
  moreover from this have f: "frame_ok f \<and> length (frame_message f) < 65536 \<and> ?k = frame_kind f \<and> take ?n body = frame_wire f"
    using l(2) decode_payload_iff [of "take ?n body" ?k f] by simp
  ultimately have "length (frame_wire f) = ?n" and "body = frame_wire f @ rest"
    using append_take_drop_id [of ?n body] length_take [of ?n body] by auto
  then show ?thesis
    using f header l(2) n by (simp add: frame_fits_def frame_bytes_header)
qed

text \<open>
  C1. Encode/decode round trip on a stream. A successfully encoded frame, followed by any further
  bytes, decodes to exactly that frame and leaves exactly those bytes; every strict prefix of it
  is recognised as incomplete and left in the buffer. So the frames a peer receives do not depend
  on how the transport cuts the stream.
\<close>
theorem frame_roundtrip:
  assumes "frame_ok f" and "encode max_frame_len f buf = Inr (buf @ w)"
  shows "decode max_frame_len (w @ rest) = (Inr (Some f), rest) \<and>
    (\<forall>n < length w. decode max_frame_len (take n w) = (Inr None, take n w))"
proof -
  have fits: "frame_fits max_frame_len f" and w: "w = frame_bytes f"
    using encode_Inr [OF assms] by simp_all
  show ?thesis
    unfolding w using decode_frame_bytes [OF assms(1) fits] decode_frame_prefix [OF fits] by blast
qed

theorem frame_roundtrip_witness:
  "decode 64 (''RG'' @ map char_of [3, 19, 0, 0, 0, 8, 0, 0, 0, 0, 0, 0, 1, 2 :: nat] @ ''tail'') =
     (Inr (Some (FramePing 258)), ''tail'') \<and>
   decode 64 (''RG'' @ map char_of [3, 19, 0, 0, 0 :: nat]) = (Inr None, ''RG'' @ map char_of [3, 19, 0, 0, 0 :: nat])"
proof -
  let ?w = "''RG'' @ map char_of [3, 19, 0, 0, 0, 8, 0, 0, 0, 0, 0, 0, 1, 2 :: nat]"
  have "encode 64 (FramePing 258) [] = Inr ([] @ ?w)"
    by (simp add: encode_framed_def put_simps VERSION_def MAGIC_def u64_bytes_def be_bytes_numeral)
  then show ?thesis
    using frame_roundtrip [of "FramePing 258" 64 "[]" ?w "''tail''"] by (auto dest: spec [of _ 7])
qed

text \<open>
  C16. The wire format is canonical: whatever the decoder accepts is a well-formed frame (valid
  destinations, bounded UTF-8 fields, a bearer token within its limit), and the bytes it consumed
  are the ones the encoder produces for that frame.
\<close>
theorem decode_canonical:
  assumes "decode max_frame_len src = (Inr (Some f), rest)"
  shows "frame_ok f \<and> (\<exists>w. encode max_frame_len f [] = Inr w \<and> src = w @ rest)"
proof -
  have f: "frame_ok f" "frame_fits max_frame_len f" and src: "src = frame_bytes f @ rest"
    using decode_Some [OF assms] by simp_all
  then have "encode max_frame_len f [] = Inr (frame_bytes f)"
    using encode_ok [OF f(1), of "[]"] by (simp add: frame_fits_def frame_bytes_header)
  then show ?thesis using f(1) src by blast
qed

theorem decode_canonical_witness:
  "encode 64 (FramePong 1) [] = Inr (''RG'' @ map char_of [3, 20, 0, 0, 0, 8, 0, 0, 0, 0, 0, 0, 0, 1 :: nat])"
proof -
  let ?w = "''RG'' @ map char_of [3, 20, 0, 0, 0, 8, 0, 0, 0, 0, 0, 0, 0, 1 :: nat]"
  have "?w = frame_bytes (FramePong 1)" by (simp add: frame_bytes_def u64_bytes_def be_bytes_numeral)
  then have "decode 64 (?w @ ''x'') = (Inr (Some (FramePong 1)), ''x'')"
    by (simp add: decode_frame_bytes frame_fits_def)
  then show ?thesis using decode_canonical [of 64 "?w @ ''x''" "FramePong 1" "''x''"] by auto
qed



end
