(* ===== verification/Route_Model.thy ===== *)
theory Route_Model
  imports Destination "HOL-Library.Product_Lexorder"
begin

text \<open>
  The data of the RouteTable (\<open>relaygate-route-table/src\<close>: \<open>error.rs\<close>, \<open>identity.rs\<close>, \<open>model.rs\<close>,
  \<open>directory.rs\<close>): registration keys and binding identities with their derived orders, validated
  snapshots and resolve results, acknowledgements, the hexadecimal form of a directory generation
  and the shard directory with its authority function. The JSON parser and SHA-256 are libraries:
  they are parameters of \<open>from_json_bytes\<close> and \<open>authority\<close>.
\<close>

datatype route_table_error =
    RouteInvalidArgument string
  | RoutePermissionDenied
  | RouteNotFound
  | RouteFailedPrecondition string
  | RouteDeadlineOverflow

type_synonym gateway_id = uuid
type_synonym relay_session_id = uuid
type_synonym lease_id = uuid
type_synonym shard_id = string
type_synonym gateway_locator = string
type_synonym generation = bytes
type_synonym registration_revision = u64

section \<open>Identities\<close>

definition non_empty_string_id :: "string \<Rightarrow> string \<Rightarrow> route_table_error + string" where
  "non_empty_string_id label value =
     (if value = [] then Inl (RouteInvalidArgument (label @ '' must not be empty'')) else Inr value)"

definition shard_id_new :: "string \<Rightarrow> route_table_error + shard_id" where
  "shard_id_new = non_empty_string_id ''ShardId''"

definition shard_endpoint_new :: "string \<Rightarrow> route_table_error + string" where
  "shard_endpoint_new = non_empty_string_id ''ShardEndpoint''"

definition gateway_locator_new :: "string \<Rightarrow> route_table_error + gateway_locator" where
  "gateway_locator_new = non_empty_string_id ''GatewayLocator''"

definition registration_revision_new :: "u64 \<Rightarrow> route_table_error + registration_revision" where
  "registration_revision_new v =
     (if v = 0 then Inl (RouteInvalidArgument ''RegistrationRevision must be greater than zero'')
      else Inr v)"

definition REVISION_FIRST :: registration_revision where "REVISION_FIRST = 1"

datatype registration_key =
  RegistrationKey (key_gateway_id: gateway_id) (key_session_id: relay_session_id) (key_shard_id: shard_id)

datatype binding_identity =
  BindingIdentity (identity_gateway_id: gateway_id) (identity_session_id: relay_session_id)
    (identity_binding_id: uuid)

datatype expiry_key = ExpiryKey (expiry_registration_key: registration_key) (expiry_lease_id: lease_id)

text \<open>The orders Rust derives for them: field by field, in declaration order.\<close>

instantiation registration_key :: linorder
begin

fun key_fields :: "registration_key \<Rightarrow> uuid \<times> uuid \<times> string" where
  "key_fields (RegistrationKey g s i) = (g, s, i)"

definition less_eq_registration_key :: "registration_key \<Rightarrow> registration_key \<Rightarrow> bool" where
  "a \<le> b \<longleftrightarrow> key_fields a \<le> key_fields b"

definition less_registration_key :: "registration_key \<Rightarrow> registration_key \<Rightarrow> bool" where
  "a < b \<longleftrightarrow> key_fields a < key_fields b"

instance
proof
  fix a b :: registration_key
  show "a \<le> b \<Longrightarrow> b \<le> a \<Longrightarrow> a = b"
    by (cases a; cases b) (auto simp: less_eq_registration_key_def)
qed (auto simp: less_eq_registration_key_def less_registration_key_def)

end

instantiation binding_identity :: linorder
begin

fun identity_fields :: "binding_identity \<Rightarrow> uuid \<times> uuid \<times> uuid" where
  "identity_fields (BindingIdentity g s b) = (g, s, b)"

definition less_eq_binding_identity :: "binding_identity \<Rightarrow> binding_identity \<Rightarrow> bool" where
  "a \<le> b \<longleftrightarrow> identity_fields a \<le> identity_fields b"

definition less_binding_identity :: "binding_identity \<Rightarrow> binding_identity \<Rightarrow> bool" where
  "a < b \<longleftrightarrow> identity_fields a < identity_fields b"

instance
proof
  fix a b :: binding_identity
  show "a \<le> b \<Longrightarrow> b \<le> a \<Longrightarrow> a = b"
    by (cases a; cases b) (auto simp: less_eq_binding_identity_def)
qed (auto simp: less_eq_binding_identity_def less_binding_identity_def)

end

instantiation expiry_key :: linorder
begin

fun expiry_fields :: "expiry_key \<Rightarrow> registration_key \<times> uuid" where
  "expiry_fields (ExpiryKey k l) = (k, l)"

definition less_eq_expiry_key :: "expiry_key \<Rightarrow> expiry_key \<Rightarrow> bool" where
  "a \<le> b \<longleftrightarrow> expiry_fields a \<le> expiry_fields b"

definition less_expiry_key :: "expiry_key \<Rightarrow> expiry_key \<Rightarrow> bool" where
  "a < b \<longleftrightarrow> expiry_fields a < expiry_fields b"

instance
proof
  fix a b :: expiry_key
  show "a \<le> b \<Longrightarrow> b \<le> a \<Longrightarrow> a = b"
    by (cases a; cases b) (auto simp: less_eq_expiry_key_def)
qed (auto simp: less_eq_expiry_key_def less_expiry_key_def)

end

section \<open>Bindings, snapshots and acknowledgements\<close>

record binding_projection =
  projection_destination :: destination
  projection_identity :: binding_identity
  projection_locator :: gateway_locator

definition binding_projection_new ::
  "destination \<Rightarrow> gateway_id \<Rightarrow> relay_session_id \<Rightarrow> uuid \<Rightarrow> gateway_locator \<Rightarrow> binding_projection" where
  "binding_projection_new d g s b l =
     \<lparr>projection_destination = d, projection_identity = BindingIdentity g s b, projection_locator = l\<rparr>"

type_synonym binding_map = "(binding_identity, binding_projection) btreemap"

type_synonym session_destination = "gateway_id \<times> relay_session_id \<times> destination"

definition projection_scope :: "binding_projection \<Rightarrow> session_destination" where
  "projection_scope e = (identity_gateway_id (projection_identity e),
     identity_session_id (projection_identity e), projection_destination e)"

fun snapshot_collect ::
  "binding_projection list \<Rightarrow> session_destination list \<Rightarrow> binding_map \<Rightarrow> route_table_error + binding_map" where
  "snapshot_collect [] scopes by_identity = Inr by_identity"
| "snapshot_collect (e # es) scopes by_identity =
     (if projection_scope e \<in> set scopes
      then Inl (RouteInvalidArgument ''snapshot contains duplicate Destination scope for one RelaySession'')
      else if hm_contains by_identity (projection_identity e)
      then Inl (RouteInvalidArgument ''snapshot contains a duplicate BindingIdentity'')
      else snapshot_collect es (projection_scope e # scopes)
             (bt_insert (projection_identity e) e by_identity))"

definition binding_snapshot_new :: "binding_projection list \<Rightarrow> route_table_error + binding_map" where
  "binding_snapshot_new entries =
     (case snapshot_collect entries [] [] of
        Inl e \<Rightarrow> Inl e
      | Inr by_identity \<Rightarrow>
          if by_identity = []
          then Inl (RouteInvalidArgument ''Update snapshot must contain at least one binding'')
          else Inr by_identity)"

fun binding_set_check ::
  "destination \<Rightarrow> binding_projection list \<Rightarrow> binding_identity list \<Rightarrow> route_table_error + unit" where
  "binding_set_check d [] seen = Inr ()"
| "binding_set_check d (e # es) seen =
     (if projection_destination e \<noteq> d
      then Inl (RouteInvalidArgument ''BindingSet bindings must share one Destination'')
      else if projection_identity e \<in> set seen
      then Inl (RouteInvalidArgument ''BindingSet contains a duplicate BindingIdentity'')
      else binding_set_check d es (projection_identity e # seen))"

definition binding_set_from_entries ::
  "binding_projection list \<Rightarrow> route_table_error + binding_projection list" where
  "binding_set_from_entries entries =
     (case entries of
        [] \<Rightarrow> Inl (RouteInvalidArgument ''BindingSet must contain at least one binding'')
      | e # _ \<Rightarrow> (case binding_set_check (projection_destination e) entries [] of
                    Inl err \<Rightarrow> Inl err | Inr _ \<Rightarrow> Inr entries))"

record registration_ack =
  ack_lease_id :: lease_id
  ack_revision :: "registration_revision option"
  ack_expires_in :: duration

definition registration_ack_new ::
  "lease_id \<Rightarrow> registration_revision option \<Rightarrow> duration \<Rightarrow> registration_ack" where
  "registration_ack_new l r d = \<lparr>ack_lease_id = l, ack_revision = r, ack_expires_in = d\<rparr>"

record route_table_stats =
  stats_registration_count :: nat
  stats_binding_count :: nat
  stats_destination_count :: nat
  stats_expiry_record_count :: nat

text \<open>What \<open>BindingSnapshot::new\<close> accepts, and what it makes of it.\<close>

definition snapshot_ok :: "binding_map \<Rightarrow> bool" where
  "snapshot_ok m \<longleftrightarrow> m \<noteq> [] \<and> bt_ok m \<and> (\<forall>(i, e) \<in> set m. projection_identity e = i) \<and>
     inj_on projection_scope (snd ` set m)"

lemma snapshot_collect_iff:
  "snapshot_collect es scopes acc = Inr m \<longleftrightarrow>
     distinct (map projection_scope es) \<and> set (map projection_scope es) \<inter> set scopes = {} \<and>
     distinct (map projection_identity es) \<and>
     projection_identity ` set es \<inter> fst ` set acc = {} \<and>
     m = fold (\<lambda>e. bt_insert (projection_identity e) e) es acc"
  by (induction es scopes acc rule: snapshot_collect.induct)
    (auto simp: set_fst_bt_insert domIff map_of_eq_None_iff)

lemma fold_bt_insert_fresh:
  assumes "distinct (map projection_identity es)" "projection_identity ` set es \<inter> fst ` set acc = {}" "bt_ok acc"
  shows "bt_ok (fold (\<lambda>e. bt_insert (projection_identity e) e) es acc) \<and>
    set (fold (\<lambda>e. bt_insert (projection_identity e) e) es acc) =
      (\<lambda>e. (projection_identity e, e)) ` set es \<union> set acc"
  using assms
proof (induction es arbitrary: acc)
  case (Cons e es)
  have "set (bt_insert (projection_identity e) e acc) = insert (projection_identity e, e) (set acc)"
    using Cons.prems(2) by (intro set_bt_insert_fresh) auto
  then show ?case
    using Cons.IH [of "bt_insert (projection_identity e) e acc"] Cons.prems
    by (auto simp: bt_ok_insert set_fst_bt_insert)
qed simp

lemma snapshot_ok_new:
  assumes "binding_snapshot_new es = Inr m"
  shows "snapshot_ok m" and "set m = (\<lambda>e. (projection_identity e, e)) ` set es"
proof -
  have m: "snapshot_collect es [] [] = Inr m" "m \<noteq> []"
    using assms by (auto simp: binding_snapshot_new_def split: sum.splits if_splits)
  then have d: "distinct (map projection_scope es)" "distinct (map projection_identity es)"
    and "m = fold (\<lambda>e. bt_insert (projection_identity e) e) es []"
    by (simp_all add: snapshot_collect_iff)
  then have ok: "bt_ok m" and set: "set m = (\<lambda>e. (projection_identity e, e)) ` set es"
    using fold_bt_insert_fresh [OF d(2), of "[]"] by (simp_all add: bt_ok_Nil)
  show "set m = (\<lambda>e. (projection_identity e, e)) ` set es" by (rule set)
  have "snd ` set m = set es" by (force simp: set)
  then show "snapshot_ok m"
    using m(2) ok set d(1) by (auto simp: snapshot_ok_def distinct_map)
qed

text \<open>
  C28. Snapshot validation is exact. A list of bindings becomes a snapshot precisely when it is
  not empty and repeats neither a binding identity nor a destination within one relay session;
  the snapshot then holds exactly those bindings, keyed by their own identities.
\<close>
theorem binding_snapshot_exact:
  "binding_snapshot_new es = Inr m \<longleftrightarrow>
     es \<noteq> [] \<and> distinct (map projection_identity es) \<and> distinct (map projection_scope es) \<and>
     bt_ok m \<and> set m = (\<lambda>e. (projection_identity e, e)) ` set es"
  (is "?L \<longleftrightarrow> ?R")
proof
  assume L: ?L
  then have "snapshot_collect es [] [] = Inr m" "m \<noteq> []"
    by (auto simp: binding_snapshot_new_def split: sum.splits if_splits)
  then show ?R using snapshot_ok_new [OF L] by (auto simp: snapshot_collect_iff snapshot_ok_def)
next
  assume R: ?R
  define n where "n = fold (\<lambda>e. bt_insert (projection_identity e) e) es []"
  have n: "snapshot_collect es [] [] = Inr n" using R by (simp add: snapshot_collect_iff n_def)
  have "bt_ok n" "set n = set m"
    using R fold_bt_insert_fresh [of es "[]"] by (simp_all add: n_def bt_ok_Nil)
  moreover from this have "n = m" using R by (auto intro: bt_ok_unique)
  moreover have "m \<noteq> []" using R by auto
  ultimately show ?L using n by (simp add: binding_snapshot_new_def)
qed

section \<open>The directory generation and its hexadecimal form\<close>

definition hex_digit :: "nat \<Rightarrow> char" where
  "hex_digit n = (if n < 10 then char_of (48 + n) else char_of (87 + n))"

definition is_ascii_hexdigit :: "char \<Rightarrow> bool" where
  "is_ascii_hexdigit c \<longleftrightarrow> in_range 48 57 c \<or> in_range 97 102 c \<or> in_range 65 70 c"

definition hex_value :: "char \<Rightarrow> nat option" where
  "hex_value c =
     (if in_range 48 57 c then Some (of_char c - 48)
      else if in_range 97 102 c then Some (of_char c - 87)
      else if in_range 65 70 c then Some (of_char c - 55) else None)"

fun hex_digits :: "nat \<Rightarrow> string \<Rightarrow> nat option" where
  "hex_digits acc [] = Some acc"
| "hex_digits acc (c # cs) =
     (case hex_value c of
        None \<Rightarrow> None
      | Some v \<Rightarrow> if acc * 16 + v < 256 then hex_digits (acc * 16 + v) cs else None)"

text \<open>\<open>u8::from_str_radix(_, 16)\<close>: an optional sign, then at least one digit, within a byte.\<close>

definition u8_from_str_radix16 :: "string \<Rightarrow> nat option" where
  "u8_from_str_radix16 s =
     (case s of
        [] \<Rightarrow> None
      | [c] \<Rightarrow> hex_digits 0 [c]
      | c # cs \<Rightarrow> if c = CHR ''+'' then hex_digits 0 cs else hex_digits 0 (c # cs))"

fun chunks2 :: "string \<Rightarrow> string list" where
  "chunks2 (a # b # cs) = [a, b] # chunks2 cs"
| "chunks2 _ = []"

fun parse_pairs :: "string list \<Rightarrow> bytes option" where
  "parse_pairs [] = Some []"
| "parse_pairs (p # ps) =
     (case u8_from_str_radix16 p of
        None \<Rightarrow> None
      | Some b \<Rightarrow> map_option ((#) (char_of b)) (parse_pairs ps))"

definition generation_display :: "generation \<Rightarrow> string" where
  "generation_display g = concat (map (\<lambda>b. [hex_digit (of_char b div 16), hex_digit (of_char b mod 16)]) g)"

definition generation_from_str :: "string \<Rightarrow> route_table_error + generation" where
  "generation_from_str s =
     (let invalid = Inl (RouteInvalidArgument ''ShardDirectoryGeneration must be 64 hexadecimal characters'')
      in if length s \<noteq> 64 \<or> \<not> list_all is_ascii_hexdigit s then invalid
         else (case parse_pairs (chunks2 s) of None \<Rightarrow> invalid | Some g \<Rightarrow> Inr g))"

definition to_ascii_lowercase :: "char \<Rightarrow> char" where
  "to_ascii_lowercase c = (if in_range 65 90 c then char_of (of_char c + (32::nat)) else c)"

lemma hex_value_digit: "v < 16 \<Longrightarrow> hex_value (hex_digit v) = Some v"
  by (auto simp: hex_value_def hex_digit_def in_range_def)

lemma hexdigit_hex_digit: "v < 16 \<Longrightarrow> is_ascii_hexdigit (hex_digit v)"
  by (auto simp: is_ascii_hexdigit_def hex_digit_def in_range_def)

lemma hexdigit_value:
  assumes "is_ascii_hexdigit c"
  obtains v where "hex_value c = Some v" "v < 16" "hex_digit v = to_ascii_lowercase c"
proof -
  define n where "n = (of_char c :: nat)"
  have c: "c = char_of n" by (simp add: n_def)
  have "n \<in> {48..57} \<union> {97..102} \<union> {65..70}"
    using assms by (auto simp: is_ascii_hexdigit_def in_range_def n_def)
  then have "\<exists>v. hex_value c = Some v \<and> v < 16 \<and> hex_digit v = to_ascii_lowercase c"
    by (auto simp: c hex_value_def hex_digit_def to_ascii_lowercase_def in_range_def)
  then show thesis using that by blast
qed

lemma hexdigit_not_plus: "is_ascii_hexdigit c \<Longrightarrow> c \<noteq> CHR ''+''"
  by (auto simp: is_ascii_hexdigit_def in_range_def)

lemma from_str_radix16_pair:
  assumes "is_ascii_hexdigit a" "hex_value a = Some u" "hex_value b = Some v" "u < 16" "v < 16"
  shows "u8_from_str_radix16 [a, b] = Some (u * 16 + v)"
  using assms hexdigit_not_plus by (simp add: u8_from_str_radix16_def)

lemma byte_div_16: "(of_char b :: nat) div 16 < 16"
  by (rule less_mult_imp_div_less) simp

lemma parse_pairs_display: "parse_pairs (chunks2 (generation_display g)) = Some g"
proof (induction g)
  case (Cons b g)
  have "u8_from_str_radix16 [hex_digit (of_char b div 16), hex_digit (of_char b mod 16)] =
      Some (of_char b div 16 * 16 + of_char b mod 16)"
    by (intro from_str_radix16_pair hexdigit_hex_digit hex_value_digit byte_div_16) simp_all
  then show ?case using Cons by (simp add: generation_display_def)
qed (simp add: generation_display_def)

lemma parse_pairs_hex:
  assumes "list_all is_ascii_hexdigit s" "even (length s)"
  shows "\<exists>g. parse_pairs (chunks2 s) = Some g \<and> generation_display g = map to_ascii_lowercase s \<and>
             2 * length g = length s"
  using assms
proof (induction s rule: chunks2.induct)
  case (1 a b cs)
  obtain u where u: "hex_value a = Some u" "u < 16" "hex_digit u = to_ascii_lowercase a"
    using hexdigit_value [of a] 1(2) by auto
  obtain v where v: "hex_value b = Some v" "v < 16" "hex_digit v = to_ascii_lowercase b"
    using hexdigit_value [of b] 1(2) by auto
  have "u8_from_str_radix16 [a, b] = Some (u * 16 + v)"
    using u v 1(2) by (intro from_str_radix16_pair) simp_all
  moreover have "u * 16 + v < 256" using u v by simp
  ultimately show ?case using 1 u v by (auto simp: generation_display_def)
qed (auto simp: generation_display_def)

text \<open>
  C31. The hexadecimal form of a directory generation round-trips both ways: every 32-byte digest
  prints to text that parses back to it, and every accepted text is the printed form of its
  digest up to the case of its letters.
\<close>
theorem generation_roundtrip:
  "(length g = 32 \<longrightarrow> generation_from_str (generation_display g) = Inr g) \<and>
   (\<forall>s. generation_from_str s = Inr g \<longrightarrow>
      length g = 32 \<and> generation_display g = map to_ascii_lowercase s)"
proof -
  have "length (generation_display g) = 2 * length g"
    by (induction g) (simp_all add: generation_display_def)
  moreover have "list_all is_ascii_hexdigit (generation_display g)"
    by (auto simp: generation_display_def list_all_iff hexdigit_hex_digit byte_div_16)
  ultimately have "length g = 32 \<longrightarrow> generation_from_str (generation_display g) = Inr g"
    by (simp add: generation_from_str_def parse_pairs_display)
  moreover have "length g = 32 \<and> generation_display g = map to_ascii_lowercase s"
    if "generation_from_str s = Inr g" for s
  proof -
    have "list_all is_ascii_hexdigit s" "length s = 64" "parse_pairs (chunks2 s) = Some g"
      using that by (auto simp: generation_from_str_def Let_def split: if_splits option.splits)
    then show ?thesis using parse_pairs_hex [of s] by auto
  qed
  ultimately show ?thesis by blast
qed

theorem generation_roundtrip_witness:
  "generation_from_str (generation_display (replicate 32 CHR ''z'')) = Inr (replicate 32 CHR ''z'') \<and>
   generation_display (replicate 32 CHR ''z'') =
     map to_ascii_lowercase (generation_display (replicate 32 CHR ''z''))"
  using generation_roundtrip [of "replicate 32 CHR ''z''"] by simp

section \<open>The shard directory\<close>

record shard_record =
  record_id :: shard_id
  record_endpoint :: string

record shard_directory =
  directory_generation :: generation
  directory_shards :: "shard_record list"

record shard_record_document =
  document_id :: string
  document_endpoint :: string

record directory_document =
  format_version :: nat
  authority_hash :: string
  document_shards :: "shard_record_document list"

definition AUTHORITY_HASH :: string where
  "AUTHORITY_HASH = ''sha256-destination-modulo-v2''"

fun collect_shards ::
  "shard_record_document list \<Rightarrow> shard_id list \<Rightarrow> shard_record list \<Rightarrow> route_table_error + shard_record list" where
  "collect_shards [] seen shards = Inr shards"
| "collect_shards (r # rs) seen shards =
     and_then (shard_id_new (document_id r)) (\<lambda>id.
       if id \<in> set seen then Inl (RouteInvalidArgument ''ShardDirectory contains a duplicate ShardId'')
       else and_then (shard_endpoint_new (document_endpoint r)) (\<lambda>endpoint.
         collect_shards rs (id # seen) (shards @ [\<lparr>record_id = id, record_endpoint = endpoint\<rparr>])))"

definition from_json_bytes ::
  "(bytes \<Rightarrow> string + directory_document) \<Rightarrow> (bytes \<Rightarrow> bytes) \<Rightarrow> bytes \<Rightarrow> route_table_error + shard_directory" where
  "from_json_bytes from_slice sha256 bs =
     and_then (map_err (\<lambda>e. RouteInvalidArgument (''invalid ShardDirectory JSON: '' @ e)) (from_slice bs)) (\<lambda>doc.
       if format_version doc \<noteq> 2 then Inl (RouteInvalidArgument ''ShardDirectory format_version must be 2'')
       else if authority_hash doc \<noteq> AUTHORITY_HASH
       then Inl (RouteInvalidArgument (''ShardDirectory authority_hash must be '' @ AUTHORITY_HASH))
       else if document_shards doc = []
       then Inl (RouteInvalidArgument ''ShardDirectory must contain at least one shard'')
       else and_then (collect_shards (document_shards doc) [] []) (\<lambda>shards.
         Inr \<lparr>directory_generation = sha256 bs, directory_shards = shards\<rparr>))"

definition directory_shard :: "shard_directory \<Rightarrow> shard_id \<Rightarrow> shard_record option" where
  "directory_shard dir sid = find (\<lambda>r. record_id r = sid) (directory_shards dir)"

text \<open>The index into \<open>shards\<close> panics on an empty directory: \<open>None\<close> here.\<close>

definition authority :: "(bytes \<Rightarrow> bytes) \<Rightarrow> shard_directory \<Rightarrow> destination \<Rightarrow> shard_record option" where
  "authority sha256 dir d =
     (if directory_shards dir = [] then None
      else let value = u64_of_bytes (take 8 (sha256 (canonical_key d)))
           in Some (directory_shards dir ! (unat value mod length (directory_shards dir))))"

definition directory_ok :: "shard_directory \<Rightarrow> bool" where
  "directory_ok dir \<longleftrightarrow> directory_shards dir \<noteq> [] \<and> distinct (map record_id (directory_shards dir)) \<and>
     (\<forall>r \<in> set (directory_shards dir). record_id r \<noteq> [] \<and> record_endpoint r \<noteq> [])"

lemma collect_shards_Inr:
  assumes "collect_shards rs seen shards = Inr out"
  shows "\<exists>new. out = shards @ new \<and> map record_id new = map document_id rs \<and>
    map record_endpoint new = map document_endpoint rs \<and> distinct (map record_id new) \<and>
    set (map record_id new) \<inter> set seen = {} \<and> (\<forall>r \<in> set new. record_id r \<noteq> [] \<and> record_endpoint r \<noteq> [])"
  using assms
proof (induction rs seen shards rule: collect_shards.induct)
  case (2 r rs seen shards)
  let ?new = "\<lparr>record_id = document_id r, record_endpoint = document_endpoint r\<rparr>"
  have r: "document_id r \<noteq> []" "document_endpoint r \<noteq> []" "document_id r \<notin> set seen"
    and rest: "collect_shards rs (document_id r # seen) (shards @ [?new]) = Inr out"
    using 2(2) by (auto simp: and_then_Inr shard_id_new_def shard_endpoint_new_def non_empty_string_id_def
        split: if_splits)
  obtain new where "out = (shards @ [?new]) @ new" "map record_id new = map document_id rs"
    and "map record_endpoint new = map document_endpoint rs" "distinct (map record_id new)"
    "set (map record_id new) \<inter> set (document_id r # seen) = {}"
    "\<forall>r \<in> set new. record_id r \<noteq> [] \<and> record_endpoint r \<noteq> []"
    using 2(1) [OF r(3) rest] by blast
  then show ?case using r by (intro exI [of _ "?new # new"]) auto
qed simp

lemma from_json_bytes_ok:
  assumes "from_json_bytes from_slice sha256 bs = Inr dir"
  shows "directory_ok dir"
  using assms
  by (auto simp: from_json_bytes_def and_then_Inr directory_ok_def dest!: collect_shards_Inr split: if_splits)

lemma authority_in_directory:
  assumes "directory_ok dir"
  obtains r where "authority sha256 dir d = Some r" "r \<in> set (directory_shards dir)"
  using assms by (auto simp: authority_def directory_ok_def Let_def intro!: that)

lemma directory_shard_unique:
  assumes "directory_ok dir" "r \<in> set (directory_shards dir)"
  shows "directory_shard dir (record_id r) = Some r"
proof -
  obtain r' where r': "find (\<lambda>x. record_id x = record_id r) (directory_shards dir) = Some r'"
    using assms(2) by (cases "find (\<lambda>x. record_id x = record_id r) (directory_shards dir)") (auto simp: find_None_iff)
  then have "r' \<in> set (directory_shards dir)" "record_id r' = record_id r"
    by (auto simp: find_Some_iff)
  then have "r' = r" using assms by (auto simp: directory_ok_def distinct_map inj_on_def)
  then show ?thesis using r' by (simp add: directory_shard_def)
qed

text \<open>
  C25. Every accepted directory assigns each destination exactly one authority: the lookup never
  runs out of range, its result is listed in the directory, and looking that shard's identity up
  again gives the same record. A destination can thus be served by one shard of a generation only.
\<close>
theorem authority_total_unique:
  assumes "from_json_bytes from_slice sha256 bs = Inr dir"
  shows "\<exists>r \<in> set (directory_shards dir). authority sha256 dir d = Some r \<and>
           directory_shard dir (record_id r) = Some r \<and>
           (\<forall>r' \<in> set (directory_shards dir). record_id r' = record_id r \<longrightarrow> r' = r)"
proof -
  have ok: "directory_ok dir" using from_json_bytes_ok [OF assms] .
  obtain r where r: "authority sha256 dir d = Some r" "r \<in> set (directory_shards dir)"
    using authority_in_directory [OF ok] by blast
  then have "directory_shard dir (record_id r) = Some r" using directory_shard_unique [OF ok] by blast
  moreover have "r' = r" if "r' \<in> set (directory_shards dir)" "record_id r' = record_id r" for r'
    using that calculation directory_shard_unique [OF ok that(1)] by simp
  ultimately show ?thesis using r by blast
qed

theorem authority_total_unique_witness:
  "\<exists>r. authority (\<lambda>_. replicate 32 CHR ''a'')
       \<lparr>directory_generation = replicate 32 CHR ''a'',
        directory_shards = [\<lparr>record_id = ''s0'', record_endpoint = ''h:1''\<rparr>, \<lparr>record_id = ''s1'', record_endpoint = ''h:2''\<rparr>]\<rparr>
       (destination_new (Namespace ''ns'') (DestinationName ''a'')) = Some r"
proof -
  let ?sha = "\<lambda>_ :: bytes. replicate 32 CHR ''a''"
  let ?doc = "\<lparr>format_version = 2, authority_hash = AUTHORITY_HASH, document_shards =
    [\<lparr>document_id = ''s0'', document_endpoint = ''h:1''\<rparr>, \<lparr>document_id = ''s1'', document_endpoint = ''h:2''\<rparr>]\<rparr>"
  let ?dir = "\<lparr>directory_generation = ?sha [], directory_shards =
    [\<lparr>record_id = ''s0'', record_endpoint = ''h:1''\<rparr>, \<lparr>record_id = ''s1'', record_endpoint = ''h:2''\<rparr>]\<rparr>"
  have "from_json_bytes (\<lambda>_. Inr ?doc) ?sha [] = Inr ?dir"
    by (simp add: from_json_bytes_def shard_id_new_def shard_endpoint_new_def non_empty_string_id_def)
  from authority_total_unique [OF this] show ?thesis by blast
qed

end
