(* ===== verification/Indexes.thy ===== *)
theory Indexes
  imports Prelude
begin

text \<open>
  The secondary-index idiom of the sources. Four structures of the program keep, beside a primary
  table, an index from a group to a bucket of members: \<open>LocalRegistry::by_destination\<close> and
  \<open>by_session\<close>, \<open>RouteTableShard::destination_index\<close> and \<open>expiry_index\<close>. All of them add with
  \<open>entry(group).or_default().insert(member)\<close> and remove with \<open>get_mut\<close>, a removal in the bucket
  and, when the bucket is empty, a removal of the group. The two operations are defined once; the
  locale \<open>bucket_index\<close> states what they need of the outer table and of the bucket and derives
  what each of the four indexes promises.
\<close>

definition index_members :: "('b \<Rightarrow> 'x set) \<Rightarrow> ('g \<times> 'b) list \<Rightarrow> 'g \<Rightarrow> 'x set" where
  "index_members elems ix g = (case map_of ix g of None \<Rightarrow> {} | Some b \<Rightarrow> elems b)"

definition index_insert ::
  "('g \<Rightarrow> 'b \<Rightarrow> ('g \<times> 'b) list \<Rightarrow> ('g \<times> 'b) list) \<Rightarrow> 'b \<Rightarrow> ('x \<Rightarrow> 'b \<Rightarrow> 'b) \<Rightarrow>
   'g \<Rightarrow> 'x \<Rightarrow> ('g \<times> 'b) list \<Rightarrow> ('g \<times> 'b) list" where
  "index_insert put none ins g x ix =
     put g (ins x (case map_of ix g of None \<Rightarrow> none | Some b \<Rightarrow> b)) ix"

definition index_remove ::
  "('y \<Rightarrow> 'b \<Rightarrow> 'b) \<Rightarrow> ('b \<Rightarrow> bool) \<Rightarrow> 'g \<Rightarrow> 'y \<Rightarrow> ('g \<times> 'b) list \<Rightarrow> ('g \<times> 'b) list" where
  "index_remove rem emp g y ix =
     (case map_of ix g of
        None \<Rightarrow> ix
      | Some b \<Rightarrow> (let b' = rem y b in if emp b' then AList.delete g ix else AList.update g b' ix))"

definition index_ok ::
  "(('g \<times> 'b) list \<Rightarrow> bool) \<Rightarrow> ('b \<Rightarrow> bool) \<Rightarrow> ('b \<Rightarrow> bool) \<Rightarrow> ('g \<times> 'b) list \<Rightarrow> bool" where
  "index_ok ok bok emp ix \<longleftrightarrow> ok ix \<and> (\<forall>g b. map_of ix g = Some b \<longrightarrow> bok b \<and> \<not> emp b)"

text \<open>The outer table: a \<open>HashMap\<close> or a \<open>BTreeMap\<close>, told apart by how they insert.\<close>

locale table_ops =
  fixes put :: "'g \<Rightarrow> 'b \<Rightarrow> ('g \<times> 'b) list \<Rightarrow> ('g \<times> 'b) list"
    and ok :: "('g \<times> 'b) list \<Rightarrow> bool"
  assumes get_put: "map_of (put g b m) g' = (if g' = g then Some b else map_of m g')"
    and ok_Nil: "ok []"
    and ok_put: "ok m \<Longrightarrow> ok (put g b m)"
    and ok_modify: "ok m \<Longrightarrow> map_of m g = Some b' \<Longrightarrow> ok (AList.update g b m)"
    and ok_delete: "ok m \<Longrightarrow> ok (AList.delete g m)"
    and ok_distinct: "ok m \<Longrightarrow> distinct (map fst m)"

interpretation hash_table: table_ops AList.update hm_ok
  by unfold_locales (simp_all add: table_simps table_wf, simp add: hm_ok_def)

interpretation ordered_table: table_ops bt_insert bt_ok
  by unfold_locales (simp_all add: table_simps table_wf bt_ok_distinct bt_ok_modify)

text \<open>A bucket holds members told apart by a tag; only fresh members are inserted.\<close>

locale bucket =
  fixes none :: 'b and ins :: "'x \<Rightarrow> 'b \<Rightarrow> 'b" and rem :: "'y \<Rightarrow> 'b \<Rightarrow> 'b"
    and emp :: "'b \<Rightarrow> bool" and elems :: "'b \<Rightarrow> 'x set" and tag :: "'x \<Rightarrow> 'y"
    and bok :: "'b \<Rightarrow> bool"
  assumes elems_none: "elems none = {}" and bok_none: "bok none"
    and elems_ins: "bok b \<Longrightarrow> tag x \<notin> tag ` elems b \<Longrightarrow> elems (ins x b) = insert x (elems b)"
    and bok_ins: "bok b \<Longrightarrow> tag x \<notin> tag ` elems b \<Longrightarrow> bok (ins x b)"
    and elems_rem: "bok b \<Longrightarrow> elems (rem y b) = {x \<in> elems b. tag x \<noteq> y}"
    and bok_rem: "bok b \<Longrightarrow> bok (rem y b)"
    and emp_iff: "bok b \<Longrightarrow> emp b \<longleftrightarrow> elems b = {}"

locale bucket_index =
  table_ops put ok + bucket none ins rem emp elems tag bok
  for put :: "'g \<Rightarrow> 'b \<Rightarrow> ('g \<times> 'b) list \<Rightarrow> ('g \<times> 'b) list"
    and ok :: "('g \<times> 'b) list \<Rightarrow> bool"
    and none :: 'b and ins :: "'x \<Rightarrow> 'b \<Rightarrow> 'b" and rem :: "'y \<Rightarrow> 'b \<Rightarrow> 'b"
    and emp :: "'b \<Rightarrow> bool" and elems :: "'b \<Rightarrow> 'x set" and tag :: "'x \<Rightarrow> 'y"
    and bok :: "'b \<Rightarrow> bool"
begin

lemma empty_index: "index_ok ok bok emp []"
  by (simp add: index_ok_def ok_Nil)

lemma members_empty: "index_members elems [] g = {}"
  by (simp add: index_members_def)

lemma member_bucket:
  "index_ok ok bok emp ix \<Longrightarrow> bok (case map_of ix g of None \<Rightarrow> none | Some b \<Rightarrow> b)
     \<and> elems (case map_of ix g of None \<Rightarrow> none | Some b \<Rightarrow> b) = index_members elems ix g"
  by (auto simp: index_ok_def index_members_def bok_none elems_none split: option.split)

lemma insert_members:
  assumes "index_ok ok bok emp ix" and "tag x \<notin> tag ` index_members elems ix g"
  shows "index_members elems (index_insert put none ins g x ix) g' =
           (if g' = g then insert x (index_members elems ix g) else index_members elems ix g')"
  using member_bucket [OF assms(1), of g] assms(2)
  by (simp add: index_insert_def index_members_def [of _ "put _ _ _"] get_put elems_ins)
    (simp add: index_members_def)

lemma insert_ok:
  assumes "index_ok ok bok emp ix" and "tag x \<notin> tag ` index_members elems ix g"
  shows "index_ok ok bok emp (index_insert put none ins g x ix)"
proof -
  let ?b = "case map_of ix g of None \<Rightarrow> none | Some b \<Rightarrow> b"
  have b: "bok ?b" and e: "elems ?b = index_members elems ix g"
    using member_bucket [OF assms(1)] by blast+
  have "bok (ins x ?b)" using b e assms(2) bok_ins by simp
  moreover have "\<not> emp (ins x ?b)"
    using b e assms(2) calculation emp_iff elems_ins by simp
  ultimately show ?thesis
    using assms(1) by (auto simp: index_ok_def index_insert_def get_put ok_put)
qed

lemma remove_members:
  assumes "index_ok ok bok emp ix"
  shows "index_members elems (index_remove rem emp g y ix) g' =
           (if g' = g then {x \<in> index_members elems ix g. tag x \<noteq> y}
            else index_members elems ix g')"
proof (cases "map_of ix g")
  case None
  then show ?thesis by (auto simp: index_remove_def index_members_def)
next
  case (Some b)
  then have b: "bok b" using assms by (auto simp: index_ok_def)
  then have "emp (rem y b) \<longleftrightarrow> {x \<in> elems b. tag x \<noteq> y} = {}"
    using emp_iff bok_rem elems_rem by metis
  then show ?thesis
    using Some b by (auto simp: index_remove_def index_members_def Let_def table_simps elems_rem)
qed

lemma remove_ok:
  assumes "index_ok ok bok emp ix"
  shows "index_ok ok bok emp (index_remove rem emp g y ix)"
  using assms
  by (auto simp: index_remove_def index_ok_def Let_def table_simps ok_modify ok_delete bok_rem
      split: option.splits if_splits)

lemma absent_iff:
  "index_ok ok bok emp ix \<Longrightarrow> map_of ix g = None \<longleftrightarrow> index_members elems ix g = {}"
  using emp_iff by (fastforce simp: index_ok_def index_members_def split: option.splits)

lemma present_bucket:
  "index_ok ok bok emp ix \<Longrightarrow> map_of ix g = Some b \<Longrightarrow>
     bok b \<and> elems b = index_members elems ix g \<and> elems b \<noteq> {}"
  using emp_iff by (fastforce simp: index_ok_def index_members_def)

end

text \<open>The bucket kinds of the program: a \<open>Vec\<close> used as a queue, a \<open>HashSet\<close> and a \<open>BTreeSet\<close>.\<close>

interpretation vec_bucket: bucket "[]" "\<lambda>x xs. xs @ [x]" removeAll "\<lambda>xs. xs = []" set "\<lambda>x. x" distinct
  by unfold_locales (auto simp: distinct_removeAll)

interpretation hashset_bucket: bucket "[]" List.insert removeAll "\<lambda>xs. xs = []" set "\<lambda>x. x" distinct
  by unfold_locales (auto simp: distinct_removeAll)

interpretation btreeset_bucket: bucket "[]" bs_insert removeAll "\<lambda>xs. xs = []" set "\<lambda>x. x" bs_ok
  by unfold_locales (auto simp: bs_ok_insert bs_ok_removeAll, simp add: bs_ok_def)

end
