(* ===== verification/Route_Shard.thy ===== *)
theory Route_Shard
  imports Route_Model Indexes
begin

text \<open>
  One RouteTable shard (\<open>relaygate-route-table/src/shard.rs\<close>): registrations under leases, the
  destination index the resolver reads, the set of active lease identifiers and the expiry index.
  Every operation returns its outcome and the shard afterwards, also on the error branches, which
  come after \<open>expire_due\<close> has run. \<open>sha256\<close> is the digest the directory uses; \<open>now\<close> is the clock
  reading of the caller; \<open>draws\<close> are the random UUIDs \<open>unique_lease_id\<close> draws.
\<close>

section \<open>State\<close>

definition route_table_config_new :: "duration \<Rightarrow> route_table_error + duration" where
  "route_table_config_new ttl =
     (if ttl = 0 then Inl (RouteInvalidArgument ''lease TTL must be greater than zero'') else Inr ttl)"

record registration_state =
  reg_lease_id :: lease_id
  reg_revision :: "registration_revision option"
  reg_deadline :: instant
  reg_bindings :: binding_map

record shard =
  shard_directory_of :: shard_directory
  shard_self_id :: shard_id
  lease_ttl :: duration
  destination_index :: "(destination, binding_map) hashmap"
  registration_index :: "(registration_key, registration_state) hashmap"
  active_lease_ids :: "lease_id list"
  expiry_index :: "(instant, expiry_key list) btreemap"
  binding_count :: nat
  expiry_record_count :: nat

definition shard_new :: "shard_directory \<Rightarrow> shard_id \<Rightarrow> duration \<Rightarrow> route_table_error + shard" where
  "shard_new dir sid ttl =
     (case directory_shard dir sid of
        None \<Rightarrow> Inl (RouteInvalidArgument ''RouteTable shard is not present in ShardDirectory'')
      | Some _ \<Rightarrow> Inr \<lparr>shard_directory_of = dir, shard_self_id = sid, lease_ttl = ttl,
          destination_index = [], registration_index = [], active_lease_ids = [],
          expiry_index = [], binding_count = 0, expiry_record_count = 0\<rparr>)"

definition shard_stats :: "shard \<Rightarrow> route_table_stats" where
  "shard_stats s =
     \<lparr>stats_registration_count = length (registration_index s), stats_binding_count = binding_count s,
      stats_destination_count = length (destination_index s),
      stats_expiry_record_count = expiry_record_count s\<rparr>"

section \<open>Index maintenance\<close>

abbreviation route_put :: "binding_identity \<times> binding_projection \<Rightarrow> binding_map \<Rightarrow> binding_map" where
  "route_put e \<equiv> bt_insert (fst e) (snd e)"

abbreviation is_empty_list :: "'a list \<Rightarrow> bool" where
  "is_empty_list xs \<equiv> xs = []"

definition insert_bindings ::
  "binding_map \<Rightarrow> (destination, binding_map) hashmap \<Rightarrow> (destination, binding_map) hashmap" where
  "insert_bindings =
     fold (\<lambda>e. index_insert AList.update [] route_put (projection_destination (snd e)) e)"

definition remove_bindings ::
  "binding_map \<Rightarrow> (destination, binding_map) hashmap \<Rightarrow> (destination, binding_map) hashmap" where
  "remove_bindings =
     fold (\<lambda>e. index_remove AList.delete is_empty_list (projection_destination (snd e)) (fst e))"

definition insert_expiry :: "registration_key \<Rightarrow> lease_id \<Rightarrow> instant \<Rightarrow> shard \<Rightarrow> shard" where
  "insert_expiry key lease deadline s =
     (let e = ExpiryKey key lease;
          fresh = e \<notin> index_members set (expiry_index s) deadline
      in s\<lparr>expiry_index := index_insert bt_insert [] bs_insert deadline e (expiry_index s),
           expiry_record_count := expiry_record_count s + (if fresh then 1 else 0)\<rparr>)"

definition remove_expiry :: "registration_key \<Rightarrow> lease_id \<Rightarrow> instant \<Rightarrow> shard \<Rightarrow> shard" where
  "remove_expiry key lease deadline s =
     (let e = ExpiryKey key lease;
          found = e \<in> index_members set (expiry_index s) deadline
      in s\<lparr>expiry_index := index_remove removeAll is_empty_list deadline e (expiry_index s),
           expiry_record_count := expiry_record_count s - (if found then 1 else 0)\<rparr>)"

definition remove_registration :: "registration_key \<Rightarrow> shard \<Rightarrow> shard" where
  "remove_registration key s =
     (case hm_get (registration_index s) key of
        None \<Rightarrow> s
      | Some r \<Rightarrow>
          let s = s\<lparr>registration_index := hm_remove key (registration_index s),
                    binding_count := binding_count s - length (reg_bindings r),
                    active_lease_ids := removeAll (reg_lease_id r) (active_lease_ids s)\<rparr>;
              s = remove_expiry key (reg_lease_id r) (reg_deadline r) s
          in s\<lparr>destination_index := remove_bindings (reg_bindings r) (destination_index s)\<rparr>)"

section \<open>Expiry\<close>

definition next_expiry_deadline :: "shard \<Rightarrow> instant option" where
  "next_expiry_deadline s = (case expiry_index s of [] \<Rightarrow> None | (deadline, _) # _ \<Rightarrow> Some deadline)"

fun expire_candidates :: "instant \<Rightarrow> expiry_key list \<Rightarrow> nat \<times> shard \<Rightarrow> nat \<times> shard" where
  "expire_candidates now [] (n, s) = (n, s)"
| "expire_candidates now (c # cs) (n, s) =
     expire_candidates now cs
       (case hm_get (registration_index s) (expiry_registration_key c) of
          None \<Rightarrow> (n, s)
        | Some r \<Rightarrow>
            if reg_lease_id r = expiry_lease_id c \<and> reg_deadline r \<le> now
            then (n + 1, remove_registration (expiry_registration_key c) s)
            else (n, s))"

lemma length_index_remove: "length (index_remove rem emp g y ix) \<le> length ix"
  by (auto simp: index_remove_def Let_def length_delete_le length_hm_insert split: option.split)

lemma length_expiry_remove_registration:
  "length (expiry_index (remove_registration k s)) \<le> length (expiry_index s)"
  using length_index_remove
  by (auto simp: remove_registration_def remove_expiry_def Let_def split: option.split)

lemma length_expiry_candidates:
  "length (expiry_index (snd (expire_candidates now cs (n, s)))) \<le> length (expiry_index s)"
  by (induction now cs "(n, s)" arbitrary: n s rule: expire_candidates.induct)
    (force split: option.split intro: order_trans length_expiry_remove_registration)+

function expire_due :: "instant \<Rightarrow> shard \<Rightarrow> nat \<times> shard" where
  "expire_due now s =
     (case expiry_index s of
        [] \<Rightarrow> (0, s)
      | (deadline, candidates) # rest \<Rightarrow>
          if deadline \<le> now
          then (let (n, s1) = expire_candidates now candidates
                      (0, s\<lparr>expiry_index := rest,
                            expiry_record_count := expiry_record_count s - length candidates\<rparr>);
                    (m, s2) = expire_due now s1
                in (n + m, s2))
          else (0, s))"
  by pat_completeness auto
termination
proof (relation "measure (\<lambda>(now, s). length (expiry_index s))", goal_cases)
  case (2 now s e rest deadline candidates x n s1)
  then have "s1 = snd x" by (metis snd_conv)
  then show ?case
    using 2 length_expiry_candidates [of now candidates 0
        "s\<lparr>expiry_index := rest, expiry_record_count := expiry_record_count s - length candidates\<rparr>"]
    by simp
qed simp

declare expire_due.simps [simp del]

section \<open>Validation\<close>

definition validate_generation :: "generation \<Rightarrow> shard \<Rightarrow> route_table_error + unit" where
  "validate_generation gen s =
     (if gen \<noteq> directory_generation (shard_directory_of s)
      then Inl (RouteFailedPrecondition ''ShardDirectoryGeneration mismatch'') else Inr ())"

definition validate_authenticated_owner :: "gateway_id \<Rightarrow> registration_key \<Rightarrow> route_table_error + unit" where
  "validate_authenticated_owner ctx key =
     (if ctx \<noteq> key_gateway_id key then Inl RoutePermissionDenied else Inr ())"

definition validate_registration_scope :: "registration_key \<Rightarrow> shard \<Rightarrow> route_table_error + unit" where
  "validate_registration_scope key s =
     (if key_shard_id key \<noteq> shard_self_id s
      then Inl (RouteInvalidArgument ''RegistrationKey targets a different shard'') else Inr ())"

definition validate_destination_authority ::
  "(bytes \<Rightarrow> bytes) \<Rightarrow> destination \<Rightarrow> shard \<Rightarrow> route_table_error + unit" where
  "validate_destination_authority sha256 d s =
     (if map_option record_id (authority sha256 (shard_directory_of s) d) \<noteq> Some (shard_self_id s)
      then Inl (RouteInvalidArgument ''Destination belongs to a different authority shard'') else Inr ())"

fun validate_snapshot ::
  "(bytes \<Rightarrow> bytes) \<Rightarrow> registration_key \<Rightarrow> binding_map \<Rightarrow> shard \<Rightarrow> route_table_error + unit" where
  "validate_snapshot sha256 key [] s = Inr ()"
| "validate_snapshot sha256 key ((i, b) # m) s =
     (let identity = projection_identity b in
      if identity_gateway_id identity \<noteq> key_gateway_id key \<or> identity_session_id identity \<noteq> key_session_id key
      then Inl (RouteInvalidArgument ''snapshot binding is outside the RegistrationKey scope'')
      else and_then (validate_destination_authority sha256 (projection_destination b) s)
             (\<lambda>_. validate_snapshot sha256 key m s))"

fun validate_identity_stability :: "binding_map \<Rightarrow> binding_map \<Rightarrow> route_table_error + unit" where
  "validate_identity_stability current [] = Inr ()"
| "validate_identity_stability current ((i, next) # m) =
     (case map_of current i of
        Some b \<Rightarrow>
          if b \<noteq> next
          then Inl (RouteFailedPrecondition ''an active BindingIdentity cannot change Destination or GatewayLocator'')
          else validate_identity_stability current m
      | None \<Rightarrow> validate_identity_stability current m)"

definition lease_not_active :: route_table_error where
  "lease_not_active = RouteFailedPrecondition ''registration lease is not active''"

definition check_lease :: "lease_id \<Rightarrow> registration_state \<Rightarrow> route_table_error + unit" where
  "check_lease lease r =
     (if reg_lease_id r \<noteq> lease
      then Inl (RouteFailedPrecondition ''LeaseId is not the current active lease'') else Inr ())"

definition current_registration ::
  "registration_key \<Rightarrow> lease_id \<Rightarrow> shard \<Rightarrow> route_table_error + registration_state" where
  "current_registration key lease s =
     (case hm_get (registration_index s) key of
        None \<Rightarrow> Inl lease_not_active
      | Some r \<Rightarrow> and_then (check_lease lease r) (\<lambda>_. Inr r))"

definition deadline_from :: "duration \<Rightarrow> instant \<Rightarrow> route_table_error + instant" where
  "deadline_from ttl now =
     (case instant_checked_add now ttl of None \<Rightarrow> Inl RouteDeadlineOverflow | Some t \<Rightarrow> Inr t)"

definition unique_lease_id :: "uuid list \<Rightarrow> shard \<Rightarrow> lease_id option" where
  "unique_lease_id draws s = find (\<lambda>c. c \<notin> set (active_lease_ids s)) draws"

definition ack :: "registration_state \<Rightarrow> instant \<Rightarrow> registration_ack" where
  "ack r now = registration_ack_new (reg_lease_id r) (reg_revision r)
     (saturating_duration_since (reg_deadline r) now)"

section \<open>Operations\<close>

text \<open>
  \<open>register\<close> is \<open>None\<close> while \<open>unique_lease_id\<close> is still drawing, that is when every UUID of \<open>draws\<close>
  is an active lease.
\<close>

definition register ::
  "uuid list \<Rightarrow> gateway_id \<Rightarrow> generation \<Rightarrow> registration_key \<Rightarrow> instant \<Rightarrow> shard \<Rightarrow>
   ((route_table_error + registration_ack) \<times> shard) option" where
  "register draws ctx gen key now s =
     (case and_then (validate_authenticated_owner ctx key) (\<lambda>_.
           and_then (validate_generation gen s) (\<lambda>_. validate_registration_scope key s)) of
        Inl e \<Rightarrow> Some (Inl e, s)
      | Inr _ \<Rightarrow>
          let s = snd (expire_due now s) in
          (case hm_get (registration_index s) key of
             Some r \<Rightarrow> Some (Inr (ack r now), s)
           | None \<Rightarrow>
               (case deadline_from (lease_ttl s) now of
                  Inl e \<Rightarrow> Some (Inl e, s)
                | Inr deadline \<Rightarrow>
                    (case unique_lease_id draws s of
                       None \<Rightarrow> None
                     | Some lease \<Rightarrow>
                         let s = s\<lparr>registration_index := hm_insert key
                                   \<lparr>reg_lease_id = lease, reg_revision = None, reg_deadline = deadline,
                                    reg_bindings = []\<rparr> (registration_index s),
                                  active_lease_ids := List.insert lease (active_lease_ids s)\<rparr>;
                             s = insert_expiry key lease deadline s
                         in Some (Inr (registration_ack_new lease None (lease_ttl s)), s)))))"

definition update ::
  "(bytes \<Rightarrow> bytes) \<Rightarrow> gateway_id \<Rightarrow> generation \<Rightarrow> registration_key \<Rightarrow> lease_id \<Rightarrow> registration_revision \<Rightarrow>
   binding_map \<Rightarrow> instant \<Rightarrow> shard \<Rightarrow> (route_table_error + registration_ack) \<times> shard" where
  "update sha256 ctx gen key lease revision snapshot now s =
     (case and_then (validate_authenticated_owner ctx key) (\<lambda>_.
           and_then (validate_generation gen s) (\<lambda>_.
           and_then (validate_registration_scope key s) (\<lambda>_. validate_snapshot sha256 key snapshot s))) of
        Inl e \<Rightarrow> (Inl e, s)
      | Inr _ \<Rightarrow>
          let s = snd (expire_due now s) in
          (case current_registration key lease s of
             Inl e \<Rightarrow> (Inl e, s)
           | Inr r \<Rightarrow>
               if reg_revision r = None \<and> revision \<noteq> REVISION_FIRST
               then (Inl (RouteFailedPrecondition ''the first accepted RegistrationRevision must be 1''), s)
               else if reg_revision r = Some revision then
                 if reg_bindings r = snapshot then (Inr (ack r now), s)
                 else (Inl (RouteFailedPrecondition ''the same RegistrationRevision has a different snapshot''), s)
               else if (case reg_revision r of Some current \<Rightarrow> revision < current | None \<Rightarrow> False)
               then (Inl (RouteFailedPrecondition ''RegistrationRevision is lower than the accepted revision''), s)
               else (case validate_identity_stability (reg_bindings r) snapshot of
                  Inl e \<Rightarrow> (Inl e, s)
                | Inr _ \<Rightarrow>
                    (Inr (registration_ack_new lease (Some revision)
                       (saturating_duration_since (reg_deadline r) now)),
                     s\<lparr>registration_index := hm_insert key
                          (r\<lparr>reg_bindings := snapshot, reg_revision := Some revision\<rparr>) (registration_index s),
                       binding_count := binding_count s - length (reg_bindings r) + length snapshot,
                       destination_index := insert_bindings snapshot
                         (remove_bindings (reg_bindings r) (destination_index s))\<rparr>))))"

definition keep_alive ::
  "gateway_id \<Rightarrow> generation \<Rightarrow> registration_key \<Rightarrow> lease_id \<Rightarrow> instant \<Rightarrow> shard \<Rightarrow>
   (route_table_error + registration_ack) \<times> shard" where
  "keep_alive ctx gen key lease now s =
     (case and_then (validate_authenticated_owner ctx key) (\<lambda>_.
           and_then (validate_generation gen s) (\<lambda>_. validate_registration_scope key s)) of
        Inl e \<Rightarrow> (Inl e, s)
      | Inr _ \<Rightarrow>
          let s = snd (expire_due now s) in
          (case current_registration key lease s of
             Inl e \<Rightarrow> (Inl e, s)
           | Inr r \<Rightarrow>
               (case deadline_from (lease_ttl s) now of
                  Inl e \<Rightarrow> (Inl e, s)
                | Inr new_deadline \<Rightarrow>
                    let s = s\<lparr>registration_index :=
                          hm_insert key (r\<lparr>reg_deadline := new_deadline\<rparr>) (registration_index s)\<rparr>;
                        s = insert_expiry key lease new_deadline (remove_expiry key lease (reg_deadline r) s)
                    in (Inr (registration_ack_new lease (reg_revision r) (lease_ttl s)), s))))"

definition deregister ::
  "gateway_id \<Rightarrow> generation \<Rightarrow> registration_key \<Rightarrow> lease_id \<Rightarrow> instant \<Rightarrow> shard \<Rightarrow>
   (route_table_error + unit) \<times> shard" where
  "deregister ctx gen key lease now s =
     (case and_then (validate_authenticated_owner ctx key) (\<lambda>_.
           and_then (validate_generation gen s) (\<lambda>_. validate_registration_scope key s)) of
        Inl e \<Rightarrow> (Inl e, s)
      | Inr _ \<Rightarrow>
          let s = snd (expire_due now s) in
          (case hm_get (registration_index s) key of
             None \<Rightarrow> (Inr (), s)
           | Some r \<Rightarrow>
               if reg_lease_id r \<noteq> lease
               then (Inl (RouteFailedPrecondition ''LeaseId is not the current active lease''), s)
               else (Inr (), remove_registration key s)))"

definition resolve ::
  "(bytes \<Rightarrow> bytes) \<Rightarrow> generation \<Rightarrow> destination \<Rightarrow> instant \<Rightarrow> shard \<Rightarrow>
   (route_table_error + binding_projection list) \<times> shard" where
  "resolve sha256 gen d now s =
     (case and_then (validate_generation gen s) (\<lambda>_. validate_destination_authority sha256 d s) of
        Inl e \<Rightarrow> (Inl e, s)
      | Inr _ \<Rightarrow>
          let s = snd (expire_due now s) in
          (case hm_get (destination_index s) d of
             None \<Rightarrow> (Inl RouteNotFound, s)
           | Some bindings \<Rightarrow>
               if bindings = [] then (Inl RouteNotFound, s) else (Inr (map snd bindings), s)))"

section \<open>The two indexes meet their contract\<close>

interpretation btreemap_bucket: bucket "[]" route_put AList.delete is_empty_list set fst bt_ok
  by unfold_locales (auto simp: table_wf set_bt_insert_fresh set_hm_remove)

interpretation routes: bucket_index AList.update hm_ok "[]" route_put AList.delete is_empty_list set fst bt_ok ..

interpretation deadlines: bucket_index bt_insert bt_ok "[]" bs_insert removeAll is_empty_list set "\<lambda>x. x" bs_ok ..

end
