(* ===== verification/Route_Invariant.thy ===== *)
theory Route_Invariant
  imports Route_Shard
begin

text \<open>
  The invariant of a RouteTable shard: its four secondary structures (destination index, active
  lease identifiers, expiry index, counters) are functions of the registrations. One lemma per
  structure says how it follows a removal and an insertion; \<open>expire_due\<close> and the operations of
  \<open>shard.rs\<close> are then composed of those.
\<close>

type_synonym registrations = "registration_key \<Rightarrow> registration_state option"

section \<open>The parts of the invariant\<close>

definition route_entries :: "registrations \<Rightarrow> destination \<Rightarrow> (binding_identity \<times> binding_projection) set" where
  "route_entries R d =
     {e. \<exists>k r. R k = Some r \<and> e \<in> set (reg_bindings r) \<and> projection_destination (snd e) = d}"

definition routes_ok :: "registrations \<Rightarrow> (destination, binding_map) hashmap \<Rightarrow> bool" where
  "routes_ok R ix \<longleftrightarrow> index_ok hm_ok bt_ok is_empty_list ix \<and> (\<forall>d. index_members set ix d = route_entries R d)"

definition expiry_entries :: "registrations \<Rightarrow> instant \<Rightarrow> expiry_key set" where
  "expiry_entries R t = {e. \<exists>k r. R k = Some r \<and> reg_deadline r = t \<and> e = ExpiryKey k (reg_lease_id r)}"

definition expiry_ok :: "registrations \<Rightarrow> (instant, expiry_key list) btreemap \<Rightarrow> bool" where
  "expiry_ok R ix \<longleftrightarrow> index_ok bt_ok bs_ok is_empty_list ix \<and> (\<forall>t. index_members set ix t = expiry_entries R t)"

definition lease_set :: "registrations \<Rightarrow> lease_id set" where
  "lease_set R = {l. \<exists>k r. R k = Some r \<and> l = reg_lease_id r}"

definition leases_ok :: "registrations \<Rightarrow> lease_id list \<Rightarrow> bool" where
  "leases_ok R active \<longleftrightarrow> distinct active \<and> set active = lease_set R \<and>
     (\<forall>k k' r r'. R k = Some r \<longrightarrow> R k' = Some r' \<longrightarrow> reg_lease_id r = reg_lease_id r' \<longrightarrow> k = k')"

text \<open>What the validations of \<open>update\<close> establish of one registration.\<close>

definition binding_in_scope :: "(bytes \<Rightarrow> bytes) \<Rightarrow> shard \<Rightarrow> registration_key \<Rightarrow> binding_identity \<times> binding_projection \<Rightarrow> bool" where
  "binding_in_scope sha256 s k e \<longleftrightarrow> projection_identity (snd e) = fst e \<and>
     identity_gateway_id (fst e) = key_gateway_id k \<and> identity_session_id (fst e) = key_session_id k \<and>
     map_option record_id (authority sha256 (shard_directory_of s) (projection_destination (snd e))) =
       Some (shard_self_id s)"

definition registration_ok :: "(bytes \<Rightarrow> bytes) \<Rightarrow> shard \<Rightarrow> registration_key \<Rightarrow> registration_state \<Rightarrow> bool" where
  "registration_ok sha256 s k r \<longleftrightarrow> key_shard_id k = shard_self_id s \<and> bt_ok (reg_bindings r) \<and>
     (\<forall>e \<in> set (reg_bindings r). binding_in_scope sha256 s k e) \<and>
     inj_on projection_scope (snd ` set (reg_bindings r)) \<and>
     (reg_revision r = None \<longleftrightarrow> reg_bindings r = [])"

abbreviation regs :: "shard \<Rightarrow> registrations" where
  "regs s \<equiv> hm_get (registration_index s)"

definition shard_inv :: "(bytes \<Rightarrow> bytes) \<Rightarrow> shard \<Rightarrow> bool" where
  "shard_inv sha256 s \<longleftrightarrow>
     directory_ok (shard_directory_of s) \<and> hm_ok (registration_index s) \<and>
     (\<forall>k r. regs s k = Some r \<longrightarrow> registration_ok sha256 s k r) \<and>
     routes_ok (regs s) (destination_index s) \<and> leases_ok (regs s) (active_lease_ids s) \<and>
     expiry_ok (regs s) (expiry_index s) \<and>
     binding_count s = hm_sum (\<lambda>r. length (reg_bindings r)) (registration_index s) \<and>
     expiry_record_count s = length (registration_index s)"

lemma shard_invD:
  assumes "shard_inv sha256 s"
  shows "directory_ok (shard_directory_of s)" "hm_ok (registration_index s)"
    "\<And>k r. regs s k = Some r \<Longrightarrow> registration_ok sha256 s k r"
    "routes_ok (regs s) (destination_index s)" "leases_ok (regs s) (active_lease_ids s)"
    "expiry_ok (regs s) (expiry_index s)"
    "binding_count s = hm_sum (\<lambda>r. length (reg_bindings r)) (registration_index s)"
    "expiry_record_count s = length (registration_index s)"
  using assms by (simp_all add: shard_inv_def)

text \<open>Within a shard a binding identity belongs to one registration key.\<close>

definition identities_ok :: "registrations \<Rightarrow> bool" where
  "identities_ok R \<longleftrightarrow> (\<forall>k k' r r' e e'. R k = Some r \<longrightarrow> R k' = Some r' \<longrightarrow>
     e \<in> set (reg_bindings r) \<longrightarrow> e' \<in> set (reg_bindings r') \<longrightarrow> fst e = fst e' \<longrightarrow> k = k')"

lemma identities_okI:
  assumes "\<And>k r. R k = Some r \<Longrightarrow> registration_ok sha256 s k r"
  shows "identities_ok R"
proof -
  have "k = k'" if "R k = Some r" "R k' = Some r'" "e \<in> set (reg_bindings r)" "e' \<in> set (reg_bindings r')"
    "fst e = fst e'" for k k' r r' e e'
    using that assms [of k r] assms [of k' r']
    by (cases k; cases k') (auto simp: registration_ok_def binding_in_scope_def)
  then show ?thesis unfolding identities_ok_def by blast
qed

section \<open>The destination index\<close>

lemma remove_bindings_members:
  assumes "index_ok hm_ok bt_ok is_empty_list ix"
  shows "index_ok hm_ok bt_ok is_empty_list (remove_bindings m ix) \<and>
    index_members set (remove_bindings m ix) d =
      {e \<in> index_members set ix d. \<forall>x \<in> set m. projection_destination (snd x) = d \<longrightarrow> fst e \<noteq> fst x}"
  using assms
proof (induction m arbitrary: ix)
  case (Cons x m)
  let ?ix = "index_remove AList.delete is_empty_list (projection_destination (snd x)) (fst x) ix"
  have "index_ok hm_ok bt_ok is_empty_list ?ix" by (rule routes.remove_ok [OF Cons.prems])
  moreover have "index_members set ?ix d = {e \<in> index_members set ix d. projection_destination (snd x) = d \<longrightarrow> fst e \<noteq> fst x}"
    using routes.remove_members [OF Cons.prems, of "projection_destination (snd x)" "fst x" d] by auto
  ultimately show ?case using Cons.IH [of ?ix] by (auto simp: remove_bindings_def)
qed (simp add: remove_bindings_def)

lemma insert_bindings_members:
  assumes "index_ok hm_ok bt_ok is_empty_list ix" "distinct (map fst m)"
    and "\<And>x. x \<in> set m \<Longrightarrow> fst x \<notin> fst ` index_members set ix (projection_destination (snd x))"
  shows "index_ok hm_ok bt_ok is_empty_list (insert_bindings m ix) \<and>
    index_members set (insert_bindings m ix) d =
      index_members set ix d \<union> {x \<in> set m. projection_destination (snd x) = d}"
  using assms
proof (induction m arbitrary: ix)
  case (Cons x m)
  let ?ix = "index_insert AList.update [] route_put (projection_destination (snd x)) x ix"
  have fresh: "fst x \<notin> fst ` index_members set ix (projection_destination (snd x))" using Cons.prems(3) by simp
  have ok: "index_ok hm_ok bt_ok is_empty_list ?ix" by (rule routes.insert_ok [OF Cons.prems(1) fresh])
  have members: "index_members set ?ix d' = (if d' = projection_destination (snd x)
      then insert x (index_members set ix d') else index_members set ix d')" for d'
    using routes.insert_members [OF Cons.prems(1) fresh, of d'] by simp
  have "fst y \<notin> fst ` index_members set ?ix (projection_destination (snd y))" if "y \<in> set m" for y
    using that Cons.prems(2) Cons.prems(3) [of y] by (auto simp: members rev_image_eqI)
  then show ?case using Cons.IH [OF ok] Cons.prems(2) members [of d] by (auto simp: insert_bindings_def)
qed (simp add: insert_bindings_def)

lemma routes_ok_remove:
  assumes "routes_ok R ix" "identities_ok R" "R k = Some r"
  shows "routes_ok (R(k := None)) (remove_bindings (reg_bindings r) ix)"
proof -
  have ix: "index_ok hm_ok bt_ok is_empty_list ix" "index_members set ix d = route_entries R d" for d
    using assms(1) by (simp_all add: routes_ok_def)
  have "{e \<in> route_entries R d. \<forall>x \<in> set (reg_bindings r). projection_destination (snd x) = d \<longrightarrow> fst e \<noteq> fst x}
      = route_entries (R(k := None)) d" for d
  proof (intro set_eqI iffI)
    fix e assume "e \<in> route_entries (R(k := None)) d"
    then obtain k' r' where "k' \<noteq> k" "R k' = Some r'" "e \<in> set (reg_bindings r')" "projection_destination (snd e) = d"
      by (auto simp: route_entries_def split: if_splits)
    then show "e \<in> {e \<in> route_entries R d. \<forall>x \<in> set (reg_bindings r). projection_destination (snd x) = d \<longrightarrow> fst e \<noteq> fst x}"
      using assms(2,3) unfolding route_entries_def identities_ok_def by blast
  next
    fix e assume e: "e \<in> {e \<in> route_entries R d. \<forall>x \<in> set (reg_bindings r). projection_destination (snd x) = d \<longrightarrow> fst e \<noteq> fst x}"
    then obtain k' r' where r': "R k' = Some r'" "e \<in> set (reg_bindings r')" "projection_destination (snd e) = d"
      by (auto simp: route_entries_def)
    then have "k' \<noteq> k" using e assms(3) by auto
    then have "(R(k := None)) k' = Some r'" using r' by simp
    then show "e \<in> route_entries (R(k := None)) d" using r' unfolding route_entries_def by blast
  qed
  then show ?thesis using remove_bindings_members [OF ix(1)] ix(2) by (simp add: routes_ok_def)
qed

lemma routes_ok_insert:
  assumes "routes_ok R ix" "identities_ok (R(k \<mapsto> r))" "R k = None" "bt_ok (reg_bindings r)"
  shows "routes_ok (R(k \<mapsto> r)) (insert_bindings (reg_bindings r) ix)"
proof -
  have ix: "index_ok hm_ok bt_ok is_empty_list ix" "index_members set ix d = route_entries R d" for d
    using assms(1) by (simp_all add: routes_ok_def)
  have fresh: "fst x \<notin> fst ` index_members set ix (projection_destination (snd x))" if x: "x \<in> set (reg_bindings r)" for x
  proof
    assume "fst x \<in> fst ` index_members set ix (projection_destination (snd x))"
    then obtain k' r' e where "R k' = Some r'" "e \<in> set (reg_bindings r')" "fst e = fst x"
      unfolding ix(2) route_entries_def by force
    then have "(R(k \<mapsto> r)) k' = Some r'" using assms(3) by auto
    then have "k' = k"
      using assms(2) x \<open>e \<in> _\<close> \<open>fst e = fst x\<close> unfolding identities_ok_def by (metis fun_upd_same)
    then show False using assms(3) \<open>R k' = Some r'\<close> by simp
  qed
  have "route_entries (R(k \<mapsto> r)) d =
      route_entries R d \<union> {x \<in> set (reg_bindings r). projection_destination (snd x) = d}" for d
    using assms(3) unfolding route_entries_def ex_map_fresh [of R, OF assms(3)] by auto
  then show ?thesis
    using insert_bindings_members [OF ix(1) bt_ok_distinct [OF assms(4)] fresh] ix(2)
    by (simp add: routes_ok_def)
qed

section \<open>The expiry index and the active leases\<close>

lemma expiry_ok_remove:
  assumes "expiry_ok R ix" "R k = Some r"
  shows "expiry_ok (R(k := None)) (index_remove removeAll is_empty_list (reg_deadline r) (ExpiryKey k (reg_lease_id r)) ix)"
proof -
  have ix: "index_ok bt_ok bs_ok is_empty_list ix" "index_members set ix t = expiry_entries R t" for t
    using assms(1) by (simp_all add: expiry_ok_def)
  have "expiry_entries (R(k := None)) t =
      (if t = reg_deadline r then expiry_entries R t - {ExpiryKey k (reg_lease_id r)} else expiry_entries R t)" for t
    unfolding expiry_entries_def ex_map_remove ex_map_split [of R, OF assms(2)] by auto
  then show ?thesis
    using deadlines.remove_ok [OF ix(1)] deadlines.remove_members [OF ix(1)] ix(2)
    by (auto simp: expiry_ok_def)
qed

lemma expiry_ok_insert:
  assumes "expiry_ok R ix" "R k = None"
  shows "expiry_ok (R(k \<mapsto> r)) (index_insert bt_insert [] bs_insert (reg_deadline r) (ExpiryKey k (reg_lease_id r)) ix)"
    and "ExpiryKey k l \<notin> index_members set ix t"
proof -
  have ix: "index_ok bt_ok bs_ok is_empty_list ix" "index_members set ix t = expiry_entries R t" for t
    using assms(1) by (simp_all add: expiry_ok_def)
  show fresh: "ExpiryKey k l \<notin> index_members set ix t" for l t
    using assms(2) by (auto simp: ix(2) expiry_entries_def)
  have "expiry_entries (R(k \<mapsto> r)) t =
      (if t = reg_deadline r then insert (ExpiryKey k (reg_lease_id r)) (expiry_entries R t) else expiry_entries R t)" for t
    unfolding expiry_entries_def ex_map_fresh [of R, OF assms(2)] by auto
  then show "expiry_ok (R(k \<mapsto> r)) (index_insert bt_insert [] bs_insert (reg_deadline r) (ExpiryKey k (reg_lease_id r)) ix)"
    using deadlines.insert_ok [OF ix(1)] deadlines.insert_members [OF ix(1)] ix(2) fresh
    by (auto simp: expiry_ok_def)
qed

lemma expiry_ok_present: "expiry_ok R ix \<Longrightarrow> R k = Some r \<Longrightarrow> ExpiryKey k (reg_lease_id r) \<in> index_members set ix (reg_deadline r)"
  by (auto simp: expiry_ok_def expiry_entries_def)

lemma leases_ok_remove:
  assumes "leases_ok R active" "R k = Some r"
  shows "leases_ok (R(k := None)) (removeAll (reg_lease_id r) active)"
proof -
  have inj: "R k' = Some r' \<Longrightarrow> reg_lease_id r' = reg_lease_id r \<Longrightarrow> k' = k" for k' r'
    using assms unfolding leases_ok_def by blast
  have "lease_set (R(k := None)) = lease_set R - {reg_lease_id r}"
    using inj unfolding lease_set_def ex_map_remove ex_map_split [of R, OF assms(2)] by auto
  then show ?thesis using assms(1) by (auto simp: leases_ok_def distinct_removeAll split: if_splits)
qed

lemma leases_ok_insert:
  assumes "leases_ok R active" "R k = None" "reg_lease_id r \<notin> set active"
  shows "leases_ok (R(k \<mapsto> r)) (List.insert (reg_lease_id r) active)"
proof -
  have "lease_set (R(k \<mapsto> r)) = insert (reg_lease_id r) (lease_set R)"
    unfolding lease_set_def ex_map_fresh [of R, OF assms(2)] by auto
  moreover have "\<forall>k' r'. R k' = Some r' \<longrightarrow> reg_lease_id r' \<noteq> reg_lease_id r"
    using assms(1,3) unfolding leases_ok_def lease_set_def by (metis (mono_tags, lifting) mem_Collect_eq)
  ultimately show ?thesis using assms unfolding leases_ok_def by (auto split: if_splits) metis+
qed

lemma leases_ok_replace:
  assumes "leases_ok R active" "R k = Some r" "reg_lease_id r' = reg_lease_id r"
  shows "leases_ok (R(k \<mapsto> r')) active"
proof -
  have "lease_set (R(k \<mapsto> r')) = lease_set R"
    using assms(3) unfolding lease_set_def ex_map_upd ex_map_split [of R, OF assms(2)] by auto
  then show ?thesis using assms by (auto simp: leases_ok_def split: if_splits)
qed

section \<open>Removing a registration\<close>

lemma remove_registration_frame:
  "shard_directory_of (remove_registration k s) = shard_directory_of s"
  "shard_self_id (remove_registration k s) = shard_self_id s"
  "lease_ttl (remove_registration k s) = lease_ttl s"
  "registration_index (remove_registration k s) = hm_remove k (registration_index s)"
  by (auto simp: remove_registration_def remove_expiry_def Let_def hm_remove_notin split: option.split)

lemma registration_ok_cong:
  "shard_directory_of s' = shard_directory_of s \<Longrightarrow> shard_self_id s' = shard_self_id s \<Longrightarrow>
   registration_ok sha256 s' = registration_ok sha256 s"
  by (intro ext) (simp add: registration_ok_def binding_in_scope_def)

lemma remove_registration_inv:
  assumes "shard_inv sha256 s"
  shows "shard_inv sha256 (remove_registration k s)"
proof (cases "regs s k")
  case None
  then show ?thesis using assms by (simp add: remove_registration_def)
next
  case (Some r)
  note inv = shard_invD [OF assms]
  let ?s = "remove_registration k s"
  have ids: "identities_ok (regs s)" using inv(3) by (rule identities_okI)
  have eqs: "destination_index ?s = remove_bindings (reg_bindings r) (destination_index s)"
    "active_lease_ids ?s = removeAll (reg_lease_id r) (active_lease_ids s)"
    "expiry_index ?s = index_remove removeAll is_empty_list (reg_deadline r) (ExpiryKey k (reg_lease_id r)) (expiry_index s)"
    "binding_count ?s = binding_count s - length (reg_bindings r)"
    "expiry_record_count ?s = expiry_record_count s - 1"
    using Some expiry_ok_present [OF inv(6) Some]
    by (simp_all add: remove_registration_def remove_expiry_def Let_def)
  show ?thesis
    unfolding shard_inv_def remove_registration_frame eqs delete_conv'
    using inv routes_ok_remove [OF inv(4) ids Some] leases_ok_remove [OF inv(5) Some]
      expiry_ok_remove [OF inv(6) Some] hm_sum_remove [OF inv(2) Some, of "\<lambda>r. length (reg_bindings r)"]
      length_hm_remove [OF inv(2), of k]
      Some registration_ok_cong [of ?s s, OF remove_registration_frame(1,2)]
    by (simp add: hm_ok_remove domIff)
qed

section \<open>Expiry\<close>

text \<open>
  \<open>expire_due\<close> pops a bucket of the expiry index before it removes the registrations in it, so in
  between the index lags behind the registrations. The result is the same as removing them one by
  one from the unpopped shard, which keeps the invariant at every step.
\<close>

abbreviation popped :: "(instant, expiry_key list) btreemap \<Rightarrow> nat \<Rightarrow> shard \<Rightarrow> shard" where
  "popped rest n s \<equiv> s\<lparr>expiry_index := rest, expiry_record_count := expiry_record_count s - n\<rparr>"

lemma expiry_bucket_current:
  assumes "shard_inv sha256 s" "expiry_index s = (d, c # cs) # rest"
  obtains k r where "c = ExpiryKey k (reg_lease_id r)" "regs s k = Some r" "reg_deadline r = d"
    "distinct (c # cs)" "map_of rest d = None"
proof -
  have ix: "expiry_ok (regs s) (expiry_index s)" using assms(1) by (rule shard_invD)
  then have ok: "index_ok bt_ok bs_ok is_empty_list (expiry_index s)" by (simp add: expiry_ok_def)
  have "bs_ok (c # cs)" "c \<in> index_members set (expiry_index s) d"
    using deadlines.present_bucket [OF ok, of d "c # cs"] assms(2) by auto
  moreover from this have "c \<in> expiry_entries (regs s) d" using ix by (simp add: expiry_ok_def)
  moreover have "bt_ok (expiry_index s)" using ok by (simp add: index_ok_def)
  ultimately have "c \<in> expiry_entries (regs s) d" "distinct (c # cs)" "map_of rest d = None"
    using assms(2) bt_ok_distinct [of "expiry_index s"] strict_sorted_distinct [of "c # cs"]
    by (auto simp: bs_ok_def map_of_eq_None_iff)
  then show thesis using that by (auto simp: expiry_entries_def)
qed

lemma remove_registration_popped:
  assumes "shard_inv sha256 s" "expiry_index s = (d, c # cs) # rest"
    "c = ExpiryKey k (reg_lease_id r)" "regs s k = Some r" "reg_deadline r = d"
    "distinct (c # cs)" "map_of rest d = None"
  shows "remove_registration k (popped rest (length (c # cs)) s) = popped rest (length cs) (remove_registration k s)"
    and "expiry_index (remove_registration k s) = (if cs = [] then rest else (d, cs) # rest)"
proof -
  have c: "removeAll c (c # cs) = cs" using assms(6) by simp
  show "expiry_index (remove_registration k s) = (if cs = [] then rest else (d, cs) # rest)"
    using assms c by (simp add: remove_registration_def remove_expiry_def index_remove_def Let_def hm_remove_notin)
  show "remove_registration k (popped rest (length (c # cs)) s) = popped rest (length cs) (remove_registration k s)"
    using assms c
    by (simp add: remove_registration_def remove_expiry_def index_remove_def index_members_def Let_def)
qed

lemma expire_candidates_remove:
  assumes "shard_inv sha256 s" "expiry_index s = (if cs = [] then rest else (d, cs) # rest)" "d \<le> now"
  shows "expire_candidates now cs (n, popped rest (length cs) s) =
    (n + length cs, fold (\<lambda>c. remove_registration (expiry_registration_key c)) cs s) \<and>
    length (registration_index (fold (\<lambda>c. remove_registration (expiry_registration_key c)) cs s)) + length cs =
      length (registration_index s)"
  using assms
proof (induction cs arbitrary: n s)
  case (Cons c cs)
  have ix: "expiry_index s = (d, c # cs) # rest" using Cons.prems(2) by simp
  obtain k r where c: "c = ExpiryKey k (reg_lease_id r)" "regs s k = Some r" "reg_deadline r = d"
    and fresh: "distinct (c # cs)" "map_of rest d = None"
    using expiry_bucket_current [OF Cons.prems(1) ix] by blast
  note popped = remove_registration_popped [OF Cons.prems(1) ix c fresh]
  have "expire_candidates now (c # cs) (n, popped rest (length (c # cs)) s) =
      expire_candidates now cs (n + 1, remove_registration k (popped rest (length (c # cs)) s))"
    using c Cons.prems(3) by simp
  also have "\<dots> = expire_candidates now cs (n + 1, popped rest (length cs) (remove_registration k s))"
    by (simp only: popped(1))
  finally have step: "expire_candidates now (c # cs) (n, popped rest (length (c # cs)) s) = \<dots>" .
  have "length (registration_index (remove_registration k s)) + 1 = length (registration_index s)"
    using c(2) length_hm_remove [OF shard_invD(2) [OF Cons.prems(1)], of k] length_pos_if_in_set [OF map_of_SomeD [OF c(2)]]
    by (simp add: remove_registration_frame domIff)
  then show ?case
    using Cons.IH [OF remove_registration_inv [OF Cons.prems(1)] popped(2) Cons.prems(3), of "n + 1"] c(1)
    unfolding step by simp
qed simp

lemma fold_remove_registration:
  "shard_inv sha256 s \<Longrightarrow> shard_inv sha256 (fold (\<lambda>c. remove_registration (key_of c)) cs s)"
  "shard_directory_of (fold (\<lambda>c. remove_registration (key_of c)) cs s) = shard_directory_of s"
  "shard_self_id (fold (\<lambda>c. remove_registration (key_of c)) cs s) = shard_self_id s"
  "lease_ttl (fold (\<lambda>c. remove_registration (key_of c)) cs s) = lease_ttl s"
  "regs (fold (\<lambda>c. remove_registration (key_of c)) cs s) k = (if k \<in> key_of ` set cs then None else regs s k)"
  by (induction cs arbitrary: s)
    (auto simp: remove_registration_inv remove_registration_frame delete_conv')

definition live :: "instant \<Rightarrow> registrations \<Rightarrow> registrations" where
  "live now R k = (case R k of None \<Rightarrow> None | Some r \<Rightarrow> if reg_deadline r \<le> now then None else Some r)"

lemma live_Some: "live now R k = Some r \<longleftrightarrow> R k = Some r \<and> now < reg_deadline r"
  by (auto simp: live_def split: option.split)

lemma deadline_in_index:
  assumes "shard_inv sha256 s" "regs s k = Some r"
  shows "reg_deadline r \<in> fst ` set (expiry_index s)"
proof -
  have "ExpiryKey k (reg_lease_id r) \<in> index_members set (expiry_index s) (reg_deadline r)"
    using expiry_ok_present [OF shard_invD(6) [OF assms(1)] assms(2)] .
  then show ?thesis by (force simp: index_members_def dest: map_of_SomeD split: option.splits)
qed

lemma live_none_due:
  assumes "shard_inv sha256 s" "\<And>d cs rest. expiry_index s = (d, cs) # rest \<Longrightarrow> now < d"
  shows "live now (regs s) = regs s"
proof
  fix k
  show "live now (regs s) k = regs s k"
  proof (cases "regs s k")
    case (Some r)
    have "reg_deadline r \<in> fst ` set (expiry_index s)" by (rule deadline_in_index [OF assms(1) Some])
    moreover have "bt_ok (expiry_index s)"
      using shard_invD(6) [OF assms(1)] by (simp add: expiry_ok_def index_ok_def)
    ultimately have "now < reg_deadline r"
      using assms(2) by (cases "expiry_index s") (auto simp: bt_ok_def dest: order_less_trans)
    then show ?thesis using Some by (simp add: live_def)
  qed (simp add: live_def)
qed

lemma expire_due_correct:
  assumes "shard_inv sha256 s" "expire_due now s = (n, s')"
  shows "shard_inv sha256 s' \<and> regs s' = live now (regs s) \<and>
    n + length (registration_index s') = length (registration_index s) \<and>
    shard_directory_of s' = shard_directory_of s \<and> shard_self_id s' = shard_self_id s \<and> lease_ttl s' = lease_ttl s"
  using assms
proof (induction now s arbitrary: n rule: expire_due.induct)
  case (1 now s)
  show ?case
  proof (cases "\<exists>d cs rest. expiry_index s = (d, cs) # rest \<and> d \<le> now")
    case False
    then have "expire_due now s = (0, s)"
      by (cases "expiry_index s") (auto simp: expire_due.simps [of now s])
    then show ?thesis using 1(2,3) live_none_due [OF 1(2), of now] False by fastforce
  next
    case True
    then obtain d cs rest where ix: "expiry_index s = (d, cs) # rest" and due: "d \<le> now" by blast
    let ?s1 = "fold (\<lambda>c. remove_registration (expiry_registration_key c)) cs s"
    have cs: "cs \<noteq> []" and members: "set cs = expiry_entries (regs s) d"
      using shard_invD(6) [OF 1(2)] deadlines.present_bucket [of "expiry_index s" d cs] ix
      by (auto simp: expiry_ok_def)
    have pop: "expire_candidates now cs (0, popped rest (length cs) s) = (length cs, ?s1)"
      and len: "length (registration_index ?s1) + length cs = length (registration_index s)"
      using expire_candidates_remove [OF 1(2) _ due, of cs rest 0] ix cs by simp_all
    obtain m where m: "expire_due now ?s1 = (m, s')" and n: "n = length cs + m"
      using 1(3) due ix by (auto simp: expire_due.simps [of now s] pop split: prod.splits)
    have "live now (regs ?s1) = live now (regs s)"
      using members due
      by (auto simp: live_def fold_remove_registration(5) expiry_entries_def fun_eq_iff split: option.splits)
    moreover note 1(1) [OF ix refl due pop [symmetric] refl fold_remove_registration(1) [OF 1(2)] m]
    ultimately show ?thesis using n len by (simp add: fold_remove_registration del: fold_remove_registration(5))
  qed
qed

section \<open>Accepting a registration, a snapshot, a renewal\<close>

abbreviation accept_registration :: "registration_key \<Rightarrow> registration_state \<Rightarrow> shard \<Rightarrow> shard" where
  "accept_registration k r s \<equiv>
     insert_expiry k (reg_lease_id r) (reg_deadline r)
       (s\<lparr>registration_index := hm_insert k r (registration_index s),
          active_lease_ids := List.insert (reg_lease_id r) (active_lease_ids s)\<rparr>)"

lemma accept_registration_inv:
  assumes "shard_inv sha256 s" "regs s k = None" "key_shard_id k = shard_self_id s"
    "reg_lease_id r \<notin> set (active_lease_ids s)" "reg_revision r = None" "reg_bindings r = []"
  shows "shard_inv sha256 (accept_registration k r s) \<and> regs (accept_registration k r s) = (regs s)(k \<mapsto> r)"
proof -
  note inv = shard_invD [OF assms(1)]
  let ?s = "accept_registration k r s"
  have eqs: "expiry_index ?s = index_insert bt_insert [] bs_insert (reg_deadline r) (ExpiryKey k (reg_lease_id r)) (expiry_index s)"
    "expiry_record_count ?s = expiry_record_count s + 1" "registration_index ?s = hm_insert k r (registration_index s)"
    "active_lease_ids ?s = List.insert (reg_lease_id r) (active_lease_ids s)"
    "destination_index ?s = destination_index s" "binding_count ?s = binding_count s"
    "shard_directory_of ?s = shard_directory_of s" "shard_self_id ?s = shard_self_id s"
    using expiry_ok_insert(2) [OF inv(6) assms(2)] by (simp_all add: insert_expiry_def Let_def)
  have new: "registration_ok sha256 s k r" using assms(3,5,6) by (simp add: registration_ok_def bt_ok_Nil)
  have "identities_ok ((regs s)(k \<mapsto> r))"
    by (rule identities_okI [of _ sha256 s]) (use inv(3) new in \<open>auto split: if_splits\<close>)
  then have "routes_ok ((regs s)(k \<mapsto> r)) (destination_index s)"
    using routes_ok_insert [OF inv(4) _ assms(2), of r] assms(6) by (simp add: bt_ok_Nil insert_bindings_def)
  then show ?thesis
    unfolding shard_inv_def eqs registration_ok_cong [of ?s s, OF eqs(7,8)]
    using inv leases_ok_insert [OF inv(5) assms(2,4)] expiry_ok_insert(1) [OF inv(6) assms(2)] new
      hm_sum_insert [OF inv(2), of "\<lambda>r. length (reg_bindings r)" k r] assms(2,6)
    by (simp add: hm_ok_insert update_conv' length_hm_insert hm_remove_notin domIff)
qed

abbreviation accept_snapshot :: "registration_key \<Rightarrow> registration_state \<Rightarrow> registration_state \<Rightarrow> shard \<Rightarrow> shard" where
  "accept_snapshot k r r' s \<equiv>
     s\<lparr>registration_index := hm_insert k r' (registration_index s),
       binding_count := binding_count s - length (reg_bindings r) + length (reg_bindings r'),
       destination_index := insert_bindings (reg_bindings r') (remove_bindings (reg_bindings r) (destination_index s))\<rparr>"

lemma accept_snapshot_inv:
  assumes "shard_inv sha256 s" "regs s k = Some r" "registration_ok sha256 s k r'"
    "reg_lease_id r' = reg_lease_id r" "reg_deadline r' = reg_deadline r"
  shows "shard_inv sha256 (accept_snapshot k r r' s) \<and> regs (accept_snapshot k r r' s) = (regs s)(k \<mapsto> r')"
proof -
  note inv = shard_invD [OF assms(1)]
  let ?s = "accept_snapshot k r r' s"
  have ids: "identities_ok (regs s)" by (rule identities_okI [of _ sha256 s]) (rule inv(3))
  have ids': "identities_ok ((regs s)(k \<mapsto> r'))"
    by (rule identities_okI [of _ sha256 s]) (use inv(3) assms(3) in \<open>auto split: if_splits\<close>)
  have "routes_ok (((regs s)(k := None))(k \<mapsto> r'))
      (insert_bindings (reg_bindings r') (remove_bindings (reg_bindings r) (destination_index s)))"
    using ids' assms(3) by (intro routes_ok_insert routes_ok_remove inv ids assms) (simp_all add: registration_ok_def)
  moreover have "expiry_entries ((regs s)(k \<mapsto> r')) = expiry_entries (regs s)"
    using assms(4,5) unfolding expiry_entries_def ex_map_upd ex_map_split [of "regs s", OF assms(2)] by simp
  then have "expiry_ok ((regs s)(k \<mapsto> r')) (expiry_index s)" using inv(6) by (simp add: expiry_ok_def)
  moreover have "registration_ok sha256 ?s = registration_ok sha256 s" by (rule registration_ok_cong) simp_all
  ultimately show ?thesis
    unfolding shard_inv_def
    using inv leases_ok_replace [OF inv(5) assms(2,4)] assms(2,3)
      hm_sum_insert [OF inv(2), of "\<lambda>r. length (reg_bindings r)" k r']
      hm_sum_remove [OF inv(2) assms(2), of "\<lambda>r. length (reg_bindings r)"]
    by (simp add: hm_ok_insert update_conv' length_hm_insert domIff)
qed

abbreviation renew :: "registration_key \<Rightarrow> registration_state \<Rightarrow> instant \<Rightarrow> shard \<Rightarrow> shard" where
  "renew k r t s \<equiv>
     insert_expiry k (reg_lease_id r) t (remove_expiry k (reg_lease_id r) (reg_deadline r)
       (s\<lparr>registration_index := hm_insert k (r\<lparr>reg_deadline := t\<rparr>) (registration_index s)\<rparr>))"

lemma renew_inv:
  assumes "shard_inv sha256 s" "regs s k = Some r"
  shows "shard_inv sha256 (renew k r t s) \<and> regs (renew k r t s) = (regs s)(k \<mapsto> r\<lparr>reg_deadline := t\<rparr>)"
proof -
  note inv = shard_invD [OF assms(1)]
  let ?s = "renew k r t s" and ?r = "r\<lparr>reg_deadline := t\<rparr>"
  let ?ix = "index_remove removeAll is_empty_list (reg_deadline r) (ExpiryKey k (reg_lease_id r)) (expiry_index s)"
  have ix: "expiry_ok ((regs s)(k := None)) ?ix" by (rule expiry_ok_remove [OF inv(6) assms(2)])
  have eqs: "expiry_index ?s = index_insert bt_insert [] bs_insert t (ExpiryKey k (reg_lease_id r)) ?ix"
    "expiry_record_count ?s = expiry_record_count s - 1 + 1"
    "registration_index ?s = hm_insert k ?r (registration_index s)"
    "active_lease_ids ?s = active_lease_ids s"
    "destination_index ?s = destination_index s" "binding_count ?s = binding_count s"
    "shard_directory_of ?s = shard_directory_of s" "shard_self_id ?s = shard_self_id s"
    using expiry_ok_present [OF inv(6) assms(2)] expiry_ok_insert(2) [OF ix]
    by (simp_all add: insert_expiry_def remove_expiry_def Let_def)
  have "expiry_ok ((regs s)(k \<mapsto> ?r)) (expiry_index ?s)"
    using expiry_ok_insert(1) [OF ix, of k ?r] by (simp add: eqs)
  moreover have "route_entries ((regs s)(k \<mapsto> ?r)) = route_entries (regs s)"
    unfolding route_entries_def ex_map_upd ex_map_split [of "regs s", OF assms(2)] by simp
  then have "routes_ok ((regs s)(k \<mapsto> ?r)) (destination_index s)" using inv(4) by (simp add: routes_ok_def)
  moreover have "registration_ok sha256 s k ?r" using inv(3) [OF assms(2)] by (simp add: registration_ok_def)
  moreover have "0 < length (registration_index s)" using assms(2) by (cases "registration_index s") auto
  ultimately show ?thesis
    unfolding shard_inv_def eqs(2-6) registration_ok_cong [of ?s s, OF eqs(7,8)] eqs(7)
    using inv leases_ok_replace [OF inv(5) assms(2), of ?r] assms(2)
      hm_sum_insert [OF inv(2), of "\<lambda>r. length (reg_bindings r)" k ?r]
      hm_sum_remove [OF inv(2) assms(2), of "\<lambda>r. length (reg_bindings r)"]
    by (simp add: hm_ok_insert update_conv' length_hm_insert domIff)
qed

end
