(* ===== verification/Route_Refinement.thy ===== *)
theory Route_Refinement
  imports Route_Invariant
begin

text \<open>
  What a RouteTable shard promises, and that it does. \<open>shard_step\<close> is one request served by a
  shard; \<open>route_spec\<close> is the contract of that request over nothing but the current registrations:
  no index, no counter, no expiry bookkeeping. A lease that is due does not exist any more, only
  the owner changes a registration, revisions grow, and resolution reads the live bindings.
\<close>

section \<open>Requests and replies\<close>

datatype shard_call =
    Register gateway_id generation registration_key
  | Update gateway_id generation registration_key lease_id registration_revision binding_map
  | KeepAlive gateway_id generation registration_key lease_id
  | Deregister gateway_id generation registration_key lease_id
  | Resolve generation destination
  | ExpireDue

datatype shard_reply =
    Refused route_table_error
  | Acked registration_ack
  | Deregistered
  | Resolved "binding_projection list"
  | Expired nat

fun reply_of :: "('a \<Rightarrow> shard_reply) \<Rightarrow> (route_table_error + 'a) \<times> shard \<Rightarrow> shard_reply \<times> shard" where
  "reply_of f (Inl e, s) = (Refused e, s)"
| "reply_of f (Inr x, s) = (f x, s)"

fun shard_step :: "(bytes \<Rightarrow> bytes) \<Rightarrow> uuid list \<Rightarrow> instant \<Rightarrow> shard_call \<Rightarrow> shard \<Rightarrow> (shard_reply \<times> shard) option" where
  "shard_step sha256 draws now (Register ctx gen key) s = map_option (reply_of Acked) (register draws ctx gen key now s)"
| "shard_step sha256 draws now (Update ctx gen key lease revision snap) s =
     Some (reply_of Acked (update sha256 ctx gen key lease revision snap now s))"
| "shard_step sha256 draws now (KeepAlive ctx gen key lease) s = Some (reply_of Acked (keep_alive ctx gen key lease now s))"
| "shard_step sha256 draws now (Deregister ctx gen key lease) s =
     Some (reply_of (\<lambda>_. Deregistered) (deregister ctx gen key lease now s))"
| "shard_step sha256 draws now (Resolve gen d) s = Some (reply_of Resolved (resolve sha256 gen d now s))"
| "shard_step sha256 draws now ExpireDue s = (case expire_due now s of (n, s') \<Rightarrow> Some (Expired n, s'))"

text \<open>A snapshot is built by \<open>BindingSnapshot::new\<close> only.\<close>

fun call_ok :: "shard_call \<Rightarrow> bool" where
  "call_ok (Update ctx gen key lease revision snap) = snapshot_ok snap"
| "call_ok _ = True"

section \<open>The contract\<close>

record route_config =
  spec_generation :: generation
  spec_shard :: shard_id
  spec_ttl :: duration
  spec_authority :: "destination \<Rightarrow> bool"

fun call_owner :: "shard_call \<Rightarrow> (gateway_id \<times> generation \<times> registration_key) option" where
  "call_owner (Register ctx gen key) = Some (ctx, gen, key)"
| "call_owner (Update ctx gen key _ _ _) = Some (ctx, gen, key)"
| "call_owner (KeepAlive ctx gen key _) = Some (ctx, gen, key)"
| "call_owner (Deregister ctx gen key _) = Some (ctx, gen, key)"
| "call_owner _ = None"

definition owned :: "route_config \<Rightarrow> gateway_id \<times> generation \<times> registration_key \<Rightarrow> bool" where
  "owned cfg = (\<lambda>(ctx, gen, key). ctx = key_gateway_id key \<and> gen = spec_generation cfg \<and> key_shard_id key = spec_shard cfg)"

definition owner_refusal :: "route_config \<Rightarrow> gateway_id \<times> generation \<times> registration_key \<Rightarrow> route_table_error \<Rightarrow> bool" where
  "owner_refusal cfg = (\<lambda>(ctx, gen, key) e.
     if ctx \<noteq> key_gateway_id key then e = RoutePermissionDenied
     else if gen \<noteq> spec_generation cfg then \<exists>m. e = RouteFailedPrecondition m
     else key_shard_id key \<noteq> spec_shard cfg \<and> (\<exists>m. e = RouteInvalidArgument m))"

definition snapshot_in_scope :: "route_config \<Rightarrow> registration_key \<Rightarrow> binding_map \<Rightarrow> bool" where
  "snapshot_in_scope cfg key snap \<longleftrightarrow> (\<forall>(i, b) \<in> set snap. identity_gateway_id i = key_gateway_id key \<and>
     identity_session_id i = key_session_id key \<and> spec_authority cfg (projection_destination b))"

definition acceptable :: "registration_state \<Rightarrow> registration_revision \<Rightarrow> binding_map \<Rightarrow> bool" where
  "acceptable r revision snap \<longleftrightarrow> (case reg_revision r of None \<Rightarrow> revision = REVISION_FIRST | Some current \<Rightarrow> current < revision) \<and>
     (\<forall>(i, b) \<in> set snap. map_of (reg_bindings r) i \<in> {None, Some b})"

inductive route_spec :: "route_config \<Rightarrow> instant \<Rightarrow> registrations \<Rightarrow> shard_call \<Rightarrow> shard_reply \<Rightarrow> registrations \<Rightarrow> bool"
  for cfg now R where
  not_owned: "call_owner c = Some w \<Longrightarrow> owner_refusal cfg w e \<Longrightarrow> route_spec cfg now R c (Refused e) R"
| out_of_scope: "\<not> snapshot_in_scope cfg key snap \<Longrightarrow>
    route_spec cfg now R (Update ctx gen key lease revision snap) (Refused (RouteInvalidArgument m)) R"
| register_current: "owned cfg (ctx, gen, key) \<Longrightarrow> live now R key = Some r \<Longrightarrow>
    route_spec cfg now R (Register ctx gen key) (Acked (ack r now)) (live now R)"
| register_overflow: "owned cfg (ctx, gen, key) \<Longrightarrow> live now R key = None \<Longrightarrow>
    instant_checked_add now (spec_ttl cfg) = None \<Longrightarrow>
    route_spec cfg now R (Register ctx gen key) (Refused RouteDeadlineOverflow) (live now R)"
| register_fresh: "owned cfg (ctx, gen, key) \<Longrightarrow> live now R key = None \<Longrightarrow>
    instant_checked_add now (spec_ttl cfg) = Some deadline \<Longrightarrow> lease \<notin> lease_set (live now R) \<Longrightarrow>
    route_spec cfg now R (Register ctx gen key) (Acked (registration_ack_new lease None (spec_ttl cfg)))
      ((live now R)(key \<mapsto> \<lparr>reg_lease_id = lease, reg_revision = None, reg_deadline = deadline, reg_bindings = []\<rparr>))"
| update_no_lease: "owned cfg (ctx, gen, key) \<Longrightarrow> map_option reg_lease_id (live now R key) \<noteq> Some lease \<Longrightarrow>
    route_spec cfg now R (Update ctx gen key lease revision snap) (Refused (RouteFailedPrecondition m)) (live now R)"
| update_retry: "owned cfg (ctx, gen, key) \<Longrightarrow> live now R key = Some r \<Longrightarrow> reg_lease_id r = lease \<Longrightarrow>
    reg_revision r = Some revision \<Longrightarrow> reg_bindings r = snap \<Longrightarrow>
    route_spec cfg now R (Update ctx gen key lease revision snap) (Acked (ack r now)) (live now R)"
| update_conflict: "owned cfg (ctx, gen, key) \<Longrightarrow> live now R key = Some r \<Longrightarrow> reg_lease_id r = lease \<Longrightarrow>
    \<not> acceptable r revision snap \<Longrightarrow>
    route_spec cfg now R (Update ctx gen key lease revision snap) (Refused (RouteFailedPrecondition m)) (live now R)"
| update_accepted: "owned cfg (ctx, gen, key) \<Longrightarrow> live now R key = Some r \<Longrightarrow> reg_lease_id r = lease \<Longrightarrow>
    acceptable r revision snap \<Longrightarrow> snapshot_in_scope cfg key snap \<Longrightarrow>
    route_spec cfg now R (Update ctx gen key lease revision snap)
      (Acked (registration_ack_new lease (Some revision) (reg_deadline r - now)))
      ((live now R)(key \<mapsto> r\<lparr>reg_bindings := snap, reg_revision := Some revision\<rparr>))"
| keep_alive_no_lease: "owned cfg (ctx, gen, key) \<Longrightarrow> map_option reg_lease_id (live now R key) \<noteq> Some lease \<Longrightarrow>
    route_spec cfg now R (KeepAlive ctx gen key lease) (Refused (RouteFailedPrecondition m)) (live now R)"
| keep_alive_overflow: "owned cfg (ctx, gen, key) \<Longrightarrow> map_option reg_lease_id (live now R key) = Some lease \<Longrightarrow>
    instant_checked_add now (spec_ttl cfg) = None \<Longrightarrow>
    route_spec cfg now R (KeepAlive ctx gen key lease) (Refused RouteDeadlineOverflow) (live now R)"
| keep_alive_renewed: "owned cfg (ctx, gen, key) \<Longrightarrow> live now R key = Some r \<Longrightarrow> reg_lease_id r = lease \<Longrightarrow>
    instant_checked_add now (spec_ttl cfg) = Some deadline \<Longrightarrow>
    route_spec cfg now R (KeepAlive ctx gen key lease)
      (Acked (registration_ack_new lease (reg_revision r) (spec_ttl cfg)))
      ((live now R)(key \<mapsto> r\<lparr>reg_deadline := deadline\<rparr>))"
| deregister_absent: "owned cfg (ctx, gen, key) \<Longrightarrow> live now R key = None \<Longrightarrow>
    route_spec cfg now R (Deregister ctx gen key lease) Deregistered (live now R)"
| deregister_other: "owned cfg (ctx, gen, key) \<Longrightarrow> live now R key = Some r \<Longrightarrow> reg_lease_id r \<noteq> lease \<Longrightarrow>
    route_spec cfg now R (Deregister ctx gen key lease) (Refused (RouteFailedPrecondition m)) (live now R)"
| deregister_done: "owned cfg (ctx, gen, key) \<Longrightarrow> map_option reg_lease_id (live now R key) = Some lease \<Longrightarrow>
    route_spec cfg now R (Deregister ctx gen key lease) Deregistered ((live now R)(key := None))"
| resolve_stale: "gen \<noteq> spec_generation cfg \<Longrightarrow>
    route_spec cfg now R (Resolve gen d) (Refused (RouteFailedPrecondition m)) R"
| resolve_elsewhere: "gen = spec_generation cfg \<Longrightarrow> \<not> spec_authority cfg d \<Longrightarrow>
    route_spec cfg now R (Resolve gen d) (Refused (RouteInvalidArgument m)) R"
| resolve_none: "gen = spec_generation cfg \<Longrightarrow> spec_authority cfg d \<Longrightarrow> route_entries (live now R) d = {} \<Longrightarrow>
    route_spec cfg now R (Resolve gen d) (Refused RouteNotFound) (live now R)"
| resolve_found: "gen = spec_generation cfg \<Longrightarrow> spec_authority cfg d \<Longrightarrow> bs \<noteq> [] \<Longrightarrow> distinct bs \<Longrightarrow>
    set bs = snd ` route_entries (live now R) d \<Longrightarrow>
    route_spec cfg now R (Resolve gen d) (Resolved bs) (live now R)"
| expire: "n + card (dom (live now R)) = card (dom R) \<Longrightarrow> route_spec cfg now R ExpireDue (Expired n) (live now R)"

inductive_cases resolve_specE: "route_spec cfg now R (Resolve gen d) reply R'"

section \<open>The shard keeps its contract\<close>

definition config_of :: "(bytes \<Rightarrow> bytes) \<Rightarrow> shard \<Rightarrow> route_config" where
  "config_of sha256 s =
     \<lparr>spec_generation = directory_generation (shard_directory_of s), spec_shard = shard_self_id s,
      spec_ttl = lease_ttl s,
      spec_authority = (\<lambda>d. map_option record_id (authority sha256 (shard_directory_of s) d) = Some (shard_self_id s))\<rparr>"

lemma owner_checks:
  "(case and_then (validate_authenticated_owner ctx key) (\<lambda>_.
      and_then (validate_generation gen s) (\<lambda>_. validate_registration_scope key s)) of
      Inl e \<Rightarrow> owner_refusal (config_of sha256 s) (ctx, gen, key) e
    | Inr _ \<Rightarrow> owned (config_of sha256 s) (ctx, gen, key))"
  by (simp add: validate_authenticated_owner_def validate_generation_def validate_registration_scope_def
      owner_refusal_def owned_def config_of_def)

lemma validate_snapshot_iff:
  assumes "\<forall>(i, b) \<in> set snap. projection_identity b = i"
  shows "(case validate_snapshot sha256 key snap s of
      Inl e \<Rightarrow> (\<exists>m. e = RouteInvalidArgument m) \<and> \<not> snapshot_in_scope (config_of sha256 s) key snap
    | Inr _ \<Rightarrow> snapshot_in_scope (config_of sha256 s) key snap)"
  using assms
  by (induction sha256 key snap s rule: validate_snapshot.induct)
    (auto simp: snapshot_in_scope_def config_of_def validate_destination_authority_def Let_def
      split: sum.splits if_splits)

lemma validate_identity_stability_iff:
  "(case validate_identity_stability current snap of
      Inl e \<Rightarrow> (\<exists>m. e = RouteFailedPrecondition m) \<and> \<not> (\<forall>(i, b) \<in> set snap. map_of current i \<in> {None, Some b})
    | Inr _ \<Rightarrow> (\<forall>(i, b) \<in> set snap. map_of current i \<in> {None, Some b}))"
  by (induction current snap rule: validate_identity_stability.induct)
    (auto split: sum.splits option.splits if_splits)

lemma expire_due_live:
  assumes "shard_inv sha256 s"
  obtains s1 where "snd (expire_due now s) = s1" "shard_inv sha256 s1" "regs s1 = live now (regs s)"
    "config_of sha256 s1 = config_of sha256 s"
  using expire_due_correct [OF assms, of now "fst (expire_due now s)" "snd (expire_due now s)"] that
  by (simp add: config_of_def)

abbreviation refines where
  "refines sha256 now s c reply s' \<equiv> shard_inv sha256 s' \<and> config_of sha256 s' = config_of sha256 s \<and>
     route_spec (config_of sha256 s) now (regs s) c reply (regs s')"

lemma deadline_from_cases:
  "(case deadline_from ttl now of
      Inl e \<Rightarrow> e = RouteDeadlineOverflow \<and> instant_checked_add now ttl = None
    | Inr t \<Rightarrow> instant_checked_add now ttl = Some t)"
  by (simp add: deadline_from_def split: option.split)

lemma current_registration_cases:
  "(case current_registration key lease s of
      Inl e \<Rightarrow> (\<exists>m. e = RouteFailedPrecondition m) \<and> map_option reg_lease_id (regs s key) \<noteq> Some lease
    | Inr r \<Rightarrow> regs s key = Some r \<and> reg_lease_id r = lease)"
  by (simp add: current_registration_def check_lease_def lease_not_active_def split: option.split)

text \<open>The checks all owner operations start with, and the expiry behind them.\<close>

lemma owner_gate:
  assumes "shard_inv sha256 s"
  obtains (refused) e where "and_then (validate_authenticated_owner ctx key) (\<lambda>_.
        and_then (validate_generation gen s) (\<lambda>_. validate_registration_scope key s)) = Inl e"
      "\<And>c. call_owner c = Some (ctx, gen, key) \<Longrightarrow> refines sha256 now s c (Refused e) s"
  | (admitted) s1 where "and_then (validate_authenticated_owner ctx key) (\<lambda>_.
        and_then (validate_generation gen s) (\<lambda>_. validate_registration_scope key s)) = Inr ()"
      "owned (config_of sha256 s) (ctx, gen, key)" "snd (expire_due now s) = s1"
      "shard_inv sha256 s1" "regs s1 = live now (regs s)" "config_of sha256 s1 = config_of sha256 s"
      "lease_ttl s1 = spec_ttl (config_of sha256 s)" "key_shard_id key = shard_self_id s1"
proof (cases "and_then (validate_authenticated_owner ctx key) (\<lambda>_.
    and_then (validate_generation gen s) (\<lambda>_. validate_registration_scope key s))")
  case (Inl e)
  then show thesis
    using refused assms owner_checks [of sha256 s ctx gen key] by (auto intro: route_spec.not_owned)
next
  case (Inr u)
  then have own: "owned (config_of sha256 s) (ctx, gen, key)"
    using owner_checks [of sha256 s ctx gen key] by simp
  obtain s1 where s1: "snd (expire_due now s) = s1" "shard_inv sha256 s1" "regs s1 = live now (regs s)"
    "config_of sha256 s1 = config_of sha256 s"
    by (rule expire_due_live [OF assms])
  have "lease_ttl s1 = spec_ttl (config_of sha256 s)" "key_shard_id key = shard_self_id s1"
    using own unfolding s1(4) [symmetric] by (simp_all add: config_of_def owned_def)
  then show thesis using admitted Inr own s1 by simp
qed

lemma register_refines:
  assumes inv: "shard_inv sha256 s" and call: "register draws ctx gen key now s = Some (res, s')"
  shows "refines sha256 now s (Register ctx gen key) (fst (reply_of Acked (res, s'))) s'"
  using inv
proof (cases rule: owner_gate [where ctx = ctx and key = key and gen = gen and now = now])
  case (refused e)
  then have "res = Inl e \<and> s' = s" using call by (simp add: register_def)
  then show ?thesis using refused(2) [of "Register ctx gen key"] by simp
next
  case s1: (admitted s1)
  note own = s1(2) and ttl = s1(7)
  note body = call [unfolded register_def s1(1) sum.case(2) s1(3) Let_def]
  show ?thesis
  proof (cases "regs s1 key")
    case (Some r)
    then show ?thesis using body s1 by (auto intro: route_spec.register_current)
  next
    case None
    show ?thesis
    proof (cases "deadline_from (lease_ttl s1) now")
      case (Inl e)
      then show ?thesis
        using body s1 None deadline_from_cases [of now "lease_ttl s1"]
        by (auto intro: route_spec.register_overflow)
    next
      case (Inr deadline)
      let ?new = "\<lambda>lease. \<lparr>reg_lease_id = lease, reg_revision = None, reg_deadline = deadline, reg_bindings = []\<rparr>"
      obtain lease where lease: "unique_lease_id draws s1 = Some lease"
        and s': "s' = accept_registration key (?new lease) s1"
        and res: "res = Inr (registration_ack_new lease None (lease_ttl s1))"
        using body None Inr by (auto simp: insert_expiry_def Let_def split: option.splits)
      have fresh: "lease \<notin> set (active_lease_ids s1)" using lease by (auto simp: unique_lease_id_def find_Some_iff)
      then have "lease \<notin> lease_set (regs s1)" using shard_invD(5) [OF s1(4)] by (simp add: leases_ok_def)
      then have "route_spec (config_of sha256 s) now (regs s) (Register ctx gen key)
          (Acked (registration_ack_new lease None (spec_ttl (config_of sha256 s)))) ((regs s1)(key \<mapsto> ?new lease))"
        using own None Inr ttl deadline_from_cases [of now "lease_ttl s1"]
        unfolding s1(5) by (intro route_spec.register_fresh) simp_all
      moreover have "shard_inv sha256 s' \<and> regs s' = (regs s1)(key \<mapsto> ?new lease)"
        unfolding s' by (rule accept_registration_inv [OF s1(4) None s1(8)]) (use fresh in simp_all)
      moreover have "config_of sha256 s' = config_of sha256 s1" by (simp add: s' config_of_def insert_expiry_def Let_def)
      ultimately show ?thesis by (simp only: s1(6) res ttl reply_of.simps fst_conv)
    qed
  qed
qed

lemma snapshot_registration_ok:
  assumes "snapshot_ok snap" "snapshot_in_scope (config_of sha256 s) key snap" "key_shard_id key = shard_self_id s"
  shows "registration_ok sha256 s key (r\<lparr>reg_bindings := snap, reg_revision := Some v\<rparr>)"
  using assms by (auto simp: registration_ok_def snapshot_ok_def snapshot_in_scope_def binding_in_scope_def config_of_def)

text \<open>The part of \<open>update\<close> behind the validations, on the expired shard.\<close>

lemma update_current:
  assumes s1: "shard_inv sha256 s1" "regs s1 = live now (regs s)" "config_of sha256 s1 = config_of sha256 s"
    and r: "regs s1 key = Some r" "reg_lease_id r = lease"
    and own: "owned (config_of sha256 s) (ctx, gen, key)" and snap: "snapshot_ok snap"
    and scoped: "snapshot_in_scope (config_of sha256 s) key snap"
    and ok: "acceptable r revision snap"
  shows "refines sha256 now s (Update ctx gen key lease revision snap)
    (Acked (registration_ack_new lease (Some revision) (saturating_duration_since (reg_deadline r) now)))
    (accept_snapshot key r (r\<lparr>reg_bindings := snap, reg_revision := Some revision\<rparr>) s1)"
proof -
  let ?r = "r\<lparr>reg_bindings := snap, reg_revision := Some revision\<rparr>"
  let ?s = "accept_snapshot key r ?r s1"
  have "key_shard_id key = shard_self_id s1"
    using own unfolding s1(3) [symmetric] by (simp add: owned_def config_of_def)
  then have "registration_ok sha256 s1 key ?r"
    using snapshot_registration_ok [OF snap] scoped s1(3) by simp
  then have "shard_inv sha256 ?s \<and> regs ?s = (regs s1)(key \<mapsto> ?r)"
    by (intro accept_snapshot_inv [OF s1(1) r(1)]) simp_all
  moreover have "config_of sha256 ?s = config_of sha256 s1" by (simp add: config_of_def)
  moreover have "route_spec (config_of sha256 s) now (regs s) (Update ctx gen key lease revision snap)
      (Acked (registration_ack_new lease (Some revision) (reg_deadline r - now))) ((regs s1)(key \<mapsto> ?r))"
    using own r ok scoped unfolding s1(2) by (intro route_spec.update_accepted)
  ultimately show ?thesis by (simp only: s1(3) saturating_duration_since_def)
qed

lemma update_refines:
  assumes inv: "shard_inv sha256 s" and snap: "snapshot_ok snap"
    and call: "update sha256 ctx gen key lease revision snap now s = (res, s')"
  shows "refines sha256 now s (Update ctx gen key lease revision snap) (fst (reply_of Acked (res, s'))) s'"
proof (cases "and_then (validate_authenticated_owner ctx key) (\<lambda>_.
    and_then (validate_generation gen s) (\<lambda>_. validate_registration_scope key s))")
  case (Inl e)
  then have "res = Inl e" "s' = s"
    using call by (auto simp: update_def and_then_def split: sum.splits)
  then show ?thesis
    using Inl inv owner_checks [of sha256 s ctx gen key] by (auto intro!: route_spec.not_owned)
next
  case (Inr u)
  then have own: "owned (config_of sha256 s) (ctx, gen, key)"
    using owner_checks [of sha256 s ctx gen key] by simp
  have ids: "\<forall>(i, b) \<in> set snap. projection_identity b = i" using snap by (simp add: snapshot_ok_def)
  note scope = validate_snapshot_iff [OF ids, of sha256 s key]
  show ?thesis
  proof (cases "validate_snapshot sha256 key snap s")
    case v: (Inl e)
    then have "res = Inl e" "s' = s" using call Inr by (auto simp: update_def and_then_def split: sum.splits)
    then show ?thesis using v inv scope by (auto intro: route_spec.out_of_scope)
  next
    case v: (Inr _)
    then have scoped: "snapshot_in_scope (config_of sha256 s) key snap" using scope by simp
    obtain s1 where s1: "snd (expire_due now s) = s1" "shard_inv sha256 s1" "regs s1 = live now (regs s)"
      "config_of sha256 s1 = config_of sha256 s"
      by (rule expire_due_live [OF inv])
    have validated: "and_then (validate_authenticated_owner ctx key) (\<lambda>_.
        and_then (validate_generation gen s) (\<lambda>_.
        and_then (validate_registration_scope key s) (\<lambda>_. validate_snapshot sha256 key snap s))) = Inr ()"
      using Inr v by (auto simp: and_then_Inr)
    note body = call [unfolded update_def validated sum.case(2) s1(1) Let_def]
    show ?thesis
    proof (cases "current_registration key lease s1")
      case (Inl e)
      then show ?thesis
        using body s1 own current_registration_cases [of s1 key lease] by (auto intro!: route_spec.update_no_lease)
    next
      case (Inr r)
      then have r: "regs s1 key = Some r" "reg_lease_id r = lease"
        using current_registration_cases [of s1 key lease] by simp_all
      show ?thesis
      proof (cases "acceptable r revision snap")
        case True
        then have "s' = accept_snapshot key r (r\<lparr>reg_bindings := snap, reg_revision := Some revision\<rparr>) s1"
          "res = Inr (registration_ack_new lease (Some revision) (saturating_duration_since (reg_deadline r) now))"
          using body Inr validate_identity_stability_iff [of snap "reg_bindings r"]
          by (auto simp: acceptable_def split: option.splits if_splits sum.splits)
        then show ?thesis using update_current [OF s1(2-4) r own snap scoped True] by simp
      next
        case False
        have refused: "route_spec (config_of sha256 s) now (regs s) (Update ctx gen key lease revision snap)
            (Refused (RouteFailedPrecondition m)) (live now (regs s))" for m
          using own r False unfolding s1(3) by (rule route_spec.update_conflict)
        have retry: "reg_revision r = Some revision \<Longrightarrow> reg_bindings r = snap \<Longrightarrow>
            route_spec (config_of sha256 s) now (regs s) (Update ctx gen key lease revision snap)
            (Acked (ack r now)) (live now (regs s))"
          using own r unfolding s1(3) by (rule route_spec.update_retry)
        show ?thesis
          using body Inr False s1 refused retry validate_identity_stability_iff [of snap "reg_bindings r"]
          by (auto simp: acceptable_def split: option.splits if_splits sum.splits)
      qed
    qed
  qed
qed

lemma keep_alive_refines:
  assumes inv: "shard_inv sha256 s" and call: "keep_alive ctx gen key lease now s = (res, s')"
  shows "refines sha256 now s (KeepAlive ctx gen key lease) (fst (reply_of Acked (res, s'))) s'"
  using inv
proof (cases rule: owner_gate [where ctx = ctx and key = key and gen = gen and now = now])
  case (refused e)
  then have "res = Inl e \<and> s' = s" using call by (simp add: keep_alive_def)
  then show ?thesis using refused(2) [of "KeepAlive ctx gen key lease"] by simp
next
  case s1: (admitted s1)
  note own = s1(2) and ttl = s1(7)
  note body = call [unfolded keep_alive_def s1(1) sum.case(2) s1(3) Let_def]
  show ?thesis
  proof (cases "current_registration key lease s1")
    case (Inl e)
    then show ?thesis
      using body s1 current_registration_cases [of s1 key lease] by (auto intro!: route_spec.keep_alive_no_lease)
  next
    case r: (Inr r)
    then have r': "regs s1 key = Some r" "reg_lease_id r = lease"
      using current_registration_cases [of s1 key lease] by simp_all
    show ?thesis
    proof (cases "deadline_from (lease_ttl s1) now")
      case (Inl e)
      then show ?thesis
        using body s1 r r' deadline_from_cases [of now "lease_ttl s1"]
        by (auto intro!: route_spec.keep_alive_overflow)
    next
      case (Inr t)
      then have s': "s' = renew key r t s1" and res: "res = Inr (registration_ack_new lease (reg_revision r) (lease_ttl s1))"
        using body r r' by (auto simp: insert_expiry_def remove_expiry_def Let_def)
      have "route_spec (config_of sha256 s) now (regs s) (KeepAlive ctx gen key lease)
          (Acked (registration_ack_new lease (reg_revision r) (spec_ttl (config_of sha256 s))))
          ((regs s1)(key \<mapsto> r\<lparr>reg_deadline := t\<rparr>))"
        using own Inr ttl r' deadline_from_cases [of now "lease_ttl s1"]
        unfolding s1(5) by (intro route_spec.keep_alive_renewed) simp_all
      moreover have "shard_inv sha256 s' \<and> regs s' = (regs s1)(key \<mapsto> r\<lparr>reg_deadline := t\<rparr>)"
        unfolding s' by (rule renew_inv [OF s1(4) r'(1)])
      moreover have "config_of sha256 s' = config_of sha256 s1"
        by (simp add: s' config_of_def insert_expiry_def remove_expiry_def Let_def)
      ultimately show ?thesis by (simp only: s1(6) res ttl reply_of.simps fst_conv)
    qed
  qed
qed

lemma deregister_refines:
  assumes inv: "shard_inv sha256 s" and call: "deregister ctx gen key lease now s = (res, s')"
  shows "refines sha256 now s (Deregister ctx gen key lease) (fst (reply_of (\<lambda>_. Deregistered) (res, s'))) s'"
  using inv
proof (cases rule: owner_gate [where ctx = ctx and key = key and gen = gen and now = now])
  case (refused e)
  then have "res = Inl e \<and> s' = s" using call by (simp add: deregister_def)
  then show ?thesis using refused(2) [of "Deregister ctx gen key lease"] by simp
next
  case s1: (admitted s1)
  note body = call [unfolded deregister_def s1(1) sum.case(2) s1(3) Let_def]
  show ?thesis
  proof (cases "map_option reg_lease_id (regs s1 key) = Some lease")
    case True
    then have s': "s' = remove_registration key s1" "res = Inr ()" using body by (auto split: option.splits if_splits)
    have "config_of sha256 s' = config_of sha256 s1" by (simp add: s' config_of_def remove_registration_frame)
    moreover have "regs s' = (regs s1)(key := None)" by (simp only: s' remove_registration_frame delete_conv')
    moreover have "route_spec (config_of sha256 s) now (regs s) (Deregister ctx gen key lease) Deregistered ((regs s1)(key := None))"
      using s1(2) True unfolding s1(5) by (rule route_spec.deregister_done)
    ultimately show ?thesis
      using remove_registration_inv [OF s1(4), of key] by (simp only: s1(6) s'(2) reply_of.simps fst_conv) (simp add: s')
  next
    case False
    then show ?thesis
      using body s1(2,4,5,6) by (auto split: option.splits if_splits
          intro: route_spec.deregister_absent route_spec.deregister_other)
  qed
qed

lemma resolve_refines:
  assumes inv: "shard_inv sha256 s" and call: "resolve sha256 gen d now s = (res, s')"
  shows "refines sha256 now s (Resolve gen d) (fst (reply_of Resolved (res, s'))) s'"
proof (cases "gen = spec_generation (config_of sha256 s) \<and> spec_authority (config_of sha256 s) d")
  case False
  note checks = validate_generation_def validate_destination_authority_def
  show ?thesis
  proof (cases "gen = spec_generation (config_of sha256 s)")
    case True
    then have "res = Inl (RouteInvalidArgument ''Destination belongs to a different authority shard'')" "s' = s"
      using False call by (auto simp: resolve_def checks config_of_def split: if_splits)
    then show ?thesis using inv True False by (auto intro: route_spec.resolve_elsewhere)
  next
    case stale: False
    then have "res = Inl (RouteFailedPrecondition ''ShardDirectoryGeneration mismatch'')" "s' = s"
      using call by (auto simp: resolve_def checks config_of_def split: if_splits)
    then show ?thesis using inv stale by (auto intro: route_spec.resolve_stale)
  qed
next
  case True
  then have "and_then (validate_generation gen s) (\<lambda>_. validate_destination_authority sha256 d s) = Inr ()"
    by (simp add: validate_generation_def validate_destination_authority_def config_of_def)
  moreover obtain s1 where s1: "snd (expire_due now s) = s1" "shard_inv sha256 s1" "regs s1 = live now (regs s)"
    "config_of sha256 s1 = config_of sha256 s"
    by (rule expire_due_live [OF inv])
  ultimately have body: "(case hm_get (destination_index s1) d of
      None \<Rightarrow> (Inl RouteNotFound, s1)
    | Some bindings \<Rightarrow> if bindings = [] then (Inl RouteNotFound, s1) else (Inr (map snd bindings), s1)) = (res, s')"
    using call by (simp add: resolve_def)
  have ix: "index_ok hm_ok bt_ok is_empty_list (destination_index s1)"
    "index_members set (destination_index s1) d = route_entries (live now (regs s)) d"
    using shard_invD(4) [OF s1(2)] s1(3) by (simp_all add: routes_ok_def)
  show ?thesis
  proof (cases "hm_get (destination_index s1) d")
    case None
    then have "route_entries (live now (regs s)) d = {}" using ix by (simp add: index_members_def)
    then show ?thesis using None body s1 True by (auto intro: route_spec.resolve_none)
  next
    case (Some m)
    have m: "bt_ok m" "set m = route_entries (live now (regs s)) d" "m \<noteq> []"
      using routes.present_bucket [OF ix(1) Some] ix(2) by auto
    have "\<forall>e \<in> set m. projection_identity (snd e) = fst e"
      using shard_invD(3) [OF s1(2)] unfolding m(2) s1(3) [symmetric]
      by (force simp: route_entries_def registration_ok_def binding_in_scope_def)
    then have "inj_on snd (set m)" by (metis (mono_tags, lifting) inj_onI prod.collapse)
    then have "distinct (map snd m)"
      using bt_ok_distinct [OF m(1)] by (simp add: distinct_map)
    then have "route_spec (config_of sha256 s) now (regs s) (Resolve gen d) (Resolved (map snd m)) (live now (regs s))"
      using True m(2,3) by (intro route_spec.resolve_found) simp_all
    then show ?thesis using Some body s1 m(3) by auto
  qed
qed

lemma expire_refines:
  assumes "shard_inv sha256 s" "expire_due now s = (n, s')"
  shows "refines sha256 now s ExpireDue (Expired n) s'"
proof -
  note E = expire_due_correct [OF assms]
  have "card (dom (regs x)) = length (registration_index x)" if "shard_inv sha256 x" for x
    by (rule card_dom_hm [OF shard_invD(2) [OF that]])
  then have "n + card (dom (live now (regs s))) = card (dom (regs s))"
    using E assms(1) by metis
  then show ?thesis using E by (auto simp: config_of_def intro: route_spec.expire)
qed

text \<open>One theorem for all requests, which the properties below read off.\<close>

lemma shard_step_refines:
  assumes "shard_inv sha256 s" "call_ok c" "shard_step sha256 draws now c s = Some (reply, s')"
  shows "refines sha256 now s c reply s'"
proof (cases c)
  case (Register ctx gen key)
  then obtain res where "register draws ctx gen key now s = Some (res, s')" "reply = fst (reply_of Acked (res, s'))"
    using assms(3) by (auto elim!: reply_of.elims)
  then show ?thesis using register_refines [OF assms(1)] Register by blast
next
  case (Update ctx gen key lease revision snap)
  obtain res s2 where u: "update sha256 ctx gen key lease revision snap now s = (res, s2)" by fastforce
  then have "s2 = s'" "reply = fst (reply_of Acked (res, s'))"
    using assms(3) Update by (cases res; simp)+
  then show ?thesis using update_refines [OF assms(1) _ u] Update assms(2) by simp
next
  case (KeepAlive ctx gen key lease)
  obtain res s2 where u: "keep_alive ctx gen key lease now s = (res, s2)" by fastforce
  then have "s2 = s'" "reply = fst (reply_of Acked (res, s'))"
    using assms(3) KeepAlive by (cases res; simp)+
  then show ?thesis using keep_alive_refines [OF assms(1) u] KeepAlive by simp
next
  case (Deregister ctx gen key lease)
  obtain res s2 where u: "deregister ctx gen key lease now s = (res, s2)" by fastforce
  then have "s2 = s'" "reply = fst (reply_of (\<lambda>_. Deregistered) (res, s'))"
    using assms(3) Deregister by (cases res; simp)+
  then show ?thesis using deregister_refines [OF assms(1) u] Deregister by simp
next
  case (Resolve gen d)
  obtain res s2 where u: "resolve sha256 gen d now s = (res, s2)" by fastforce
  then have "s2 = s'" "reply = fst (reply_of Resolved (res, s'))"
    using assms(3) Resolve by (cases res; simp)+
  then show ?thesis using resolve_refines [OF assms(1) u] Resolve by simp
next
  case ExpireDue
  then show ?thesis using assms(3) expire_refines [OF assms(1)] by (auto split: prod.splits)
qed

end
