(* ===== verification/Route_Properties.thy ===== *)
theory Route_Properties
  imports Route_Refinement
begin

text \<open>
  The properties of a running RouteTable shard: a shard is started from an accepted directory and
  then serves requests in any order, at any clock readings. The simulation by \<open>route_spec\<close> holds
  in every state it reaches; ownership, monotone revisions, stable binding identities, exact
  resolution and exact expiry scheduling are consequences.
\<close>

section \<open>The running shard\<close>

definition shard_init :: "(bytes \<Rightarrow> bytes) \<Rightarrow> shard \<Rightarrow> bool" where
  "shard_init sha256 s \<longleftrightarrow> (\<exists>from_slice bs dir sid ttl.
     from_json_bytes from_slice sha256 bs = Inr dir \<and> shard_new dir sid ttl = Inr s)"

type_synonym shard_event = "uuid list \<times> instant \<times> shard_call \<times> shard_reply"

definition shard_trans :: "(bytes \<Rightarrow> bytes) \<Rightarrow> shard \<Rightarrow> shard_event \<Rightarrow> shard \<Rightarrow> bool" where
  "shard_trans sha256 s = (\<lambda>(draws, now, c, reply) s'.
     call_ok c \<and> shard_step sha256 draws now c s = Some (reply, s'))"

type_synonym spec_state = "route_config \<times> registrations"

definition spec_init :: "spec_state \<Rightarrow> bool" where
  "spec_init = (\<lambda>(cfg, R). R = Map.empty)"

definition spec_trans :: "spec_state \<Rightarrow> shard_event \<Rightarrow> spec_state \<Rightarrow> bool" where
  "spec_trans = (\<lambda>(cfg, R) (draws, now, c, reply) (cfg', R'). cfg' = cfg \<and> route_spec cfg now R c reply R')"

definition spec_of :: "(bytes \<Rightarrow> bytes) \<Rightarrow> shard \<Rightarrow> spec_state" where
  "spec_of sha256 s = (config_of sha256 s, regs s)"

lemma shard_init_inv: "shard_init sha256 s \<Longrightarrow> shard_inv sha256 s \<and> regs s = Map.empty"
  by (auto simp: shard_init_def shard_new_def shard_inv_def routes_ok_def leases_ok_def expiry_ok_def
      lease_set_def route_entries_def expiry_entries_def routes.empty_index deadlines.empty_index
      index_members_def hm_ok_Nil from_json_bytes_ok split: option.splits)

interpretation shard_sim:
  simulation "shard_init sha256" "shard_trans sha256" "shard_inv sha256" spec_init spec_trans "spec_of sha256"
proof
  show "shard_inv sha256 s" if "shard_init sha256 s" for s using shard_init_inv [OF that] by blast
  show "spec_init (spec_of sha256 s)" if "shard_init sha256 s" for s
    using shard_init_inv [OF that] by (simp add: spec_init_def spec_of_def)
  show "shard_inv sha256 t" if "shard_inv sha256 s" "shard_trans sha256 s e t" for s e t
    using that shard_step_refines [OF that(1)] by (cases e) (auto simp: shard_trans_def)
  show "spec_trans (spec_of sha256 s) e (spec_of sha256 t)" if "shard_inv sha256 s" "shard_trans sha256 s e t" for s e t
    using that shard_step_refines [OF that(1)] by (cases e) (auto simp: shard_trans_def spec_trans_def spec_of_def)
qed

abbreviation shard_reach :: "(bytes \<Rightarrow> bytes) \<Rightarrow> shard \<Rightarrow> bool" where
  "shard_reach sha256 \<equiv> reach (shard_init sha256) (shard_trans sha256)"

lemma reached_step:
  assumes "shard_reach sha256 s" "call_ok c" "shard_step sha256 draws now c s = Some (reply, s')"
  shows "shard_inv sha256 s" "shard_inv sha256 s'" "config_of sha256 s' = config_of sha256 s"
    "route_spec (config_of sha256 s) now (regs s) c reply (regs s')"
  using shard_sim.reach_inv [OF assms(1)] shard_step_refines [OF _ assms(2,3)] by blast+

text \<open>A concrete shard, for the witnesses: one shard, one registration, clock at zero.\<close>

definition sample_directory :: shard_directory where
  "sample_directory = \<lparr>directory_generation = ''g'', directory_shards = [\<lparr>record_id = ''s0'', record_endpoint = ''h:1''\<rparr>]\<rparr>"

definition sample_sha256 :: "bytes \<Rightarrow> bytes" where
  "sample_sha256 bs = ''g''"

definition sample_shard :: shard where
  "sample_shard = \<lparr>shard_directory_of = sample_directory, shard_self_id = ''s0'', lease_ttl = 10,
     destination_index = [], registration_index = [], active_lease_ids = [],
     expiry_index = [], binding_count = 0, expiry_record_count = 0\<rparr>"

definition sample_key :: registration_key where
  "sample_key = RegistrationKey 1 2 ''s0''"

definition sample_registered :: shard where
  "sample_registered = sample_shard\<lparr>
     registration_index := [(sample_key, \<lparr>reg_lease_id = 7, reg_revision = None, reg_deadline = 10, reg_bindings = []\<rparr>)],
     active_lease_ids := [7], expiry_index := [(10, [ExpiryKey sample_key 7])], expiry_record_count := 1\<rparr>"

lemma sample_init: "shard_init sample_sha256 sample_shard"
proof -
  let ?doc = "\<lparr>format_version = 2, authority_hash = AUTHORITY_HASH,
    document_shards = [\<lparr>document_id = ''s0'', document_endpoint = ''h:1''\<rparr>]\<rparr>"
  have "from_json_bytes (\<lambda>_. Inr ?doc) sample_sha256 [] = Inr sample_directory"
    by (simp add: from_json_bytes_def shard_id_new_def shard_endpoint_new_def non_empty_string_id_def
        sample_directory_def sample_sha256_def)
  moreover have "shard_new sample_directory ''s0'' 10 = Inr sample_shard"
    by (simp add: shard_new_def directory_shard_def sample_directory_def sample_shard_def)
  ultimately show ?thesis unfolding shard_init_def by blast
qed

lemma sample_register:
  "shard_step sample_sha256 [7] 0 (Register 1 ''g'' sample_key) sample_shard =
     Some (Acked (registration_ack_new 7 None 10), sample_registered)"
  by (simp add: register_def sample_shard_def sample_directory_def sample_key_def sample_registered_def
      validate_authenticated_owner_def validate_generation_def validate_registration_scope_def expire_due.simps
      deadline_from_def instant_checked_add_def INSTANT_MAX_def unique_lease_id_def insert_expiry_def
      index_insert_def index_members_def bs_insert_def Let_def)

lemma sample_reached: "shard_reach sample_sha256 sample_shard" "shard_reach sample_sha256 sample_registered"
proof -
  show start: "shard_reach sample_sha256 sample_shard" by (rule reach_start) (rule sample_init)
  have "shard_trans sample_sha256 sample_shard
      ([7], 0, Register 1 ''g'' sample_key, Acked (registration_ack_new 7 None 10)) sample_registered"
    by (simp add: shard_trans_def sample_register del: shard_step.simps)
  with start show "shard_reach sample_sha256 sample_registered" by (rule reach_step)
qed

section \<open>Properties\<close>



text \<open>
  C19. The bookkeeping is exact in every reachable state: the four indexes and counters are what
  the registrations determine. In particular the subtractions on the counters never underflow and
  the statistics a shard reports are true.
\<close>
theorem shard_bookkeeping:
  assumes "shard_reach sha256 s"
  shows "shard_inv sha256 s \<and>
    shard_stats s = \<lparr>stats_registration_count = card (dom (regs s)),
      stats_binding_count = (\<Sum>k \<in> dom (regs s). length (reg_bindings (the (regs s k)))),
      stats_destination_count = card {d. route_entries (regs s) d \<noteq> {}},
      stats_expiry_record_count = card (dom (regs s))\<rparr>"
proof -
  have inv: "shard_inv sha256 s" by (rule shard_sim.reach_inv [OF assms])
  note I = shard_invD [OF inv]
  have card: "card (dom (regs s)) = length (registration_index s)" by (rule card_dom_hm [OF I(2)])
  have ix: "index_ok hm_ok bt_ok is_empty_list (destination_index s)" using I(4) by (simp add: routes_ok_def)
  have "dom (hm_get (destination_index s)) = {d. route_entries (regs s) d \<noteq> {}}"
    unfolding dom_def routes.absent_iff [OF ix] using I(4) by (simp add: routes_ok_def)
  moreover have "hm_ok (destination_index s)" using ix by (simp add: index_ok_def)
  ultimately have "card {d. route_entries (regs s) d \<noteq> {}} = length (destination_index s)"
    using card_dom_hm by metis
  then show ?thesis using inv I(7,8) card hm_sum_dom [OF I(2)] by (simp add: shard_stats_def)
qed

theorem shard_bookkeeping_witness:
  "expiry_record_count sample_registered = 1 \<and> shard_inv sample_sha256 sample_registered"
  using shard_bookkeeping [OF sample_reached(2)] by (simp add: sample_registered_def)

text \<open>
  C20. Resolution is exact. A successful \<open>resolve\<close> returns, without repetition, precisely the
  bindings of the requested destination that belong to a registration whose lease has not run
  out, and at least one; otherwise, for a request the shard is the authority of, the answer is
  \<open>NotFound\<close> precisely when there is none.
\<close>
theorem resolve_exact:
  assumes "shard_reach sha256 s" and "resolve sha256 gen d now s = (res, s')"
    and "gen = spec_generation (config_of sha256 s)" and "spec_authority (config_of sha256 s) d"
  shows "let found = {b. \<exists>k r i. regs s k = Some r \<and> now < reg_deadline r \<and> (i, b) \<in> set (reg_bindings r) \<and>
           projection_destination b = d}
    in (case res of Inr bs \<Rightarrow> distinct bs \<and> set bs = found \<and> bs \<noteq> [] | Inl e \<Rightarrow> e = RouteNotFound \<and> found = {})"
proof -
  define found where "found = {b. \<exists>k r i. regs s k = Some r \<and> now < reg_deadline r \<and> (i, b) \<in> set (reg_bindings r) \<and>
    projection_destination b = d}"
  have found: "snd ` route_entries (live now (regs s)) d = found"
    by (force simp: route_entries_def live_Some found_def)
  have spec: "route_spec (config_of sha256 s) now (regs s) (Resolve gen d) (fst (reply_of Resolved (res, s'))) (regs s')"
    using resolve_refines [OF shard_sim.reach_inv [OF assms(1)] assms(2)] by simp
  show ?thesis
    unfolding found_def [symmetric] Let_def using spec assms(3,4)
    by (cases res) (auto elim!: resolve_specE simp flip: found)
qed

theorem resolve_exact_witness:
  "fst (resolve sample_sha256 ''g'' (destination_new (Namespace ''n'') (DestinationName ''a'')) 1 sample_registered) = Inl RouteNotFound"
proof -
  let ?d = "destination_new (Namespace ''n'') (DestinationName ''a'')"
  obtain res s' where r: "resolve sample_sha256 ''g'' ?d 1 sample_registered = (res, s')" by fastforce
  have "''g'' = spec_generation (config_of sample_sha256 sample_registered)"
    "spec_authority (config_of sample_sha256 sample_registered) ?d"
    by (simp_all add: config_of_def sample_registered_def sample_shard_def sample_directory_def authority_def Let_def)
  note exact = resolve_exact [OF sample_reached(2) r this]
  have "reg_bindings x = []" if "regs sample_registered k = Some x" for k x
    using that by (auto simp: sample_registered_def split: if_splits)
  then have none: "{b. \<exists>k r i. regs sample_registered k = Some r \<and> 1 < reg_deadline r \<and> (i, b) \<in> set (reg_bindings r) \<and>
      projection_destination b = ?d} = {}" by fastforce
  show ?thesis using exact r unfolding Let_def none by (cases res) auto
qed

text \<open>
  C21. Only the owner changes a registration. Whatever a gateway asks for, with whatever keys, the
  registrations of every other gateway are afterwards the ones before, less those whose lease has
  run out.
\<close>
theorem shard_ownership:
  assumes "shard_reach sha256 s" "call_ok c" "shard_step sha256 draws now c s = Some (reply, s')"
    and "\<And>ctx gen key. call_owner c = Some (ctx, gen, key) \<Longrightarrow> ctx \<noteq> key_gateway_id k"
  shows "regs s' k = regs s k \<or> regs s' k = live now (regs s) k"
  using reached_step(4) [OF assms(1-3)] assms(4)
  by cases (auto simp: owned_def)

theorem shard_ownership_witness:
  "regs sample_registered (RegistrationKey 5 5 ''s0'') = None"
  using shard_ownership [OF sample_reached(1) _ sample_register, of "RegistrationKey 5 5 ''s0''"]
  by (auto simp: sample_shard_def live_def)


lemma sample_card: "card (dom (regs sample_registered)) = 1"
  by (subst card_dom_hm) (simp_all add: sample_registered_def hm_ok_def)

lemma sample_keep_alive:
  "shard_step sample_sha256 [] 3 (KeepAlive 1 ''g'' sample_key 7) sample_registered =
     Some (Acked (registration_ack_new 7 None 10), sample_registered\<lparr>
       registration_index := [(sample_key, \<lparr>reg_lease_id = 7, reg_revision = None, reg_deadline = 13, reg_bindings = []\<rparr>)],
       expiry_index := [(13, [ExpiryKey sample_key 7])]\<rparr>)"
  by (simp add: keep_alive_def sample_registered_def sample_shard_def sample_directory_def sample_key_def
      validate_authenticated_owner_def validate_generation_def validate_registration_scope_def expire_due.simps
      deadline_from_def instant_checked_add_def INSTANT_MAX_def insert_expiry_def remove_expiry_def index_remove_def
      current_registration_def check_lease_def index_insert_def index_members_def bs_insert_def Let_def)


text \<open>
  C32. Expiry is scheduled exactly: the next deadline a shard reports is the earliest deadline of
  an existing registration, and none is reported precisely when there is no registration. Running
  \<open>expire_due\<close> leaves just the registrations with a later deadline and counts the others.
\<close>
theorem expiry_exact:
  assumes "shard_reach sha256 s" "expire_due now s = (n, s')"
  shows "(case next_expiry_deadline s of
       None \<Rightarrow> regs s = Map.empty
     | Some t \<Rightarrow> (\<exists>k r. regs s k = Some r \<and> reg_deadline r = t) \<and> (\<forall>k r. regs s k = Some r \<longrightarrow> t \<le> reg_deadline r)) \<and>
    regs s' = live now (regs s) \<and> n = card (dom (regs s)) - card (dom (regs s'))"
proof -
  have inv: "shard_inv sha256 s" by (rule shard_sim.reach_inv [OF assms(1)])
  note E = expire_due_correct [OF inv assms(2)] and ix = shard_invD(6) [OF inv]
  have "n = card (dom (regs s)) - card (dom (regs s'))"
    using E card_dom_hm shard_invD(2) inv by (metis add_diff_cancel_right')
  moreover have "case next_expiry_deadline s of
       None \<Rightarrow> regs s = Map.empty
     | Some t \<Rightarrow> (\<exists>k r. regs s k = Some r \<and> reg_deadline r = t) \<and> (\<forall>k r. regs s k = Some r \<longrightarrow> t \<le> reg_deadline r)"
  proof (cases "expiry_index s")
    case Nil
    then have "regs s k = None" for k using deadline_in_index [OF inv, of k] by (cases "regs s k") auto
    then have "regs s = Map.empty" by (rule ext)
    then show ?thesis using Nil by (simp add: next_expiry_deadline_def)
  next
    case (Cons e rest)
    obtain t cs where e: "e = (t, cs)" by fastforce
    have "cs \<noteq> []" "set cs = expiry_entries (regs s) t" "bt_ok ((t, cs) # rest)"
      using ix deadlines.present_bucket [of "expiry_index s" t cs] Cons e
      by (auto simp: expiry_ok_def index_ok_def)
    then have "hd cs \<in> expiry_entries (regs s) t" using list.set_sel(1) [of cs] by simp
    then have "\<exists>k r. regs s k = Some r \<and> reg_deadline r = t" by (auto simp: expiry_entries_def)
    moreover have "t \<le> reg_deadline r" if "regs s k = Some r" for k r
      using deadline_in_index [OF inv that] bt_first_least [OF \<open>bt_ok ((t, cs) # rest)\<close>] Cons e by fastforce
    ultimately show ?thesis using Cons e by (simp add: next_expiry_deadline_def)
  qed
  ultimately show ?thesis using E by blast
qed

theorem expiry_exact_witness:
  "next_expiry_deadline sample_registered = Some 10 \<and> fst (expire_due 10 sample_registered) = 1"
proof -
  obtain n s' where e: "expire_due 10 sample_registered = (n, s')" by fastforce
  have "regs s' = Map.empty"
    using expiry_exact [OF sample_reached(2) e] by (auto simp: live_def sample_registered_def fun_eq_iff)
  then have "n = 1" using expiry_exact [OF sample_reached(2) e] by (simp only: sample_card) simp
  then show ?thesis using e by (simp add: sample_registered_def next_expiry_deadline_def)
qed



end
