(* ===== verification/Registry.thy ===== *)
theory Registry
  imports Frame Indexes "HOL-Library.Multiset"
begin

text \<open>
  The local binding registry of a gateway (\<open>relaygate-gateway/src/registry.rs\<close>): bindings by
  identifier with an index by destination, an index by session and a round-robin cursor per
  destination. The order inside a \<open>HashSet\<close> bucket is the order of its list; no result depends on
  it. \<open>draws\<close> are the random UUIDs \<open>unique_binding_id\<close> draws.
\<close>

record binding =
  bnd_id :: binding_id
  bnd_destination :: destination
  bnd_session_id :: session_id

datatype route_dependency_health = HealthDisabled | HealthReady | HealthDegraded | HealthTerminal

record routing_counts =
  counts_synced :: nat
  counts_unsynced :: nat
  counts_dependency_health :: route_dependency_health

datatype registration = Created binding | Existing binding

record registry =
  by_id :: "(binding_id, binding) hashmap"
  by_destination :: "(destination, binding_id list) hashmap"
  by_session :: "(session_id, binding_id list) hashmap"
  next_selection :: "(destination, u64) hashmap"

definition registry_default :: registry where
  "registry_default = \<lparr>by_id = [], by_destination = [], by_session = [], next_selection = []\<rparr>"

definition unique_binding_id :: "uuid list \<Rightarrow> registry \<Rightarrow> binding_id option" where
  "unique_binding_id draws r = find (\<lambda>c. \<not> hm_contains (by_id r) c) draws"

fun find_binding :: "destination \<Rightarrow> registry \<Rightarrow> binding_id list \<Rightarrow> binding option" where
  "find_binding d r [] = None"
| "find_binding d r (i # is) =
     (case hm_get (by_id r) i of
        Some b \<Rightarrow> if bnd_destination b = d then Some b else find_binding d r is
      | None \<Rightarrow> find_binding d r is)"

definition binding_for_session_destination :: "session_id \<Rightarrow> destination \<Rightarrow> registry \<Rightarrow> binding option" where
  "binding_for_session_destination session d r =
     (case hm_get (by_session r) session of None \<Rightarrow> None | Some ids \<Rightarrow> find_binding d r ids)"

definition contains_session_destination :: "session_id \<Rightarrow> destination \<Rightarrow> registry \<Rightarrow> bool" where
  "contains_session_destination session d r \<longleftrightarrow> binding_for_session_destination session d r \<noteq> None"

definition registry_register ::
  "uuid list \<Rightarrow> session_id \<Rightarrow> destination \<Rightarrow> registry \<Rightarrow> (registration \<times> registry) option" where
  "registry_register draws session d r =
     (case binding_for_session_destination session d r of
        Some existing \<Rightarrow> Some (Existing existing, r)
      | None \<Rightarrow>
          (case unique_binding_id draws r of
             None \<Rightarrow> None
           | Some i \<Rightarrow>
               let b = \<lparr>bnd_id = i, bnd_destination = d, bnd_session_id = session\<rparr>
               in Some (Created b, r\<lparr>
                    by_id := hm_insert i b (by_id r),
                    by_destination := index_insert AList.update [] (\<lambda>x xs. xs @ [x]) d i (by_destination r),
                    by_session := index_insert AList.update [] List.insert session i (by_session r)\<rparr>)))"

definition registry_remove :: "binding_id \<Rightarrow> registry \<Rightarrow> binding option \<times> registry" where
  "registry_remove i r =
     (case hm_get (by_id r) i of
        None \<Rightarrow> (None, r)
      | Some b \<Rightarrow>
          let remove_address_index =
                (case hm_get (by_destination r) (bnd_destination b) of
                   None \<Rightarrow> False | Some ids \<Rightarrow> removeAll i ids = [])
          in (Some b, r\<lparr>
               by_id := hm_remove i (by_id r),
               by_destination := index_remove removeAll (\<lambda>xs. xs = []) (bnd_destination b) i (by_destination r),
               by_session := index_remove removeAll (\<lambda>xs. xs = []) (bnd_session_id b) i (by_session r),
               next_selection :=
                 (if remove_address_index then hm_remove (bnd_destination b) (next_selection r)
                  else next_selection r)\<rparr>))"

definition remove_owned :: "session_id \<Rightarrow> binding_id \<Rightarrow> registry \<Rightarrow> binding option \<times> registry" where
  "remove_owned session i r =
     (case hm_get (by_id r) i of
        None \<Rightarrow> (None, r)
      | Some b \<Rightarrow> if bnd_session_id b \<noteq> session then (None, r) else registry_remove i r)"

fun remove_all :: "binding_id list \<Rightarrow> registry \<Rightarrow> binding list \<times> registry" where
  "remove_all [] r = ([], r)"
| "remove_all (i # is) r =
     (case registry_remove i r of (removed, r1) \<Rightarrow>
      case remove_all is r1 of (bs, r2) \<Rightarrow>
        ((case removed of Some b \<Rightarrow> b # bs | None \<Rightarrow> bs), r2))"

definition registry_remove_session :: "session_id \<Rightarrow> registry \<Rightarrow> binding list \<times> registry" where
  "registry_remove_session session r =
     remove_all (case hm_get (by_session r) session of None \<Rightarrow> [] | Some ids \<Rightarrow> ids) r"

definition bindings_for_session :: "session_id \<Rightarrow> registry \<Rightarrow> binding list" where
  "bindings_for_session session r =
     sort_key bnd_id (List.map_filter (hm_get (by_id r))
       (case hm_get (by_session r) session of None \<Rightarrow> [] | Some ids \<Rightarrow> ids))"

definition exact :: "session_id \<Rightarrow> binding_id \<Rightarrow> destination \<Rightarrow> registry \<Rightarrow> binding option" where
  "exact session i d r =
     (case hm_get (by_id r) i of
        Some b \<Rightarrow> if bnd_session_id b = session \<and> bnd_destination b = d then Some b else None
      | None \<Rightarrow> None)"

definition eligible :: "destination \<Rightarrow> session_id \<Rightarrow> registry \<Rightarrow> binding list" where
  "eligible d excluded r =
     filter (\<lambda>b. bnd_session_id b \<noteq> excluded) (List.map_filter (hm_get (by_id r))
       (case hm_get (by_destination r) d of None \<Rightarrow> [] | Some ids \<Rightarrow> ids))"

definition select_excluding :: "destination \<Rightarrow> session_id \<Rightarrow> registry \<Rightarrow> binding option \<times> registry" where
  "select_excluding d excluded r =
     (case hm_get (by_destination r) d of
        None \<Rightarrow> (None, r)
      | Some ids \<Rightarrow>
          let count = length (eligible d excluded r) in
          if count = 0 then (None, r)
          else let cursor = (case hm_get (next_selection r) d of Some c \<Rightarrow> c | None \<Rightarrow> 0)
               in (Some (eligible d excluded r ! (unat cursor mod count)),
                   r\<lparr>next_selection := hm_insert d (cursor + 1) (next_selection r)\<rparr>))"

definition binding_count_of :: "registry \<Rightarrow> nat" where
  "binding_count_of r = length (by_id r)"

section \<open>The indexes describe the same live bindings\<close>

interpretation by_destination_index:
  bucket_index AList.update hm_ok "[]" "\<lambda>x xs. xs @ [x]" removeAll "\<lambda>xs. xs = []" set "\<lambda>x. x" distinct ..

interpretation by_session_index:
  bucket_index AList.update hm_ok "[]" List.insert removeAll "\<lambda>xs. xs = []" set "\<lambda>x. x" distinct ..

type_synonym bindings = "binding_id \<Rightarrow> binding option"

definition group_ids :: "(binding \<Rightarrow> 'g) \<Rightarrow> bindings \<Rightarrow> 'g \<Rightarrow> binding_id set" where
  "group_ids f B g = {i. \<exists>b. B i = Some b \<and> f b = g}"

definition registry_ok :: "registry \<Rightarrow> bool" where
  "registry_ok r \<longleftrightarrow> hm_ok (by_id r) \<and>
     (\<forall>i b. hm_get (by_id r) i = Some b \<longrightarrow> bnd_id b = i) \<and>
     (\<forall>i j b c. hm_get (by_id r) i = Some b \<longrightarrow> hm_get (by_id r) j = Some c \<longrightarrow>
        bnd_session_id b = bnd_session_id c \<longrightarrow> bnd_destination b = bnd_destination c \<longrightarrow> i = j) \<and>
     index_ok hm_ok distinct (\<lambda>xs. xs = []) (by_destination r) \<and>
     (\<forall>d. index_members set (by_destination r) d = group_ids bnd_destination (hm_get (by_id r)) d) \<and>
     index_ok hm_ok distinct (\<lambda>xs. xs = []) (by_session r) \<and>
     (\<forall>s. index_members set (by_session r) s = group_ids bnd_session_id (hm_get (by_id r)) s) \<and>
     (\<forall>d. hm_contains (next_selection r) d \<longrightarrow> hm_contains (by_destination r) d)"

lemma registry_okD:
  assumes "registry_ok r"
  shows "hm_ok (by_id r)" "\<And>i b. hm_get (by_id r) i = Some b \<Longrightarrow> bnd_id b = i"
    "\<And>i j b c. hm_get (by_id r) i = Some b \<Longrightarrow> hm_get (by_id r) j = Some c \<Longrightarrow>
        bnd_session_id b = bnd_session_id c \<Longrightarrow> bnd_destination b = bnd_destination c \<Longrightarrow> i = j"
    "index_ok hm_ok distinct (\<lambda>xs. xs = []) (by_destination r)"
    "\<And>d. index_members set (by_destination r) d = group_ids bnd_destination (hm_get (by_id r)) d"
    "index_ok hm_ok distinct (\<lambda>xs. xs = []) (by_session r)"
    "\<And>s. index_members set (by_session r) s = group_ids bnd_session_id (hm_get (by_id r)) s"
    "\<And>d. hm_contains (next_selection r) d \<Longrightarrow> hm_contains (by_destination r) d"
  using assms by (auto simp: registry_ok_def)

lemma registry_ok_default: "registry_ok registry_default"
  by (simp add: registry_ok_def registry_default_def hm_ok_Nil by_destination_index.empty_index
      by_session_index.empty_index index_members_def group_ids_def)

lemma group_ids_remove: "B i = Some b \<Longrightarrow> group_ids f (B(i := None)) g = (if g = f b then group_ids f B g - {i} else group_ids f B g)"
  by (auto simp: group_ids_def split: if_splits)

lemma group_ids_insert: "B i = None \<Longrightarrow> group_ids f (B(i \<mapsto> b)) g = (if g = f b then insert i (group_ids f B g) else group_ids f B g)"
  by (auto simp: group_ids_def split: if_splits)

abbreviation bnds :: "registry \<Rightarrow> bindings" where
  "bnds r \<equiv> hm_get (by_id r)"

lemma registry_remove_ok:
  assumes "registry_ok r" "registry_remove i r = (removed, r')"
  shows "registry_ok r' \<and> removed = bnds r i \<and> by_id r' = hm_remove i (by_id r)"
proof (cases "bnds r i")
  case None
  then show ?thesis using assms by (auto simp: registry_remove_def hm_remove_notin)
next
  case (Some b)
  note R = registry_okD [OF assms(1)]
  let ?bd = "index_remove removeAll (\<lambda>xs. xs = []) (bnd_destination b) i (by_destination r)"
  let ?bs = "index_remove removeAll (\<lambda>xs. xs = []) (bnd_session_id b) i (by_session r)"
  have r': "removed = Some b" "by_id r' = hm_remove i (by_id r)" "by_destination r' = ?bd" "by_session r' = ?bs"
    and ns: "next_selection r' = (if (case hm_get (by_destination r) (bnd_destination b) of None \<Rightarrow> False | Some ids \<Rightarrow> removeAll i ids = [])
       then hm_remove (bnd_destination b) (next_selection r) else next_selection r)"
    using assms(2) Some by (auto simp: registry_remove_def Let_def)
  have get: "hm_get (hm_remove i (by_id r)) = (bnds r)(i := None)" by (rule ext) (simp add: table_simps)
  have "hm_contains (next_selection r') d \<Longrightarrow> hm_contains ?bd d" for d
    using R(8) [of d] unfolding ns
    by (auto simp: index_remove_def Let_def table_simps split: option.splits if_splits)
  moreover have "index_members set ?bd d = group_ids bnd_destination ((bnds r)(i := None)) d" for d
    using by_destination_index.remove_members [OF R(4), of "bnd_destination b" i d]
    by (auto simp: R group_ids_remove [of "bnds r", OF Some])
  moreover have "index_members set ?bs t = group_ids bnd_session_id ((bnds r)(i := None)) t" for t
    using by_session_index.remove_members [OF R(6), of "bnd_session_id b" i t]
    by (auto simp: R group_ids_remove [of "bnds r", OF Some])
  moreover have "index_ok hm_ok distinct (\<lambda>xs. xs = []) ?bd" "index_ok hm_ok distinct (\<lambda>xs. xs = []) ?bs"
    using by_destination_index.remove_ok [OF R(4)] by_session_index.remove_ok [OF R(6)] by auto
  ultimately have "registry_ok r'"
    unfolding registry_ok_def r' get using hm_ok_remove [OF R(1)] R(2,3) by simp
  then show ?thesis using Some r' by simp
qed

lemma find_binding_Some:
  "find_binding d r ids = Some b \<Longrightarrow> (\<exists>i \<in> set ids. bnds r i = Some b) \<and> bnd_destination b = d"
  by (induction d r ids rule: find_binding.induct) (auto split: option.splits if_splits)

lemma find_binding_None:
  "find_binding d r ids = None \<Longrightarrow> i \<in> set ids \<Longrightarrow> bnds r i = Some b \<Longrightarrow> bnd_destination b \<noteq> d"
  by (induction d r ids rule: find_binding.induct) (auto split: option.splits if_splits)

lemma binding_for_session_destination_iff:
  assumes "registry_ok r"
  shows "binding_for_session_destination session d r = Some b \<longleftrightarrow>
    bnds r (bnd_id b) = Some b \<and> bnd_session_id b = session \<and> bnd_destination b = d"
proof -
  note R = registry_okD [OF assms]
  define ids where "ids = (case hm_get (by_session r) session of None \<Rightarrow> [] | Some ids \<Rightarrow> ids)"
  have ids: "set ids = group_ids bnd_session_id (bnds r) session"
    unfolding R(7) [symmetric] by (simp add: ids_def index_members_def split: option.split)
  have find: "binding_for_session_destination session d r = find_binding d r ids"
    by (simp add: binding_for_session_destination_def ids_def split: option.split)
  have found: "bnds r (bnd_id c) = Some c \<and> bnd_session_id c = session \<and> bnd_destination c = d"
    if c: "find_binding d r ids = Some c" for c
  proof -
    obtain i where i: "i \<in> set ids" "bnds r i = Some c" "bnd_destination c = d" using find_binding_Some [OF c] by blast
    have "bnd_session_id c = session" using i(1,2) by (auto simp: ids group_ids_def)
    then show ?thesis using i R(2) [OF i(2)] by simp
  qed
  show ?thesis
  proof
    show "binding_for_session_destination session d r = Some b \<Longrightarrow>
        bnds r (bnd_id b) = Some b \<and> bnd_session_id b = session \<and> bnd_destination b = d"
      using found by (simp add: find)
    assume b: "bnds r (bnd_id b) = Some b \<and> bnd_session_id b = session \<and> bnd_destination b = d"
    then have "bnd_id b \<in> set ids" by (auto simp: ids group_ids_def)
    then obtain c where c: "find_binding d r ids = Some c"
      using find_binding_None [of d r ids "bnd_id b" b] b by (cases "find_binding d r ids") auto
    have "bnd_id b = bnd_id c" using b found [OF c] R(3) [of _ b _ c] by metis
    then have "c = b" using b found [OF c] by (metis option.inject)
    then show "binding_for_session_destination session d r = Some b" using c find by simp
  qed
qed

lemma registry_register_ok:
  assumes "registry_ok r" "registry_register draws session d r = Some (reg, r')"
  shows "registry_ok r' \<and>
    (case reg of
       Existing b \<Rightarrow> r' = r \<and> bnds r (bnd_id b) = Some b \<and> bnd_session_id b = session \<and> bnd_destination b = d
     | Created b \<Rightarrow> bnd_destination b = d \<and> bnd_session_id b = session \<and>
         bnds r (bnd_id b) = None \<and> by_id r' = hm_insert (bnd_id b) b (by_id r) \<and>
         \<not> contains_session_destination session d r)"
proof (cases "binding_for_session_destination session d r")
  case (Some b)
  then have "reg = Existing b" "r' = r" using assms(2) by (auto simp: registry_register_def)
  then show ?thesis using Some assms(1) binding_for_session_destination_iff [OF assms(1)] by simp
next
  case None
  note R = registry_okD [OF assms(1)]
  let ?new = "\<lambda>i. \<lparr>bnd_id = i, bnd_destination = d, bnd_session_id = session\<rparr>"
  obtain i where i: "unique_binding_id draws r = Some i" and reg: "reg = Created (?new i)"
    and r': "by_id r' = hm_insert i (?new i) (by_id r)" "next_selection r' = next_selection r"
      "by_destination r' = index_insert AList.update [] (\<lambda>x xs. xs @ [x]) d i (by_destination r)"
      "by_session r' = index_insert AList.update [] List.insert session i (by_session r)"
    using assms(2) None by (auto simp: registry_register_def Let_def split: option.splits)
  have fresh: "bnds r i = None" using i by (auto simp: unique_binding_id_def find_Some_iff domIff)
  have new: "i \<notin> (\<lambda>x. x) ` index_members set (by_destination r) d" "i \<notin> (\<lambda>x. x) ` index_members set (by_session r) session"
    using fresh by (auto simp: R group_ids_def)
  have other: "bnd_destination c \<noteq> d" if "bnds r j = Some c" "bnd_session_id c = session" for j c
    using that None R(2) [OF that(1)] binding_for_session_destination_iff [OF assms(1), of session d c] by auto
  have get: "hm_get (hm_insert i (?new i) (by_id r)) = (bnds r)(i \<mapsto> (?new i))" by (rule ext) (simp add: table_simps)
  have "hm_contains (next_selection r) e \<Longrightarrow> hm_contains (by_destination r') e" for e
    using R(8) [of e] by (auto simp: r' index_insert_def table_simps)
  moreover have "index_members set (by_destination r') e = group_ids bnd_destination ((bnds r)(i \<mapsto> (?new i))) e" for e
    using by_destination_index.insert_members [OF R(4) new(1), of e] by (auto simp: r' R group_ids_insert [of "bnds r", OF fresh])
  moreover have "index_members set (by_session r') t = group_ids bnd_session_id ((bnds r)(i \<mapsto> (?new i))) t" for t
    using by_session_index.insert_members [OF R(6) new(2), of t] by (auto simp: r' R group_ids_insert [of "bnds r", OF fresh])
  moreover have "index_ok hm_ok distinct (\<lambda>xs. xs = []) (by_destination r')" "index_ok hm_ok distinct (\<lambda>xs. xs = []) (by_session r')"
    using by_destination_index.insert_ok [OF R(4) new(1)] by_session_index.insert_ok [OF R(6) new(2)] by (simp_all add: r')
  moreover have "j = k" if "((bnds r)(i \<mapsto> (?new i))) j = Some c" "((bnds r)(i \<mapsto> (?new i))) k = Some e"
      "bnd_session_id c = bnd_session_id e" "bnd_destination c = bnd_destination e" for j k c e
    using that other [of j c] other [of k e] R(3) [of j c k e] by (auto split: if_splits)
  moreover have "bnd_id c = j" if "((bnds r)(i \<mapsto> (?new i))) j = Some c" for j c
    using that R(2) by (auto split: if_splits)
  ultimately have "registry_ok r'"
    unfolding registry_ok_def get r'(1,2) using hm_ok_insert [OF R(1)] by blast
  then show ?thesis using None fresh r' reg by (simp add: contains_session_destination_def)
qed

lemma remove_owned_ok:
  assumes "registry_ok r" "remove_owned session i r = (removed, r')"
  shows "registry_ok r' \<and>
    (case removed of
       None \<Rightarrow> r' = r \<and> (\<forall>b. bnds r i = Some b \<longrightarrow> bnd_session_id b \<noteq> session)
     | Some b \<Rightarrow> bnds r i = Some b \<and> bnd_session_id b = session \<and> by_id r' = hm_remove i (by_id r))"
  using assms registry_remove_ok [OF assms(1), of i]
  by (auto simp: remove_owned_def split: option.splits if_splits)

lemma remove_all_ok:
  "registry_ok r \<Longrightarrow> remove_all is r = (bs, r') \<Longrightarrow>
     registry_ok r' \<and> bnds r' = (\<lambda>i. if i \<in> set is then None else bnds r i) \<and>
     set bs = {b. \<exists>i \<in> set is. bnds r i = Some b}"
proof (induction "is" arbitrary: r bs r')
  case (Cons i "is")
  obtain removed r1 bs1 where 1: "registry_remove i r = (removed, r1)" "remove_all is r1 = (bs1, r')"
    and bs: "bs = (case removed of Some b \<Rightarrow> b # bs1 | None \<Rightarrow> bs1)"
    using Cons.prems(2) by (auto split: prod.splits)
  have r1: "registry_ok r1" "removed = bnds r i" "bnds r1 = (bnds r)(i := None)"
    using registry_remove_ok [OF Cons.prems(1) 1(1)] by (auto simp: delete_conv')
  have "b \<in> set bs \<longleftrightarrow> (\<exists>j \<in> set (i # is). bnds r j = Some b)" for b
    using Cons.IH [OF r1(1) 1(2)] by (cases "bnds r i") (auto simp: bs r1(2,3) split: if_splits, force+)
  then show ?case using Cons.IH [OF r1(1) 1(2)] r1(2,3) by auto
qed simp

lemma registry_remove_session_ok:
  assumes "registry_ok r" "registry_remove_session session r = (bs, r')"
  shows "registry_ok r' \<and>
    (\<forall>i b. bnds r' i = Some b \<longleftrightarrow> bnds r i = Some b \<and> bnd_session_id b \<noteq> session) \<and>
    set bs = {b. \<exists>i. bnds r i = Some b \<and> bnd_session_id b = session}"
proof -
  note R = registry_okD [OF assms(1)]
  define ids where "ids = (case hm_get (by_session r) session of None \<Rightarrow> [] | Some ids \<Rightarrow> ids)"
  have "set ids = group_ids bnd_session_id (bnds r) session"
    unfolding R(7) [symmetric] by (simp add: ids_def index_members_def split: option.split)
  moreover have "remove_all ids r = (bs, r')" using assms(2) by (simp add: registry_remove_session_def ids_def)
  ultimately show ?thesis using remove_all_ok [OF assms(1), of ids bs r'] by (auto simp: group_ids_def)
qed

lemma map_filter_id_set: "set (List.map_filter f xs) = {y. \<exists>x \<in> set xs. f x = Some y}"
  by (force simp: List.map_filter_def)

lemma set_eligible:
  assumes "registry_ok r"
  shows "set (eligible d excluded r) =
    {b. bnds r (bnd_id b) = Some b \<and> bnd_destination b = d \<and> bnd_session_id b \<noteq> excluded}"
proof -
  note R = registry_okD [OF assms]
  define ids where "ids = (case hm_get (by_destination r) d of None \<Rightarrow> [] | Some ids \<Rightarrow> ids)"
  have ids: "set ids = group_ids bnd_destination (bnds r) d"
    unfolding R(5) [symmetric] by (simp add: ids_def index_members_def split: option.split)
  have "(\<exists>i \<in> set ids. bnds r i = Some b) \<longleftrightarrow> bnds r (bnd_id b) = Some b \<and> bnd_destination b = d" for b
    unfolding ids group_ids_def using R(2) [of _ b] by auto
  then show ?thesis by (auto simp: eligible_def map_filter_id_set simp flip: ids_def)
qed

lemma distinct_eligible:
  assumes "registry_ok r"
  shows "distinct (eligible d excluded r)"
proof -
  note R = registry_okD [OF assms]
  have "distinct (case hm_get (by_destination r) d of None \<Rightarrow> [] | Some ids \<Rightarrow> ids)"
    using R(4) by (auto simp: index_ok_def split: option.split)
  moreover have "distinct ids \<Longrightarrow> distinct (List.map_filter (bnds r) ids)" for ids
    unfolding List.map_filter_def
    by (auto simp: distinct_map intro!: inj_onI) (metis R(2))
  ultimately show ?thesis by (simp add: eligible_def)
qed

lemma select_excluding_ok:
  assumes "registry_ok r" "select_excluding d excluded r = (selected, r')"
  shows "registry_ok r' \<and> by_id r' = by_id r \<and> by_destination r' = by_destination r \<and> by_session r' = by_session r \<and>
    (case selected of
       None \<Rightarrow> r' = r \<and> eligible d excluded r = []
     | Some b \<Rightarrow> bnds r (bnd_id b) = Some b \<and> bnd_destination b = d \<and> bnd_session_id b \<noteq> excluded)"
proof (cases "eligible d excluded r = []")
  case True
  then show ?thesis using assms by (auto simp: select_excluding_def split: option.splits)
next
  case False
  then obtain ids where ids: "hm_get (by_destination r) d = Some ids"
    by (cases "hm_get (by_destination r) d") (auto simp: eligible_def List.map_filter_simps)
  define b where "b = eligible d excluded r !
    (unat (case hm_get (next_selection r) d of Some c \<Rightarrow> c | None \<Rightarrow> 0) mod length (eligible d excluded r))"
  have "b \<in> set (eligible d excluded r)" using False by (simp add: b_def)
  moreover have "selected = Some b" "\<exists>c. r' = r\<lparr>next_selection := hm_insert d c (next_selection r)\<rparr>"
    using assms(2) False ids by (auto simp: select_excluding_def Let_def b_def)
  ultimately show ?thesis
    using assms(1) set_eligible [OF assms(1), of d excluded] ids
    by (auto simp: registry_ok_def table_simps split: if_splits)
qed

lemma set_bindings_for_session:
  assumes "registry_ok r"
  shows "set (bindings_for_session session r) = {b. bnds r (bnd_id b) = Some b \<and> bnd_session_id b = session}"
proof -
  note R = registry_okD [OF assms]
  define ids where "ids = (case hm_get (by_session r) session of None \<Rightarrow> [] | Some ids \<Rightarrow> ids)"
  have ids: "set ids = group_ids bnd_session_id (bnds r) session"
    unfolding R(7) [symmetric] by (simp add: ids_def index_members_def split: option.split)
  have "(\<exists>i \<in> set ids. bnds r i = Some b) \<longleftrightarrow> bnds r (bnd_id b) = Some b \<and> bnd_session_id b = session" for b
    unfolding ids group_ids_def using R(2) [of _ b] by auto
  then show ?thesis by (auto simp: bindings_for_session_def map_filter_id_set simp flip: ids_def)
qed

section \<open>Round-robin selection\<close>

fun select_times :: "nat \<Rightarrow> destination \<Rightarrow> session_id \<Rightarrow> registry \<Rightarrow> binding list" where
  "select_times 0 d excluded r = []"
| "select_times (Suc n) d excluded r =
     (case select_excluding d excluded r of
        (None, r') \<Rightarrow> []
      | (Some b, r') \<Rightarrow> b # select_times n d excluded r')"

definition cursor_of :: "destination \<Rightarrow> registry \<Rightarrow> u64" where
  "cursor_of d r = (case hm_get (next_selection r) d of Some c \<Rightarrow> c | None \<Rightarrow> 0)"

lemma select_excluding_cursor:
  assumes "eligible d excluded r \<noteq> []"
  shows "select_excluding d excluded r =
    (Some (eligible d excluded r ! (unat (cursor_of d r) mod length (eligible d excluded r))),
     r\<lparr>next_selection := hm_insert d (cursor_of d r + 1) (next_selection r)\<rparr>)"
  using assms
  by (cases "hm_get (by_destination r) d")
    (auto simp: select_excluding_def cursor_of_def eligible_def List.map_filter_simps Let_def)

lemma eligible_next_selection: "eligible d excluded (r\<lparr>next_selection := ns\<rparr>) = eligible d excluded r"
  by (simp add: eligible_def)

lemma select_times_rotation:
  assumes "eligible d excluded r = e" "e \<noteq> []" "unat (cursor_of d r) + n < 2 ^ 64"
  shows "select_times n d excluded r = map (\<lambda>k. e ! ((unat (cursor_of d r) + k) mod length e)) [0..<n]"
  using assms
proof (induction n arbitrary: r)
  case (Suc n)
  let ?r = "r\<lparr>next_selection := hm_insert d (cursor_of d r + 1) (next_selection r)\<rparr>"
  have c: "cursor_of d ?r = cursor_of d r + 1" by (simp add: cursor_of_def table_simps)
  have "unat (cursor_of d ?r) = Suc (unat (cursor_of d r))"
    using Suc.prems(3) unfolding c by (simp add: unat_word_ariths)
  then have "select_times n d excluded ?r = map (\<lambda>k. e ! ((unat (cursor_of d r) + Suc k) mod length e)) [0..<n]"
    using Suc.IH [of ?r] Suc.prems by (simp add: eligible_next_selection)
  then show ?case
    using Suc.prems select_excluding_cursor [of d excluded r]
    by (simp add: map_upt_Suc del: upt_Suc)
qed simp

lemma mset_rotate: "mset (rotate n xs) = mset xs"
proof (induction n)
  case (Suc n)
  then show ?case by (cases "rotate n xs") (simp_all add: rotate_Suc)
qed simp

text \<open>
  C18. \<open>LocalRegistry::select_excluding\<close> is fair: over as many consecutive selections as there are
  eligible bindings of a destination, every binding of another session that publishes the
  destination is selected exactly once and nothing else is, as long as the per-destination cursor
  does not wrap around its machine word during the round.
\<close>

theorem selection_round_fair:
  assumes "registry_ok r"
    and "unat (cursor_of d r) + length (eligible d excluded r) < 2 ^ 64"
  shows "mset (select_times (length (eligible d excluded r)) d excluded r) =
    mset_set {b. bnds r (bnd_id b) = Some b \<and> bnd_destination b = d \<and> bnd_session_id b \<noteq> excluded}"
proof (cases "eligible d excluded r = []")
  case True
  then have "{b. bnds r (bnd_id b) = Some b \<and> bnd_destination b = d \<and> bnd_session_id b \<noteq> excluded} = {}"
    using set_eligible [OF assms(1), of d excluded] by simp
  then show ?thesis using True by (simp only: list.size select_times.simps mset.simps mset_set.empty)
next
  case False
  let ?e = "eligible d excluded r" and ?c = "unat (cursor_of d r)"
  have "select_times (length ?e) d excluded r = map (\<lambda>k. ?e ! ((?c + k) mod length ?e)) [0..<length ?e]"
    by (rule select_times_rotation [OF refl False assms(2)])
  also have "\<dots> = rotate ?c ?e"
    using False by (intro nth_equalityI) (simp_all add: nth_rotate add.commute)
  finally have "mset (select_times (length ?e) d excluded r) = mset ?e" by (simp add: mset_rotate)
  also have "\<dots> = mset_set (set ?e)" using distinct_eligible [OF assms(1)] by (simp add: mset_set_set)
  finally show ?thesis using set_eligible [OF assms(1)] by simp
qed

definition sample_destination :: destination where
  "sample_destination = \<lparr>dest_namespace = Namespace ''test'', dest_name = DestinationName ''shared''\<rparr>"

definition sample_registry :: registry where
  "sample_registry =
     (let b = (\<lambda>i s. \<lparr>bnd_id = i, bnd_destination = sample_destination, bnd_session_id = s\<rparr>)
      in \<lparr>by_id = [(1, b 1 10), (2, b 2 20)], by_destination = [(sample_destination, [1, 2])],
          by_session = [(10, [1]), (20, [2])], next_selection = []\<rparr>)"

section \<open>Every reachable registry\<close>

datatype registry_call =
    CallRegister "uuid list" session_id destination
  | CallRemoveOwned session_id binding_id
  | CallRemoveSession session_id
  | CallSelect destination session_id

fun registry_step :: "registry \<Rightarrow> registry_call \<Rightarrow> registry \<Rightarrow> bool" where
  "registry_step r (CallRegister draws session d) r' \<longleftrightarrow> (\<exists>reg. registry_register draws session d r = Some (reg, r'))"
| "registry_step r (CallRemoveOwned session i) r' \<longleftrightarrow> snd (remove_owned session i r) = r'"
| "registry_step r (CallRemoveSession session) r' \<longleftrightarrow> snd (registry_remove_session session r) = r'"
| "registry_step r (CallSelect d excluded) r' \<longleftrightarrow> snd (select_excluding d excluded r) = r'"

lemmas registry_ops_ok = conjunct1 [OF registry_register_ok] conjunct1 [OF remove_owned_ok]
  conjunct1 [OF registry_remove_session_ok] conjunct1 [OF select_excluding_ok]

lemma registry_step_ok: "registry_ok r \<Longrightarrow> registry_step r c r' \<Longrightarrow> registry_ok r'"
  by (cases c) (auto intro: registry_ops_ok prod.collapse [symmetric])

interpretation registry_inv: inductive_invariant "\<lambda>r. r = registry_default" registry_step registry_ok
  by unfold_locales (blast intro: registry_ok_default registry_step_ok)+

abbreviation registry_reach :: "registry \<Rightarrow> bool" where
  "registry_reach \<equiv> reach (\<lambda>r. r = registry_default) registry_step"

lemma sample_registry_calls:
  "registry_register [2] 20 sample_destination (snd (the (registry_register [1] 10 sample_destination registry_default))) =
     Some (Created \<lparr>bnd_id = 2, bnd_destination = sample_destination, bnd_session_id = 20\<rparr>, sample_registry)"
  "registry_register [1] 10 sample_destination registry_default \<noteq> None"
  by (simp_all add: registry_register_def binding_for_session_destination_def unique_binding_id_def
      registry_default_def index_insert_def Let_def sample_registry_def)

lemma sample_registry_reached: "registry_reach sample_registry"
proof -
  have "registry_reach (snd (the (registry_register [1] 10 sample_destination registry_default)))"
    using sample_registry_calls(2)
    by (intro reach_step [OF reach_start [of "\<lambda>r. r = registry_default" registry_default],
          of registry_step "CallRegister [1] 10 sample_destination"]) auto
  then show ?thesis
    by (rule reach_step [where e = "CallRegister [2] 20 sample_destination"]) (simp add: sample_registry_calls(1))
qed

theorem selection_round_fair_witness:
  "select_times (Suc (Suc 0)) sample_destination 30 sample_registry = map (snd) (by_id sample_registry) \<and>
   mset (select_times (Suc (Suc 0)) sample_destination 30 sample_registry) =
     mset_set {b. bnds sample_registry (bnd_id b) = Some b \<and> bnd_destination b = sample_destination \<and> bnd_session_id b \<noteq> 30}"
proof -
  have e: "eligible sample_destination 30 sample_registry = map snd (by_id sample_registry)"
    by (simp add: eligible_def sample_registry_def List.map_filter_def)
  have n: "length (by_id sample_registry) = Suc (Suc 0)" and c: "cursor_of sample_destination sample_registry = 0"
    by (simp_all add: sample_registry_def cursor_of_def)
  have "select_times (Suc (Suc 0)) sample_destination 30 sample_registry = map (snd) (by_id sample_registry)"
    by (simp add: sample_registry_def select_excluding_def eligible_def List.map_filter_def)
  then show ?thesis
    using selection_round_fair [OF registry_inv.reach_inv [OF sample_registry_reached], of sample_destination 30]
    by (simp add: e n c)
qed

text \<open>
  C17. The three tables of \<open>LocalRegistry\<close> describe the same live bindings in every state the
  registry's operations reach: the index by destination and the index by session hold exactly the
  identifiers whose binding has that destination or session, a session has at most one binding per
  destination and the lookup by session and destination finds it, and no cursor outlives the last
  binding of its destination.
\<close>

theorem registry_indexes_agree:
  assumes "registry_reach r"
  shows "(\<forall>d. index_members set (by_destination r) d = {i. \<exists>b. bnds r i = Some b \<and> bnd_destination b = d}) \<and>
    (\<forall>s. index_members set (by_session r) s = {i. \<exists>b. bnds r i = Some b \<and> bnd_session_id b = s}) \<and>
    (\<forall>s d b. binding_for_session_destination s d r = Some b \<longleftrightarrow>
       bnds r (bnd_id b) = Some b \<and> bnd_session_id b = s \<and> bnd_destination b = d) \<and>
    (\<forall>d. hm_contains (next_selection r) d \<longrightarrow> (\<exists>i b. bnds r i = Some b \<and> bnd_destination b = d))"
proof -
  have ok: "registry_ok r" by (rule registry_inv.reach_inv [OF assms])
  note R = registry_okD [OF ok]
  have "\<exists>i b. bnds r i = Some b \<and> bnd_destination b = d" if c: "hm_contains (next_selection r) d" for d
  proof -
    have "index_members set (by_destination r) d \<noteq> {}"
      using R(8) [OF c] by_destination_index.absent_iff [OF R(4)] by simp
    then show ?thesis by (auto simp: R(5) group_ids_def)
  qed
  then show ?thesis
    using R(5,7) binding_for_session_destination_iff [OF ok] by (simp add: group_ids_def)
qed

theorem registry_indexes_agree_witness:
  "binding_for_session_destination 20 sample_destination sample_registry =
     Some \<lparr>bnd_id = 2, bnd_destination = sample_destination, bnd_session_id = 20\<rparr>"
  using registry_indexes_agree [OF sample_registry_reached] by (simp add: sample_registry_def)

text \<open>
  C33. \<open>LocalRegistry::register\<close> returns once its random identifiers contain more distinct values
  than there are bindings, and then the session is registered under the destination: with the
  binding it already had, or with a new one whose identifier no other binding has; every other
  binding stays.
\<close>

theorem registry_register_returns:
  assumes "registry_reach r" and "length (by_id r) < card (set draws)"
  shows "\<exists>reg r' b. registry_register draws session d r = Some (reg, r') \<and> reg \<in> {Created b, Existing b} \<and>
    binding_for_session_destination session d r' = Some b \<and>
    bnds r' = (bnds r)(bnd_id b \<mapsto> b) \<and> (reg = Created b \<longrightarrow> bnds r (bnd_id b) = None)"
proof -
  have ok: "registry_ok r" by (rule registry_inv.reach_inv [OF assms(1)])
  have "card (dom (bnds r)) < card (set draws)" using card_dom_hm registry_okD(1) [OF ok] assms(2) by metis
  then have "\<not> set draws \<subseteq> dom (bnds r)" by (meson card_mono finite_dom_map_of not_less)
  then have "unique_binding_id draws r \<noteq> None"
    by (auto simp: unique_binding_id_def find_None_iff domIff simp del: not_None_eq)
  then obtain i where "unique_binding_id draws r = Some i" by blast
  then obtain reg r' where reg: "registry_register draws session d r = Some (reg, r')"
    by (cases "binding_for_session_destination session d r") (auto simp: registry_register_def Let_def)
  note P = registry_register_ok [OF ok reg]
  show ?thesis
  proof (cases reg)
    case (Created b)
    then have b: "bnd_destination b = d" "bnd_session_id b = session" "bnds r (bnd_id b) = None"
      and r': "by_id r' = hm_insert (bnd_id b) b (by_id r)" "registry_ok r'"
      using P by simp_all
    have "bnds r' = (bnds r)(bnd_id b \<mapsto> b)" by (rule ext) (simp add: r' table_simps)
    moreover have "binding_for_session_destination session d r' = Some b"
      using calculation b by (subst binding_for_session_destination_iff [OF r'(2)]) simp
    ultimately show ?thesis using reg Created b by blast
  next
    case (Existing b)
    then have "r' = r" "bnds r (bnd_id b) = Some b" "binding_for_session_destination session d r' = Some b"
      using P binding_for_session_destination_iff [of r' session d b] by auto
    then show ?thesis using reg Existing by (intro exI [of _ reg] exI [of _ r'] exI [of _ b]) (simp add: fun_upd_idem)
  qed
qed

theorem registry_register_returns_witness:
  "\<exists>reg r' b. registry_register [1, 2, 3] 10 sample_destination sample_registry = Some (reg, r') \<and> reg \<in> {Created b, Existing b} \<and>
    binding_for_session_destination 10 sample_destination r' = Some b \<and>
    bnds r' = (bnds sample_registry)(bnd_id b \<mapsto> b) \<and> (reg = Created b \<longrightarrow> bnds sample_registry (bnd_id b) = None)"
  by (rule registry_register_returns [OF sample_registry_reached]) (simp add: sample_registry_def)

end
