(* ===== verification/Authorization.thy ===== *)
theory Authorization
  imports Frame Route_Model
begin

text \<open>
  Authorization of PUBLISH and DIAL (\<open>relaygate-gateway/src/authorization.rs\<close>, \<open>authorization/claims.rs\<close>,
  \<open>authorization/config.rs\<close>): the control operation split from its frame, the permission claims of an
  operation token, the validated trust configuration and the verifier. The JWT library is a
  parameter: \<open>decode_header\<close> reads the unverified header of a token, \<open>decode\<close> returns the claims of
  a token whose signature and registered claims it accepted for a key and a validation, and a
  decoding key is an opaque value of type \<open>'k\<close>. Base64 and the P-256 point check are parameters of
  \<open>es256_public_key_new\<close>.
\<close>

section \<open>Claims\<close>

datatype action = ActionPublish | ActionDial

datatype audience = AudienceOne string | AudienceMany "string list"

datatype destination_scope =
    ScopeExact destination_name
  | ScopeSubtree destination_name
  | ScopeAll

record permission =
  perm_action :: action
  perm_namespace :: namespace
  perm_scope :: destination_scope

record claims =
  iss :: string
  aud :: audience
  nbf :: nat
  exp_at :: nat
  permissions :: "permission list"

definition MAX_PERMISSIONS :: nat where
  "MAX_PERMISSIONS = 128"

fun audience_is_non_empty :: "audience \<Rightarrow> bool" where
  "audience_is_non_empty (AudienceOne value) = (value \<noteq> [])"
| "audience_is_non_empty (AudienceMany values) = (values \<noteq> [] \<and> list_all (\<lambda>v. v \<noteq> []) values)"

definition registered_claims_are_sane :: "claims \<Rightarrow> bool" where
  "registered_claims_are_sane c \<longleftrightarrow> iss c \<noteq> [] \<and> audience_is_non_empty (aud c) \<and> nbf c < exp_at c"

fun scope_contains :: "destination_scope \<Rightarrow> destination_name \<Rightarrow> bool" where
  "scope_contains (ScopeExact n) name = (name = n)"
| "scope_contains (ScopeSubtree prefix) name = (name = prefix \<or> is_descendant_of name prefix)"
| "scope_contains ScopeAll name = True"

definition claims_authorizes :: "claims \<Rightarrow> action \<Rightarrow> destination \<Rightarrow> bool" where
  "claims_authorizes c a d \<longleftrightarrow> length (permissions c) \<le> MAX_PERMISSIONS \<and>
     list_ex (\<lambda>p. perm_action p = a \<and> perm_namespace p = dest_namespace d \<and>
       scope_contains (perm_scope p) (dest_name d)) (permissions c)"

section \<open>Control operations\<close>

datatype control_operation =
    ControlPublish u64 destination
  | ControlDial u64 destination instant

fun control_take :: "instant \<Rightarrow> frame \<Rightarrow> frame + (control_operation \<times> bearer_token)" where
  "control_take now (FramePublish request_id d token) = Inr (ControlPublish request_id d, token)"
| "control_take now (FrameDial connection_id d token) = Inr (ControlDial connection_id d now, token)"
| "control_take now frame = Inl frame"

fun operation_destination :: "control_operation \<Rightarrow> destination" where
  "operation_destination (ControlPublish request_id d) = d"
| "operation_destination (ControlDial connection_id d started_at) = d"

fun operation_action :: "control_operation \<Rightarrow> action" where
  "operation_action (ControlPublish request_id d) = ActionPublish"
| "operation_action (ControlDial connection_id d started_at) = ActionDial"

definition AUTHORIZATION_FAILED :: string where
  "AUTHORIZATION_FAILED = ''operation authorization failed''"

fun operation_failure :: "control_operation \<Rightarrow> error_code \<Rightarrow> frame" where
  "operation_failure (ControlPublish request_id d) code = FramePublishFailed request_id code AUTHORIZATION_FAILED"
| "operation_failure (ControlDial connection_id d started_at) code =
     FrameDialFailed connection_id code NotObserved AUTHORIZATION_FAILED"

record verified_authorization =
  verified_destination :: destination
  verified_action :: action
  verified_expires_at :: instant

definition authorizes :: "verified_authorization \<Rightarrow> control_operation \<Rightarrow> instant \<Rightarrow> bool" where
  "authorizes v op now \<longleftrightarrow> verified_destination v = operation_destination op \<and>
     verified_action v = operation_action op \<and> now < verified_expires_at v"

section \<open>Trust configuration\<close>

record 'k es256_public_key =
  kid :: string
  decoding_key :: 'k

record 'k trusted_issuer =
  issuer_namespace :: namespace
  issuer :: string
  issuer_keys :: "'k es256_public_key list"

record 'k authorization_config =
  config_audience :: string
  issuers :: "'k trusted_issuer list"
  clock_skew :: duration

definition MAX_AUDIENCE_BYTES :: nat where "MAX_AUDIENCE_BYTES = 256"
definition MAX_ISSUER_BYTES :: nat where "MAX_ISSUER_BYTES = 2048"
definition MAX_KEY_ID_BYTES :: nat where "MAX_KEY_ID_BYTES = 128"
definition MAX_ISSUERS :: nat where "MAX_ISSUERS = 256"
definition MAX_KEYS_PER_ISSUER :: nat where "MAX_KEYS_PER_ISSUER = 2"
definition NANOS_PER_SEC :: nat where "NANOS_PER_SEC = 1000000000"
definition MAX_CLOCK_SKEW :: duration where "MAX_CLOCK_SKEW = 300 * NANOS_PER_SEC"

definition validate_p256_point ::
  "(string \<Rightarrow> bytes option) \<Rightarrow> (bytes \<Rightarrow> bool) \<Rightarrow> string \<Rightarrow> string \<Rightarrow> string + unit" where
  "validate_p256_point base64 on_curve x y =
     (let invalid = Inl ''ES256 public key coordinates are invalid'' in
      case base64 x of None \<Rightarrow> invalid | Some xb \<Rightarrow>
      case base64 y of None \<Rightarrow> invalid | Some yb \<Rightarrow>
        if length xb \<noteq> 32 \<or> length yb \<noteq> 32 then invalid
        else if on_curve (char_of (4::nat) # xb @ yb) then Inr () else invalid)"

definition es256_public_key_new ::
  "(string \<Rightarrow> bytes option) \<Rightarrow> (bytes \<Rightarrow> bool) \<Rightarrow> (string \<Rightarrow> string \<Rightarrow> 'k option) \<Rightarrow>
   string \<Rightarrow> string \<Rightarrow> string \<Rightarrow> string + 'k es256_public_key" where
  "es256_public_key_new base64 on_curve from_ec_components k x y =
     (if k = [] \<or> length k > MAX_KEY_ID_BYTES then Inl ''ES256 key kid must be 1..=128 bytes''
      else case validate_p256_point base64 on_curve x y of Inl e \<Rightarrow> Inl e | Inr _ \<Rightarrow>
        (case from_ec_components x y of
           None \<Rightarrow> Inl ''ES256 public key coordinates are invalid''
         | Some key \<Rightarrow> Inr \<lparr>kid = k, decoding_key = key\<rparr>))"

definition trusted_issuer_new ::
  "namespace \<Rightarrow> string \<Rightarrow> 'k es256_public_key list \<Rightarrow> string + 'k trusted_issuer" where
  "trusted_issuer_new ns i keys =
     (if i = [] \<or> length i > MAX_ISSUER_BYTES then Inl ''JWT issuer must be 1..=2048 bytes''
      else if keys = [] \<or> length keys > MAX_KEYS_PER_ISSUER
        then Inl ''each issuer must configure one or two ES256 keys''
      else if \<not> distinct (map kid keys) then Inl ''JWT key ids must be unique within an issuer''
      else Inr \<lparr>issuer_namespace = ns, issuer = i, issuer_keys = keys\<rparr>)"

definition authorization_config_new ::
  "string \<Rightarrow> 'k trusted_issuer list \<Rightarrow> string + 'k authorization_config" where
  "authorization_config_new audience is =
     (if audience = [] \<or> length audience > MAX_AUDIENCE_BYTES then Inl ''JWT audience must be 1..=256 bytes''
      else if is = [] \<or> length is > MAX_ISSUERS then Inl ''authorization must configure 1..=256 trusted issuers''
      else if \<not> distinct (map (namespace_as_str \<circ> issuer_namespace) is)
        then Inl ''each namespace must have exactly one trusted issuer''
      else Inr \<lparr>config_audience = audience, issuers = is, clock_skew = 30 * NANOS_PER_SEC\<rparr>)"

definition with_clock_skew :: "'k authorization_config \<Rightarrow> duration \<Rightarrow> string + 'k authorization_config" where
  "with_clock_skew c skew =
     (if skew > MAX_CLOCK_SKEW then Inl ''JWT clock skew must not exceed 300 seconds''
      else Inr (c\<lparr>clock_skew := skew\<rparr>))"

section \<open>The verifier\<close>

datatype algorithm = ES256 | OtherAlgorithm string

record jwt_header =
  header_alg :: algorithm
  header_typ :: "string option"
  header_crit :: "string list option"
  header_kid :: "string option"

record validation =
  validation_algorithm :: algorithm
  validate_nbf :: bool
  leeway :: nat
  required_spec_claims :: "string list"
  validation_issuers :: "string list"
  validation_audience :: "string list"

definition TOKEN_TYPE :: string where
  "TOKEN_TYPE = ''relaygate-operation+jwt''"

definition TOKEN_MEDIA_TYPE :: string where
  "TOKEN_MEDIA_TYPE = ''application/relaygate-operation+jwt''"

definition eq_ignore_ascii_case :: "string \<Rightarrow> string \<Rightarrow> bool" where
  "eq_ignore_ascii_case a b \<longleftrightarrow> map to_ascii_lowercase a = map to_ascii_lowercase b"

definition is_supported_token_type :: "string \<Rightarrow> bool" where
  "is_supported_token_type t \<longleftrightarrow> eq_ignore_ascii_case t TOKEN_TYPE \<or> eq_ignore_ascii_case t TOKEN_MEDIA_TYPE"

definition verification_of :: "'k authorization_config \<Rightarrow> 'k trusted_issuer \<Rightarrow> validation" where
  "verification_of c trusted =
     \<lparr>validation_algorithm = ES256, validate_nbf = True, leeway = clock_skew c div NANOS_PER_SEC,
      required_spec_claims = [''iss'', ''aud'', ''nbf'', ''exp''],
      validation_issuers = [issuer trusted], validation_audience = [config_audience c]\<rparr>"

definition token_expiry :: "'k authorization_config \<Rightarrow> claims \<Rightarrow> nat \<Rightarrow> instant \<Rightarrow> instant option" where
  "token_expiry c cl now checked_at =
     (let expires_unix = exp_at cl + clock_skew c div NANOS_PER_SEC in
      if expires_unix \<ge> 2 ^ 64 then None
      else if expires_unix < now then None
      else instant_checked_add checked_at ((expires_unix - now) * NANOS_PER_SEC))"

definition verify ::
  "(string \<Rightarrow> jwt_header option) \<Rightarrow> (string \<Rightarrow> 'k \<Rightarrow> validation \<Rightarrow> claims option) \<Rightarrow>
   'k authorization_config \<Rightarrow> nat \<Rightarrow> instant \<Rightarrow> bearer_token \<Rightarrow> control_operation \<Rightarrow>
   error_code + verified_authorization" where
  "verify decode_header decode c now checked_at token op =
     (case decode_header (expose_secret token) of None \<Rightarrow> Inl Unauthenticated | Some header \<Rightarrow>
      if header_alg header \<noteq> ES256
        \<or> \<not> (case header_typ header of None \<Rightarrow> False | Some t \<Rightarrow> is_supported_token_type t)
        \<or> header_crit header \<noteq> None
      then Inl Unauthenticated else
      case header_kid header of None \<Rightarrow> Inl Unauthenticated | Some k \<Rightarrow>
      case find (\<lambda>i. issuer_namespace i = dest_namespace (operation_destination op)) (issuers c) of
        None \<Rightarrow> Inl Unauthenticated | Some trusted \<Rightarrow>
      case find (\<lambda>key. kid key = k) (issuer_keys trusted) of
        None \<Rightarrow> Inl Unauthenticated | Some key \<Rightarrow>
      case decode (expose_secret token) (decoding_key key) (verification_of c trusted) of
        None \<Rightarrow> Inl Unauthenticated | Some cl \<Rightarrow>
      if \<not> registered_claims_are_sane cl then Inl Unauthenticated else
      case token_expiry c cl now checked_at of None \<Rightarrow> Inl Unauthenticated | Some expires_at \<Rightarrow>
      if \<not> claims_authorizes cl (operation_action op) (operation_destination op) then Inl PermissionDenied
      else Inr \<lparr>verified_destination = operation_destination op, verified_action = operation_action op,
                verified_expires_at = expires_at\<rparr>)"

section \<open>What a verified operation may do\<close>

text \<open>The claims a token carries once every check of the verifier has accepted it.\<close>

definition accepted_claims ::
  "(string \<Rightarrow> jwt_header option) \<Rightarrow> (string \<Rightarrow> 'k \<Rightarrow> validation \<Rightarrow> claims option) \<Rightarrow> 'k authorization_config \<Rightarrow>
   bearer_token \<Rightarrow> namespace \<Rightarrow> claims \<Rightarrow> bool" where
  "accepted_claims decode_header decode c token ns cl \<longleftrightarrow>
     (\<exists>header t k trusted key.
        decode_header (expose_secret token) = Some header \<and> header_alg header = ES256 \<and>
        header_typ header = Some t \<and> is_supported_token_type t \<and> header_crit header = None \<and>
        header_kid header = Some k \<and>
        trusted \<in> set (issuers c) \<and> issuer_namespace trusted = ns \<and>
        key \<in> set (issuer_keys trusted) \<and> kid key = k \<and>
        decode (expose_secret token) (decoding_key key) (verification_of c trusted) = Some cl \<and>
        registered_claims_are_sane cl)"

lemma verify_cases:
  "case verify decode_header decode c now checked_at token op of
     Inl code \<Rightarrow> code = Unauthenticated \<or> code = PermissionDenied \<and>
       (\<exists>cl. accepted_claims decode_header decode c token (dest_namespace (operation_destination op)) cl \<and>
         \<not> claims_authorizes cl (operation_action op) (operation_destination op))
   | Inr v \<Rightarrow> verified_destination v = operation_destination op \<and> verified_action v = operation_action op \<and>
       (\<exists>cl. accepted_claims decode_header decode c token (dest_namespace (operation_destination op)) cl \<and>
         claims_authorizes cl (operation_action op) (operation_destination op) \<and>
         token_expiry c cl now checked_at = Some (verified_expires_at v))"
  unfolding verify_def accepted_claims_def
  by (auto simp: find_Some_iff split: option.splits if_splits)
    (metis nth_mem)+

definition scope_labels :: "destination_scope \<Rightarrow> string list \<Rightarrow> bool" where
  "scope_labels sc ls = (case sc of ScopeExact n \<Rightarrow> ls = labels n | ScopeSubtree n \<Rightarrow> take (length (labels n)) ls = labels n | ScopeAll \<Rightarrow> True)"

lemma labels_inject: "labels n = labels m \<longleftrightarrow> n = m"
  by (cases n; cases m) (metis join_split destination_name.sel)

lemma scope_contains_labels: "scope_contains sc n \<longleftrightarrow> scope_labels sc (labels n)"
proof (cases sc)
  case (ScopeSubtree p)
  have "n = p \<or> (\<exists>ls. ls \<noteq> [] \<and> labels n = labels p @ ls) \<longleftrightarrow> (\<exists>ls. labels n = labels p @ ls)"
    using labels_inject [of n p] by (metis append_Nil2)
  also have "\<dots> \<longleftrightarrow> take (length (labels p)) (labels n) = labels p" by (metis append_eq_conv_conj append_take_drop_id)
  finally show ?thesis using ScopeSubtree by (simp add: is_descendant_of_labels scope_labels_def)
qed (auto simp: scope_labels_def labels_inject)

lemma issuer_unique:
  assumes "authorization_config_new a is = Inr c" "i \<in> set (issuers c)" "j \<in> set (issuers c)"
    and "issuer_namespace i = issuer_namespace j"
  shows "i = j"
proof -
  have "distinct (map (namespace_as_str \<circ> issuer_namespace) (issuers c))"
    using assms(1) by (auto simp: authorization_config_new_def split: if_splits)
  then show ?thesis using assms(2-4) by (simp add: distinct_map inj_on_def)
qed

lemma token_expiry_bound:
  assumes "token_expiry c cl now checked_at = Some e" "t < e" "checked_at \<le> t"
  shows "now * NANOS_PER_SEC + (t - checked_at) < (exp_at cl + clock_skew c div NANOS_PER_SEC) * NANOS_PER_SEC"
  using assms by (auto simp: token_expiry_def Let_def instant_checked_add_def diff_mult_distrib NANOS_PER_SEC_def
      split: if_splits)

text \<open>
  C3. What passes authorization was permitted. When \<open>Verifier::verify\<close> accepted a token for an
  operation and \<open>VerifiedAuthorization::authorizes\<close> still admits an operation at time \<open>t\<close>, then the
  admitted operation has the action and the destination that were verified; the token was accepted
  by the JWT library under a key of the only issuer trusted for the destination's namespace and
  names that issuer; its claims hold at most 128 permissions, one of which grants the action in that
  namespace with a scope that covers the destination label by label; and on the clock that started
  at the verification its expiry, with the configured skew, has not passed. The hypothesis on
  \<open>decode\<close> is the documented issuer check of the JWT library.
\<close>

theorem verified_operation_permitted:
  assumes "authorization_config_new a is = Inr c0" and "with_clock_skew c0 skew = Inr c"
    and issuer_checked: "\<forall>token key v cl. decode token key v = Some cl \<longrightarrow> iss cl \<in> set (validation_issuers v)"
    and "verify decode_header decode c now checked_at token op = Inr v"
    and "authorizes v op' t" and "checked_at \<le> t"
  shows "operation_action op' = operation_action op \<and> operation_destination op' = operation_destination op \<and>
    (\<exists>!trusted. trusted \<in> set is \<and> issuer_namespace trusted = dest_namespace (operation_destination op')) \<and>
    (\<exists>trusted key cl.
       trusted \<in> set is \<and> issuer_namespace trusted = dest_namespace (operation_destination op') \<and>
       key \<in> set (issuer_keys trusted) \<and>
       decode (expose_secret token) (decoding_key key) (verification_of c trusted) = Some cl \<and>
       iss cl = issuer trusted \<and> length (permissions cl) \<le> 128 \<and>
       (\<exists>p \<in> set (permissions cl). perm_action p = operation_action op' \<and>
          perm_namespace p = dest_namespace (operation_destination op') \<and>
          scope_labels (perm_scope p) (labels (dest_name (operation_destination op')))) \<and>
       now * NANOS_PER_SEC + (t - checked_at) < (exp_at cl + skew div NANOS_PER_SEC) * NANOS_PER_SEC)"
proof -
  have c: "issuers c = is" "clock_skew c = skew" "issuers c0 = is"
    using assms(1,2) by (auto simp: with_clock_skew_def authorization_config_new_def split: if_splits)
  have op: "operation_destination op' = operation_destination op" "operation_action op' = operation_action op"
    and t: "t < verified_expires_at v"
    using assms(4,5) verify_cases [where decode_header = decode_header and decode = decode and c = c and now = now and
        checked_at = checked_at and token = token and op = op]
    by (auto simp: authorizes_def)
  obtain cl where cl: "accepted_claims decode_header decode c token (dest_namespace (operation_destination op)) cl"
    "claims_authorizes cl (operation_action op) (operation_destination op)"
    "token_expiry c cl now checked_at = Some (verified_expires_at v)"
    using assms(4) verify_cases [where decode_header = decode_header and decode = decode and c = c and now = now and
        checked_at = checked_at and token = token and op = op] by auto
  then obtain trusted key where trusted: "trusted \<in> set is" "issuer_namespace trusted = dest_namespace (operation_destination op)"
    "key \<in> set (issuer_keys trusted)"
    and decoded: "decode (expose_secret token) (decoding_key key) (verification_of c trusted) = Some cl"
    unfolding accepted_claims_def c(1) by blast
  have "\<exists>!i. i \<in> set is \<and> issuer_namespace i = dest_namespace (operation_destination op)"
    using trusted issuer_unique [OF assms(1)] unfolding c(3) by metis
  moreover have "iss cl = issuer trusted" using issuer_checked decoded by (fastforce simp add: verification_of_def)
  moreover have "length (permissions cl) \<le> 128" and "\<exists>p \<in> set (permissions cl). perm_action p = operation_action op \<and>
      perm_namespace p = dest_namespace (operation_destination op) \<and>
      scope_labels (perm_scope p) (labels (dest_name (operation_destination op)))"
    using cl(2) by (auto simp: claims_authorizes_def MAX_PERMISSIONS_def list_ex_iff scope_contains_labels)
  moreover note token_expiry_bound [OF cl(3) t assms(6)]
  ultimately show ?thesis unfolding op c(2) using trusted decoded by blast
qed

definition sample_operation :: control_operation where
  "sample_operation = ControlPublish 1 \<lparr>dest_namespace = Namespace ''n'', dest_name = DestinationName ''a.b''\<rparr>"

definition sample_claims :: claims where
  "sample_claims = \<lparr>iss = ''i'', aud = AudienceOne ''g'', nbf = 1, exp_at = 100, permissions =
     [\<lparr>perm_action = ActionPublish, perm_namespace = Namespace ''n'', perm_scope = ScopeSubtree (DestinationName ''a'')\<rparr>]\<rparr>"

definition sample_issuers :: "nat trusted_issuer list" where
  "sample_issuers = [\<lparr>issuer_namespace = Namespace ''n'', issuer = ''i'', issuer_keys = [\<lparr>kid = ''k'', decoding_key = 7\<rparr>]\<rparr>]"

definition sample_header :: jwt_header where
  "sample_header = \<lparr>header_alg = ES256, header_typ = Some TOKEN_TYPE, header_crit = None, header_kid = Some ''k''\<rparr>"

definition sample_decode :: "string \<Rightarrow> nat \<Rightarrow> validation \<Rightarrow> claims option" where
  "sample_decode token key v =
     (if key = 7 \<and> iss sample_claims \<in> set (validation_issuers v) then Some sample_claims else None)"

theorem verified_operation_permitted_witness:
  "\<exists>v c0. authorization_config_new ''g'' sample_issuers = Inr c0 \<and>
     verify (\<lambda>_. Some sample_header) sample_decode c0 50 0 (BearerToken ''t'') sample_operation = Inr v \<and>
     authorizes v sample_operation 1 \<and>
     (\<exists>!i. i \<in> set sample_issuers \<and> issuer_namespace i = dest_namespace (operation_destination sample_operation))"
proof -
  let ?c = "\<lparr>config_audience = ''g'', issuers = sample_issuers, clock_skew = 30 * NANOS_PER_SEC\<rparr>"
  let ?v = "\<lparr>verified_destination = operation_destination sample_operation, verified_action = ActionPublish,
    verified_expires_at = 80 * NANOS_PER_SEC\<rparr>"
  have c: "authorization_config_new ''g'' sample_issuers = Inr ?c"
    by (simp add: authorization_config_new_def sample_issuers_def MAX_AUDIENCE_BYTES_def MAX_ISSUERS_def)
  have skew: "with_clock_skew ?c (30 * NANOS_PER_SEC) = Inr ?c" by (simp add: with_clock_skew_def MAX_CLOCK_SKEW_def)
  have v: "verify (\<lambda>_. Some sample_header) sample_decode ?c 50 0 (BearerToken ''t'') sample_operation = Inr ?v"
    by (simp add: verify_def sample_header_def sample_issuers_def sample_decode_def sample_claims_def sample_operation_def
        verification_of_def registered_claims_are_sane_def claims_authorizes_def is_supported_token_type_def
        eq_ignore_ascii_case_def token_expiry_def instant_checked_add_def INSTANT_MAX_def NANOS_PER_SEC_def
        MAX_PERMISSIONS_def is_descendant_of_def)
  have auth: "authorizes ?v sample_operation 1"
    by (simp add: authorizes_def sample_operation_def NANOS_PER_SEC_def)
  have dec: "\<forall>token key v cl. sample_decode token key v = Some cl \<longrightarrow> iss cl \<in> set (validation_issuers v)"
    by (auto simp: sample_decode_def split: if_splits)
  show ?thesis using c v auth verified_operation_permitted [OF c skew dec v auth] by auto
qed

end
