(* ===== verification/Peer_Identity.thy ===== *)
theory Peer_Identity
  imports Frame Route_Model
begin

text \<open>
  Identities of the gateway-to-gateway relay (\<open>relaygate-gateway-peer/src/identity.rs\<close> and the stream
  key of \<open>event.rs\<close>): the OPEN correlation identity, the stream key, the events a transport reports
  and the two halves that keep stream identifiers of one transport apart, the local allocator and the
  guard on what the remote side opens.
\<close>

unbundle bit_operations_syntax

type_synonym peer_transport_id = uuid
type_synonym stream_id = u64

record open_identity =
  entry_gateway :: gateway_id
  origin_session :: session_id
  open_connection_id :: u64

definition open_identity_new :: "gateway_id \<Rightarrow> session_id \<Rightarrow> u64 \<Rightarrow> open_identity" where
  "open_identity_new g s c = \<lparr>entry_gateway = g, origin_session = s, open_connection_id = c\<rparr>"

record peer_stream_key =
  peer_gateway_id :: gateway_id
  key_transport_id :: peer_transport_id
  key_stream_id :: stream_id

datatype stream_endpoint = EndpointDialer | EndpointAcceptor

datatype peer_error =
    PeerInvalidArgument string
  | PeerAlreadyExists string
  | PeerFailedPrecondition string
  | PeerProtocol string
  | PeerResourceExhausted string

fun endpoint_bit :: "stream_endpoint \<Rightarrow> u64" where
  "endpoint_bit EndpointDialer = 0"
| "endpoint_bit EndpointAcceptor = 1"

definition initiator_bit :: "stream_id \<Rightarrow> u64" where
  "initiator_bit i = i AND 1"

definition stream_counter :: "stream_id \<Rightarrow> u64" where
  "stream_counter i = drop_bit 1 i"

record stream_id_allocator =
  alloc_endpoint :: stream_endpoint
  next_counter :: u64

definition allocator_new :: "stream_endpoint \<Rightarrow> stream_id_allocator" where
  "allocator_new e = \<lparr>alloc_endpoint = e, next_counter = 0\<rparr>"

definition I64_MAX :: u64 where
  "I64_MAX = 0x7FFFFFFFFFFFFFFF"

definition allocate :: "stream_id_allocator \<Rightarrow> (peer_error + stream_id) \<times> stream_id_allocator" where
  "allocate al =
     (if next_counter al > I64_MAX
      then (Inl (PeerResourceExhausted ''PeerTransport StreamId counter is exhausted''), al)
      else (Inr (push_bit 1 (next_counter al) OR endpoint_bit (alloc_endpoint al)),
            al\<lparr>next_counter := next_counter al + 1\<rparr>))"

record remote_stream_guard =
  remote_endpoint :: stream_endpoint
  highest_counter :: "u64 option"

definition guard_new :: "stream_endpoint \<Rightarrow> remote_stream_guard" where
  "guard_new e = \<lparr>remote_endpoint = e, highest_counter = None\<rparr>"

definition accept_open :: "stream_id \<Rightarrow> remote_stream_guard \<Rightarrow> (peer_error + unit) \<times> remote_stream_guard" where
  "accept_open i g =
     (if initiator_bit i \<noteq> endpoint_bit (remote_endpoint g)
      then (Inl (PeerProtocol ''remote StreamId role bit is invalid''), g)
      else if (case highest_counter g of None \<Rightarrow> False | Some highest \<Rightarrow> stream_counter i \<le> highest)
      then (Inl (PeerProtocol ''remote StreamId counter is not strictly increasing''), g)
      else (Inr (), g\<lparr>highest_counter := Some (stream_counter i)\<rparr>))"

section \<open>Events a transport reports\<close>

datatype peer_open_progress = AfterOpenCommit | ProgressOpened

fun failure_observation :: "peer_open_progress \<Rightarrow> peer_observation" where
  "failure_observation AfterOpenCommit = MaybeObserved"
| "failure_observation ProgressOpened = MaybeObserved"

record lost_peer_stream =
  lost_key :: peer_stream_key
  lost_open_identity :: open_identity
  lost_progress :: peer_open_progress

datatype peer_event =
    EventIncomingOpen peer_stream_key open_identity destination session_id binding_id
  | EventOpened peer_stream_key open_identity
  | EventFailed peer_stream_key open_identity error_code peer_observation string
  | EventData peer_stream_key bytes
  | EventFin peer_stream_key
  | EventClose peer_stream_key
  | EventReset peer_stream_key error_code string
  | EventTransportLost gateway_id peer_transport_id "lost_peer_stream list"

section \<open>Stream identifiers of one transport\<close>

fun allocate_times :: "nat \<Rightarrow> stream_id_allocator \<Rightarrow> (peer_error + stream_id) list \<times> stream_id_allocator" where
  "allocate_times 0 al = ([], al)"
| "allocate_times (Suc n) al =
     (case allocate al of (r, al1) \<Rightarrow> case allocate_times n al1 of (rs, al2) \<Rightarrow> (r # rs, al2))"

fun accept_all :: "stream_id list \<Rightarrow> remote_stream_guard \<Rightarrow> bool" where
  "accept_all [] g = True"
| "accept_all (i # is) g = (case accept_open i g of (Inr _, g1) \<Rightarrow> accept_all is g1 | (Inl _, g1) \<Rightarrow> False)"

definition stream_at :: "stream_endpoint \<Rightarrow> nat \<Rightarrow> stream_id" where
  "stream_at e k = of_nat (2 * k + unat (endpoint_bit e))"

lemma stream_at_OR: "push_bit 1 (of_nat k) OR endpoint_bit e = stream_at e k"
proof (cases e)
  case EndpointAcceptor
  have "push_bit 1 (of_nat k :: u64) OR 1 = push_bit 1 (of_nat k) + 1"
    by (rule disjunctive_add [symmetric]) (simp only: bit_push_bit_iff bit_1_iff, simp)
  then show ?thesis using EndpointAcceptor by (simp add: stream_at_def)
qed (simp add: stream_at_def)

lemma unat_stream_at: "k < 2 ^ 63 \<Longrightarrow> unat (stream_at e k) = 2 * k + unat (endpoint_bit e)"
  by (cases e) (simp_all add: stream_at_def unat_of_nat del: of_nat_add of_nat_mult of_nat_Suc)

lemma stream_at_parts:
  assumes "k < 2 ^ 63"
  shows "initiator_bit (stream_at e k) = endpoint_bit e \<and> stream_counter (stream_at e k) = of_nat k"
proof -
  have "unat (stream_at e k AND 1) = unat (stream_at e k) mod 2" by (simp add: and_one_eq unat_mod)
  then have "unat (initiator_bit (stream_at e k)) = unat (endpoint_bit e)"
    using unat_stream_at [OF assms] by (cases e) (auto simp: initiator_bit_def)
  moreover have "unat (stream_counter (stream_at e k)) = k"
    using unat_stream_at [OF assms, of e] by (cases e) (simp_all add: stream_counter_def drop_bit_Suc unat_div)
  then have "stream_counter (stream_at e k) = of_nat k" by (metis unat_of_nat word_unat_eq_iff assms unat_stream_at le_unat_uoi order_refl)
  ultimately show ?thesis by (simp add: word_unat_eq_iff)
qed

lemma allocate_at:
  assumes "k < 2 ^ 63"
  shows "allocate \<lparr>alloc_endpoint = e, next_counter = of_nat k\<rparr> =
    (Inr (stream_at e k), \<lparr>alloc_endpoint = e, next_counter = of_nat (Suc k)\<rparr>)"
proof -
  have "unat (of_nat k :: u64) \<le> unat I64_MAX" using assms by (simp add: I64_MAX_def unat_of_nat)
  then have "\<not> (of_nat k :: u64) > I64_MAX" by (simp add: word_less_nat_alt)
  then show ?thesis unfolding allocate_def by (simp only: stream_at_OR stream_id_allocator.select_convs if_False) simp
qed

lemma allocate_times_at:
  "k + n \<le> 2 ^ 63 \<Longrightarrow> allocate_times n \<lparr>alloc_endpoint = e, next_counter = of_nat k\<rparr> =
     (map (Inr \<circ> stream_at e) [k..<k + n], \<lparr>alloc_endpoint = e, next_counter = of_nat (k + n)\<rparr>)"
proof (induction n arbitrary: k)
  case (Suc n)
  then have "allocate \<lparr>alloc_endpoint = e, next_counter = of_nat k\<rparr> =
      (Inr (stream_at e k), \<lparr>alloc_endpoint = e, next_counter = of_nat (Suc k)\<rparr>)"
    by (intro allocate_at) simp
  moreover have "[k..<k + Suc n] = k # [Suc k..<Suc k + n]" by (simp add: upt_conv_Cons del: upt_Suc)
  ultimately show ?case using Suc.IH [of "Suc k"] Suc.prems by (simp del: upt_Suc of_nat_Suc of_nat_add)
qed simp

lemma accept_all_at:
  "k + n \<le> 2 ^ 63 \<Longrightarrow> (\<And>h. highest_counter g = Some h \<Longrightarrow> unat h < k) \<Longrightarrow> remote_endpoint g = e \<Longrightarrow>
     accept_all (map (stream_at e) [k..<k + n]) g"
proof (induction n arbitrary: k g)
  case (Suc n)
  let ?g = "g\<lparr>highest_counter := Some (of_nat k)\<rparr>"
  have k: "k < 2 ^ 63" and u: "unat (of_nat k :: u64) = k" using Suc.prems(1) by (auto simp: unat_of_nat)
  have "accept_open (stream_at e k) g = (Inr (), ?g)"
    using Suc.prems(2,3) stream_at_parts [OF k, of e]
    by (auto simp: accept_open_def word_le_nat_alt u split: option.splits)
  moreover have "accept_all (map (stream_at e) [Suc k..<Suc k + n]) ?g"
    using Suc.prems u by (intro Suc.IH) auto
  moreover have "[k..<k + Suc n] = k # [Suc k..<Suc k + n]" by (simp add: upt_conv_Cons del: upt_Suc)
  ultimately show ?case by (simp del: upt_Suc)
qed simp

lemma stream_at_inject:
  assumes "k < 2 ^ 63" "l < 2 ^ 63" "stream_at e k = stream_at f l"
  shows "k = l \<and> e = f"
proof -
  have "2 * k + unat (endpoint_bit e) = 2 * l + unat (endpoint_bit f)"
    using assms unat_stream_at by metis
  then show ?thesis by (cases e; cases f) (simp_all, presburger+)
qed



end
