(* ===== verification/Rate_Limit.thy ===== *)
theory Rate_Limit
  imports Prelude
begin

text \<open>
  The token bucket of \<open>relaygate-gateway/src/rate_limit.rs\<close> that limits control operations per
  session and connections per listener, the mutex-guarded \<open>ConnectionRateLimit\<close> of
  \<open>gateway/connection_rate.rs\<close>, and the deterministic stagger of \<open>jitter.rs\<close>. Credits are \<open>u128\<close>
  nanosecond credits with saturating arithmetic; \<open>now\<close> is the value the clock returned.
\<close>

definition TOKEN :: nat where "TOKEN = 1000000000"

record token_bucket =
  per_second :: nat
  capacity :: nat
  credit :: nat
  updated_at :: instant

definition token_bucket_new :: "nat \<Rightarrow> nat \<Rightarrow> instant \<Rightarrow> token_bucket" where
  "token_bucket_new rate burst now =
     \<lparr>per_second = rate, capacity = burst * TOKEN, credit = burst * TOKEN, updated_at = now\<rparr>"

definition has_capacity :: "instant \<Rightarrow> token_bucket \<Rightarrow> bool \<times> token_bucket" where
  "has_capacity now b =
     (let added = saturating_mul_u128 (saturating_duration_since now (updated_at b)) (per_second b);
          c = min (capacity b) (saturating_add_u128 (credit b) added)
      in (TOKEN \<le> c, b\<lparr>credit := c, updated_at := now\<rparr>))"

definition try_take :: "instant \<Rightarrow> token_bucket \<Rightarrow> bool \<times> token_bucket" where
  "try_take now b =
     (case has_capacity now b of
        (False, b) \<Rightarrow> (False, b)
      | (True, b) \<Rightarrow> (True, b\<lparr>credit := credit b - TOKEN\<rparr>))"

text \<open>
  The operations of a \<open>ConnectionRateLimit\<close> hold its mutex, so a run of it is a sequence of
  probes and takes in the order the clock was read.
\<close>

datatype rate_call = TryAcquire instant | HasCapacity instant

fun call_time :: "rate_call \<Rightarrow> instant" where
  "call_time (TryAcquire t) = t"
| "call_time (HasCapacity t) = t"

fun rate_step :: "rate_call \<Rightarrow> token_bucket \<Rightarrow> bool \<times> token_bucket" where
  "rate_step (TryAcquire t) b = try_take t b"
| "rate_step (HasCapacity t) b = has_capacity t b"

fun rate_run :: "rate_call list \<Rightarrow> token_bucket \<Rightarrow> nat \<times> token_bucket" where
  "rate_run [] b = (0, b)"
| "rate_run (c # cs) b =
     (case rate_step c b of (granted, b1) \<Rightarrow>
      case rate_run cs b1 of (n, b2) \<Rightarrow>
        ((case c of TryAcquire _ \<Rightarrow> if granted then 1 else 0 | HasCapacity _ \<Rightarrow> 0) + n, b2))"

fun clock_from :: "instant \<Rightarrow> rate_call list \<Rightarrow> bool" where
  "clock_from t [] = True"
| "clock_from t (c # cs) = (t \<le> call_time c \<and> clock_from (call_time c) cs)"

definition bucket_ok :: "token_bucket \<Rightarrow> bool" where
  "bucket_ok b \<longleftrightarrow> credit b \<le> capacity b \<and> capacity b \<le> U128_MAX"

section \<open>The bucket\<close>

lemma bucket_ok_new:
  assumes "burst < 2 ^ 64"
  shows "bucket_ok (token_bucket_new rate burst now)"
proof -
  have "burst * TOKEN \<le> (2 ^ 64) * TOKEN" using assms by (intro mult_right_mono) simp_all
  also have "\<dots> \<le> U128_MAX" by (simp add: TOKEN_def U128_MAX_def)
  finally show ?thesis by (simp add: bucket_ok_def token_bucket_new_def)
qed

text \<open>Saturation never shows: the credit is capped by a capacity far below the limit of \<open>u128\<close>.\<close>

lemma has_capacity_exact:
  assumes "bucket_ok b"
  shows "has_capacity now b =
    (let c = min (capacity b) (credit b + (now - updated_at b) * per_second b)
     in (TOKEN \<le> c, b\<lparr>credit := c, updated_at := now\<rparr>))"
  using assms
  by (auto simp: has_capacity_def bucket_ok_def saturating_mul_u128_def saturating_add_u128_def
      saturating_duration_since_def Let_def min_def)

lemma rate_step_ok:
  assumes "bucket_ok b" "rate_step c b = (granted, b1)"
  shows "bucket_ok b1 \<and> capacity b1 = capacity b \<and> per_second b1 = per_second b \<and>
         updated_at b1 = call_time c \<and>
         credit b1 + (if granted \<and> (\<exists>t. c = TryAcquire t) then TOKEN else 0)
           \<le> credit b + (call_time c - updated_at b) * per_second b"
  using assms
  by (cases c) (auto simp: has_capacity_exact try_take_def bucket_ok_def Let_def split: if_splits bool.splits)

lemma rate_run_credit:
  assumes "bucket_ok b" "clock_from (updated_at b) cs" "rate_run cs b = (n, b2)"
  shows "bucket_ok b2 \<and> n * TOKEN + credit b2 \<le> credit b + (updated_at b2 - updated_at b) * per_second b \<and>
         updated_at b \<le> updated_at b2 \<and> capacity b2 = capacity b \<and> per_second b2 = per_second b"
  using assms
proof (induction cs arbitrary: b n)
  case (Cons c cs)
  obtain granted b1 where c: "rate_step c b = (granted, b1)" by fastforce
  obtain m where m: "rate_run cs b1 = (m, b2)" using Cons.prems(3) c by (auto split: prod.splits)
  let ?taken = "if granted \<and> (\<exists>t. c = TryAcquire t) then 1 else 0"
  have n: "n = ?taken + m" using Cons.prems(3) c m by (cases c) auto
  note step = rate_step_ok [OF Cons.prems(1) c]
  have times: "updated_at b \<le> updated_at b1" "clock_from (updated_at b1) cs"
    using Cons.prems(2) step by simp_all
  then have IH: "bucket_ok b2 \<and> m * TOKEN + credit b2 \<le> credit b1 + (updated_at b2 - updated_at b1) * per_second b \<and>
      updated_at b1 \<le> updated_at b2 \<and> capacity b2 = capacity b \<and> per_second b2 = per_second b"
    using Cons.IH [of b1 m] step m by simp
  have "(updated_at b2 - updated_at b1) * per_second b + (updated_at b1 - updated_at b) * per_second b
      = (updated_at b2 - updated_at b) * per_second b"
    using times IH by (simp flip: add_mult_distrib)
  moreover have "?taken * TOKEN + credit b1 \<le> credit b + (updated_at b1 - updated_at b) * per_second b"
    using step by auto
  ultimately show ?case using IH times n by (auto simp: add_mult_distrib)
qed simp





section \<open>Staggered probes\<close>

definition stagger_hash :: "bytes \<Rightarrow> nat \<Rightarrow> u64" where
  "stagger_hash seed salt =
     foldl (\<lambda>h b. xor (h * 16777619) (of_nat (of_char b))) (of_nat salt) seed"

definition staggered :: "duration \<Rightarrow> bytes \<Rightarrow> nat \<Rightarrow> duration" where
  "staggered d seed salt =
     (let factor_per_mille = 900 + unat (stagger_hash seed salt mod 201);
          nanos = saturating_mul_u128 d factor_per_mille div 1000
      in max (if nanos < 2 ^ 64 then nanos else 2 ^ 64 - 1) 1000000)"



end
