(* ===== verification/Gateway_State.thy ===== *)
theory Gateway_State
  imports Registry Authorization Peer_Identity Rate_Limit
begin

text \<open>
  The state core of a gateway (\<open>relaygate-gateway/src/state.rs\<close>, \<open>state/action.rs\<close>, \<open>state/delivery.rs\<close>,
  \<open>state/session.rs\<close>): sessions, pipes, remote OPEN attempts, their indexes and counters, the actions
  an operation returns and the primitives every operation is built from. An operation maps a state
  to its actions and the next state. A writer queue and a cancellation token are opaque handles;
  the tokens that were cancelled are collected in \<open>cancelled\<close>. The metrics and traces the code
  emits are not part of the state.
\<close>

type_synonym writer = nat
type_synonym cancellation_token = nat

record session_entry =
  entry_sender :: writer
  entry_cancellation :: cancellation_token
  highest_connection_id :: "u64 option"
  entry_control_rate :: token_bucket

datatype pipe_phase = Offered | Opened

datatype pipe_endpoint = Sdk session_id | Peer peer_stream_key

record pipe_entry =
  dialer :: pipe_endpoint
  acceptor :: pipe_endpoint
  pipe_binding_id :: binding_id
  pipe_open_identity :: "open_identity option"
  phase :: pipe_phase
  offered_at :: instant
  open_started_at :: "instant option"
  dialer_finished :: bool
  acceptor_finished :: bool

datatype remote_open_phase =
    Resolving
  | StartingPeer binding_id
  | AwaitingPeer peer_stream_key binding_id

record remote_open_attempt =
  attempt_pipe_id :: pipe_id
  attempt_destination :: destination
  attempt_started_at :: instant
  attempt_phase :: remote_open_phase

record gateway_limits =
  control_rate_per_second :: nat
  control_burst :: nat
  session_control_rate_per_second :: nat
  session_control_burst :: nat
  max_sessions :: nat
  max_bindings :: nat
  max_pending_offers :: nat
  max_remote_dial_attempts :: nat
  max_live_pipes :: nat
  offer_timeout :: duration

record gateway_state =
  sessions :: "(session_id, session_entry) hashmap"
  local_registry :: registry
  pipes :: "(pipe_id, pipe_entry) hashmap"
  peer_pipes :: "(peer_stream_key, pipe_id) hashmap"
  active_peer_opens :: "(open_identity, peer_stream_key) hashmap"
  remote_open_attempts :: "(open_identity, remote_open_attempt) hashmap"
  pending_offer_count :: nat
  live_pipe_count :: nat
  originated_pipe_count :: nat
  draining :: bool
  gateway_id_of :: "gateway_id option"
  limits :: gateway_limits
  control_rate :: token_bucket
  cancelled :: "cancellation_token list"

section \<open>Actions\<close>

record delivery =
  delivery_target :: session_id
  delivery_frame :: frame
  delivery_sender :: writer
  delivery_cancellation :: cancellation_token

record terminal_batch_delivery =
  batch_target :: session_id
  batch_frames :: "frame list"
  batch_sender :: writer
  batch_cancellation :: cancellation_token

datatype peer_delivery =
    PeerOpened peer_stream_key
  | PeerFailed peer_stream_key error_code peer_observation string
  | PeerData peer_stream_key bytes
  | PeerFin peer_stream_key
  | PeerClose peer_stream_key
  | PeerReset peer_stream_key error_code string

datatype gateway_action =
    SendSdkFrame delivery
  | SendSdkTerminalBatch terminal_batch_delivery
  | PublishRegistration session_id "binding list"
  | ResolveRoute open_identity destination
  | OpenPeer open_identity gateway_id gateway_locator destination session_id binding_id
  | CancelPeerOpen open_identity
  | SendPeerFrame peer_delivery

datatype protocol_violation = PipeOwnership session_id pipe_id string

type_synonym 'r transition = "'r \<times> gateway_state"

section \<open>Endpoints\<close>

fun sdk_session :: "pipe_endpoint \<Rightarrow> session_id option" where
  "sdk_session (Sdk s) = Some s"
| "sdk_session (Peer k) = None"

fun endpoint_peer_key :: "pipe_endpoint \<Rightarrow> peer_stream_key option" where
  "endpoint_peer_key (Sdk s) = None"
| "endpoint_peer_key (Peer k) = Some k"

definition pipe_peer_key :: "pipe_entry \<Rightarrow> peer_stream_key option" where
  "pipe_peer_key pipe =
     (case (dialer pipe, acceptor pipe) of
        (Peer k, _) \<Rightarrow> Some k
      | (_, Peer k) \<Rightarrow> Some k
      | (Sdk _, Sdk _) \<Rightarrow> None)"

definition ensure_sdk_owner :: "pipe_entry \<Rightarrow> session_id \<Rightarrow> pipe_id \<Rightarrow> string \<Rightarrow> protocol_violation + unit" where
  "ensure_sdk_owner pipe sender pid frame_name =
     (if dialer pipe = Sdk sender \<or> acceptor pipe = Sdk sender then Inr ()
      else Inl (PipeOwnership sender pid frame_name))"

definition ensure_sdk_acceptor :: "pipe_entry \<Rightarrow> session_id \<Rightarrow> pipe_id \<Rightarrow> string \<Rightarrow> protocol_violation + unit" where
  "ensure_sdk_acceptor pipe sender pid frame_name =
     (if acceptor pipe = Sdk sender then Inr () else Inl (PipeOwnership sender pid frame_name))"

definition pipe_side :: "pipe_entry \<Rightarrow> pipe_endpoint \<Rightarrow> (pipe_endpoint \<times> bool) option" where
  "pipe_side pipe sender =
     (if dialer pipe = sender then Some (acceptor pipe, dialer_finished pipe)
      else if acceptor pipe = sender then Some (dialer pipe, acceptor_finished pipe)
      else None)"

section \<open>Construction\<close>

definition gateway_build :: "gateway_limits \<Rightarrow> gateway_id option \<Rightarrow> instant \<Rightarrow> gateway_state" where
  "gateway_build l g now =
     \<lparr>sessions = [], local_registry = registry_default, pipes = [], peer_pipes = [], active_peer_opens = [],
      remote_open_attempts = [], pending_offer_count = 0, live_pipe_count = 0, originated_pipe_count = 0,
      draining = False, gateway_id_of = g, limits = l,
      control_rate = token_bucket_new (control_rate_per_second l) (control_burst l) now, cancelled = []\<rparr>"

section \<open>Deliveries\<close>

definition to_session :: "gateway_state \<Rightarrow> session_id \<Rightarrow> frame \<Rightarrow> delivery option" where
  "to_session s target frame =
     (case hm_get (sessions s) target of
        None \<Rightarrow> None
      | Some session \<Rightarrow> Some \<lparr>delivery_target = target, delivery_frame = frame,
          delivery_sender = entry_sender session, delivery_cancellation = entry_cancellation session\<rparr>)"

definition send_to :: "gateway_state \<Rightarrow> session_id \<Rightarrow> frame \<Rightarrow> gateway_action list" where
  "send_to s target frame = (case to_session s target frame of None \<Rightarrow> [] | Some d \<Rightarrow> [SendSdkFrame d])"

definition registration_publication :: "gateway_state \<Rightarrow> session_id \<Rightarrow> gateway_action" where
  "registration_publication s session =
     PublishRegistration session (if draining s then [] else bindings_for_session session (local_registry s))"

definition endpoint_reset :: "gateway_state \<Rightarrow> pipe_endpoint \<Rightarrow> pipe_id \<Rightarrow> error_code \<Rightarrow> string \<Rightarrow> gateway_action list" where
  "endpoint_reset s target pid code message =
     (case target of
        Sdk session \<Rightarrow> send_to s session (FrameReset pid code message)
      | Peer key \<Rightarrow> [SendPeerFrame (PeerReset key code message)])"

definition endpoint_data :: "gateway_state \<Rightarrow> pipe_endpoint \<Rightarrow> pipe_id \<Rightarrow> bytes \<Rightarrow> gateway_action list" where
  "endpoint_data s target pid bs =
     (case target of
        Sdk session \<Rightarrow> send_to s session (FrameData pid bs)
      | Peer key \<Rightarrow> [SendPeerFrame (PeerData key bs)])"

definition endpoint_fin :: "gateway_state \<Rightarrow> pipe_endpoint \<Rightarrow> pipe_id \<Rightarrow> gateway_action list" where
  "endpoint_fin s target pid =
     (case target of
        Sdk session \<Rightarrow> send_to s session (FrameFin pid)
      | Peer key \<Rightarrow> [SendPeerFrame (PeerFin key)])"

definition endpoint_close :: "gateway_state \<Rightarrow> pipe_endpoint \<Rightarrow> pipe_id \<Rightarrow> gateway_action list" where
  "endpoint_close s target pid =
     (case target of
        Sdk session \<Rightarrow> send_to s session (FrameClose pid)
      | Peer key \<Rightarrow> [SendPeerFrame (PeerClose key)])"

definition open_failed ::
  "gateway_state \<Rightarrow> session_id \<Rightarrow> u64 \<Rightarrow> error_code \<Rightarrow> peer_observation \<Rightarrow> string \<Rightarrow> gateway_action list" where
  "open_failed s d connection_id code observation message =
     send_to s d (FrameDialFailed connection_id code observation message)"

definition dialer_opened :: "gateway_state \<Rightarrow> pipe_entry \<Rightarrow> pipe_id \<Rightarrow> gateway_action list" where
  "dialer_opened s pipe pid =
     (case dialer pipe of
        Sdk d \<Rightarrow> send_to s d (FrameOpened pid)
      | Peer key \<Rightarrow> [SendPeerFrame (PeerOpened key)])"

definition dialer_failure ::
  "gateway_state \<Rightarrow> pipe_entry \<Rightarrow> pipe_id \<Rightarrow> error_code \<Rightarrow> peer_observation \<Rightarrow> string \<Rightarrow> gateway_action list" where
  "dialer_failure s pipe pid code observation message =
     (case dialer pipe of
        Sdk d \<Rightarrow> open_failed s d (pipe_connection_id pid) code observation message
      | Peer key \<Rightarrow> [SendPeerFrame (PeerFailed key code observation message)])"

section \<open>Pipe table primitives\<close>

definition originated :: "pipe_entry \<Rightarrow> bool" where
  "originated pipe = (case dialer pipe of Sdk _ \<Rightarrow> True | Peer _ \<Rightarrow> False)"

definition index_peer_pipe :: "pipe_id \<Rightarrow> pipe_entry \<Rightarrow> gateway_state \<Rightarrow> gateway_state" where
  "index_peer_pipe pid pipe s =
     (case pipe_peer_key pipe of
        None \<Rightarrow> s
      | Some key \<Rightarrow>
          let s1 = s\<lparr>peer_pipes := hm_insert key pid (peer_pipes s)\<rparr> in
          (case pipe_open_identity pipe of
             None \<Rightarrow> s1
           | Some oi \<Rightarrow> s1\<lparr>active_peer_opens := hm_insert oi key (active_peer_opens s1)\<rparr>))"

definition insert_offer :: "pipe_id \<Rightarrow> pipe_entry \<Rightarrow> gateway_state \<Rightarrow> gateway_state" where
  "insert_offer pid pipe s =
     (let s1 = index_peer_pipe pid pipe s
      in s1\<lparr>pipes := hm_insert pid pipe (pipes s1), pending_offer_count := pending_offer_count s1 + 1\<rparr>)"

definition insert_open :: "pipe_id \<Rightarrow> pipe_entry \<Rightarrow> gateway_state \<Rightarrow> gateway_state" where
  "insert_open pid pipe s =
     (let s1 = index_peer_pipe pid pipe s
      in s1\<lparr>originated_pipe_count := originated_pipe_count s1 + (if originated pipe then 1 else 0),
           pipes := hm_insert pid pipe (pipes s1), live_pipe_count := live_pipe_count s1 + 1\<rparr>)"

definition remove_pipe :: "pipe_id \<Rightarrow> gateway_state \<Rightarrow> pipe_entry option transition" where
  "remove_pipe pid s =
     (case hm_get (pipes s) pid of
        None \<Rightarrow> (None, s)
      | Some pipe \<Rightarrow>
          let s1 = s\<lparr>pipes := hm_remove pid (pipes s)\<rparr>;
              s2 = (case pipe_peer_key pipe of
                      None \<Rightarrow> s1 | Some key \<Rightarrow> s1\<lparr>peer_pipes := hm_remove key (peer_pipes s1)\<rparr>);
              s3 = (case pipe_open_identity pipe of
                      None \<Rightarrow> s2 | Some oi \<Rightarrow> s2\<lparr>active_peer_opens := hm_remove oi (active_peer_opens s2)\<rparr>)
          in (Some pipe,
              case phase pipe of
                Offered \<Rightarrow> s3\<lparr>pending_offer_count := pending_offer_count s3 - 1\<rparr>
              | Opened \<Rightarrow> s3\<lparr>live_pipe_count := live_pipe_count s3 - 1,
                  originated_pipe_count := originated_pipe_count s3 - (if originated pipe then 1 else 0)\<rparr>))"

definition promote_offer :: "pipe_id \<Rightarrow> gateway_state \<Rightarrow> pipe_entry option transition" where
  "promote_offer pid s =
     (case hm_get (pipes s) pid of
        None \<Rightarrow> (None, s)
      | Some pipe \<Rightarrow>
          if phase pipe \<noteq> Offered then (None, s)
          else let pipe' = pipe\<lparr>phase := Opened\<rparr>
               in (Some pipe', s\<lparr>pipes := hm_insert pid pipe' (pipes s),
                    pending_offer_count := pending_offer_count s - 1,
                    live_pipe_count := live_pipe_count s + 1,
                    originated_pipe_count := originated_pipe_count s + (if originated pipe then 1 else 0)\<rparr>))"

text \<open>
  \<open>pending_offer_count.saturating_add(len) >= max\<close> compares \<open>usize\<close> values: saturation at the largest
  \<open>usize\<close> cannot change the comparison with another \<open>usize\<close>.
\<close>

definition pending_capacity_reached :: "gateway_state \<Rightarrow> bool" where
  "pending_capacity_reached s \<longleftrightarrow>
     pending_offer_count s + length (remote_open_attempts s) \<ge> max_pending_offers (limits s)"

end
