(* ===== verification/Gateway_Pipes.thy ===== *)
theory Gateway_Pipes
  imports Gateway_State
begin

text \<open>
  Pipes and sessions of the state core (\<open>relaygate-gateway/src/state/pipe.rs\<close>, \<open>state/opening.rs\<close>,
  \<open>state/session.rs\<close>, \<open>state/registration.rs\<close>): relaying between the two endpoints of a pipe, opening
  one through an OFFER, removal of a session with everything it owns, publication of bindings.
  A frame that fails with a \<open>ProtocolViolation\<close> leaves the state as it was; \<open>handle\<close> reports it on
  the left of a sum.
\<close>

section \<open>Relaying (\<open>pipe.rs\<close>)\<close>

definition protocol_reset :: "pipe_id \<Rightarrow> string \<Rightarrow> gateway_state \<Rightarrow> gateway_action list transition" where
  "protocol_reset pid message s =
     (case remove_pipe pid s of
        (None, s1) \<Rightarrow> ([], s1)
      | (Some pipe, s1) \<Rightarrow>
          (concat (map (\<lambda>target. endpoint_reset s1 target pid ProtocolError message) [dialer pipe, acceptor pipe]), s1))"

definition relay_data :: "pipe_endpoint \<Rightarrow> pipe_id \<Rightarrow> bytes \<Rightarrow> gateway_state \<Rightarrow> gateway_action list transition" where
  "relay_data sender pid bs s =
     (case hm_get (pipes s) pid of None \<Rightarrow> ([], s) | Some pipe \<Rightarrow>
      case pipe_side pipe sender of None \<Rightarrow> ([], s) | Some (counterpart, finished) \<Rightarrow>
        if phase pipe \<noteq> Opened \<or> finished
        then protocol_reset pid ''DATA is not valid in the current Pipe state'' s
        else (endpoint_data s counterpart pid bs, s))"

definition relay_fin :: "pipe_endpoint \<Rightarrow> pipe_id \<Rightarrow> gateway_state \<Rightarrow> gateway_action list transition" where
  "relay_fin sender pid s =
     (case hm_get (pipes s) pid of None \<Rightarrow> ([], s) | Some pipe \<Rightarrow>
      case pipe_side pipe sender of None \<Rightarrow> ([], s) | Some (counterpart, finished) \<Rightarrow>
        if phase pipe \<noteq> Opened then protocol_reset pid ''FIN arrived before the Pipe opened'' s
        else if finished then ([], s)
        else let pipe' = (if dialer pipe = sender then pipe\<lparr>dialer_finished := True\<rparr>
                          else pipe\<lparr>acceptor_finished := True\<rparr>);
                 remove_after_delivery =
                   (if dialer pipe = sender then acceptor_finished pipe else dialer_finished pipe);
                 s1 = s\<lparr>pipes := hm_insert pid pipe' (pipes s)\<rparr>;
                 s2 = (if remove_after_delivery then snd (remove_pipe pid s1) else s1)
             in (endpoint_fin s2 counterpart pid, s2))"

definition relay_close :: "pipe_endpoint \<Rightarrow> pipe_id \<Rightarrow> gateway_state \<Rightarrow> gateway_action list transition" where
  "relay_close sender pid s =
     (case hm_get (pipes s) pid of None \<Rightarrow> ([], s) | Some pipe \<Rightarrow>
      case pipe_side pipe sender of None \<Rightarrow> ([], s) | Some (counterpart, finished) \<Rightarrow>
        if phase pipe \<noteq> Opened then protocol_reset pid ''CLOSE arrived before the Pipe opened'' s
        else let s1 = snd (remove_pipe pid s) in (endpoint_close s1 counterpart pid, s1))"

definition relay_reset ::
  "pipe_endpoint \<Rightarrow> pipe_id \<Rightarrow> error_code \<Rightarrow> string \<Rightarrow> gateway_state \<Rightarrow> gateway_action list transition" where
  "relay_reset sender pid code message s =
     (case hm_get (pipes s) pid of None \<Rightarrow> ([], s) | Some pipe \<Rightarrow>
      case pipe_side pipe sender of None \<Rightarrow> ([], s) | Some (counterpart, finished) \<Rightarrow>
        if phase pipe \<noteq> Opened then protocol_reset pid ''RESET arrived before the Pipe opened'' s
        else let s1 = snd (remove_pipe pid s) in (endpoint_reset s1 counterpart pid code message, s1))"

type_synonym 'r frame_result = "(protocol_violation + 'r) \<times> gateway_state"

definition ok_actions :: "gateway_action list transition \<Rightarrow> gateway_action list frame_result" where
  "ok_actions r = (Inr (fst r), snd r)"

definition sdk_endpoint :: "session_id \<Rightarrow> pipe_id \<Rightarrow> string \<Rightarrow> gateway_state \<Rightarrow> protocol_violation + pipe_endpoint" where
  "sdk_endpoint sender pid frame_name s =
     (case hm_get (pipes s) pid of
        None \<Rightarrow> Inr (Sdk sender)
      | Some pipe \<Rightarrow> (case ensure_sdk_owner pipe sender pid frame_name of
                        Inl v \<Rightarrow> Inl v | Inr _ \<Rightarrow> Inr (Sdk sender)))"

definition pipe_data :: "session_id \<Rightarrow> pipe_id \<Rightarrow> bytes \<Rightarrow> gateway_state \<Rightarrow> gateway_action list frame_result" where
  "pipe_data sender pid bs s =
     (case sdk_endpoint sender pid ''DATA'' s of
        Inl v \<Rightarrow> (Inl v, s) | Inr e \<Rightarrow> ok_actions (relay_data e pid bs s))"

definition pipe_fin :: "session_id \<Rightarrow> pipe_id \<Rightarrow> gateway_state \<Rightarrow> gateway_action list frame_result" where
  "pipe_fin sender pid s =
     (case sdk_endpoint sender pid ''FIN'' s of
        Inl v \<Rightarrow> (Inl v, s) | Inr e \<Rightarrow> ok_actions (relay_fin e pid s))"

definition pipe_close :: "session_id \<Rightarrow> pipe_id \<Rightarrow> gateway_state \<Rightarrow> gateway_action list frame_result" where
  "pipe_close sender pid s =
     (case sdk_endpoint sender pid ''CLOSE'' s of
        Inl v \<Rightarrow> (Inl v, s) | Inr e \<Rightarrow> ok_actions (relay_close e pid s))"

definition pipe_reset ::
  "session_id \<Rightarrow> pipe_id \<Rightarrow> error_code \<Rightarrow> string \<Rightarrow> gateway_state \<Rightarrow> gateway_action list frame_result" where
  "pipe_reset sender pid code message s =
     (case sdk_endpoint sender pid ''RESET'' s of
        Inl v \<Rightarrow> (Inl v, s) | Inr e \<Rightarrow> ok_actions (relay_reset e pid code message s))"

definition peer_data :: "peer_stream_key \<Rightarrow> bytes \<Rightarrow> gateway_state \<Rightarrow> gateway_action list transition" where
  "peer_data key bs s =
     (case hm_get (peer_pipes s) key of None \<Rightarrow> ([], s) | Some pid \<Rightarrow> relay_data (Peer key) pid bs s)"

definition peer_fin :: "peer_stream_key \<Rightarrow> gateway_state \<Rightarrow> gateway_action list transition" where
  "peer_fin key s =
     (case hm_get (peer_pipes s) key of None \<Rightarrow> ([], s) | Some pid \<Rightarrow> relay_fin (Peer key) pid s)"

definition peer_close :: "peer_stream_key \<Rightarrow> gateway_state \<Rightarrow> gateway_action list transition" where
  "peer_close key s =
     (case hm_get (peer_pipes s) key of None \<Rightarrow> ([], s) | Some pid \<Rightarrow> relay_close (Peer key) pid s)"

definition peer_reset ::
  "peer_stream_key \<Rightarrow> error_code \<Rightarrow> string \<Rightarrow> gateway_state \<Rightarrow> gateway_action list transition" where
  "peer_reset key code message s =
     (case hm_get (peer_pipes s) key of None \<Rightarrow> ([], s) | Some pid \<Rightarrow>
      if (case hm_get (pipes s) pid of
            None \<Rightarrow> False | Some pipe \<Rightarrow> phase pipe = Offered \<and> dialer pipe = Peer key)
      then (case remove_pipe pid s of
              (None, s1) \<Rightarrow> ([], s1)
            | (Some pipe, s1) \<Rightarrow> (endpoint_reset s1 (acceptor pipe) pid code message, s1))
      else relay_reset (Peer key) pid code message s)"

section \<open>Opening a pipe (\<open>opening.rs\<close>)\<close>

definition offer_local_at ::
  "pipe_id \<Rightarrow> binding \<Rightarrow> instant \<Rightarrow> instant option \<Rightarrow> gateway_state \<Rightarrow> gateway_action list transition" where
  "offer_local_at pid b now started_at s =
     (if \<not> hm_contains (sessions s) (bnd_session_id b)
      then let s1 = s\<lparr>local_registry := snd (remove_owned (bnd_session_id b) (bnd_id b) (local_registry s))\<rparr>
           in (open_failed s1 (origin_session_id pid) (pipe_connection_id pid) Unavailable NotObserved
                 ''selected RelaySession is no longer live''
               @ [registration_publication s1 (bnd_session_id b)], s1)
      else let s1 = insert_offer pid
                 \<lparr>dialer = Sdk (origin_session_id pid), acceptor = Sdk (bnd_session_id b),
                  pipe_binding_id = bnd_id b, pipe_open_identity = None, phase = Offered, offered_at = now,
                  open_started_at = started_at, dialer_finished = False, acceptor_finished = False\<rparr> s
           in (send_to s1 (bnd_session_id b) (FrameOffer pid (bnd_id b) (bnd_destination b)), s1))"

definition dial ::
  "session_id \<Rightarrow> u64 \<Rightarrow> destination \<Rightarrow> instant \<Rightarrow> instant \<Rightarrow> gateway_state \<Rightarrow> gateway_action list transition" where
  "dial session connection_id d now started_at s =
     (let failed = (\<lambda>s code message. (open_failed s session connection_id code NotObserved message, s)) in
      if \<not> hm_contains (sessions s) session then ([], s)
      else if draining s then failed s Unavailable ''Gateway is draining''
      else if live_pipe_count s \<ge> max_live_pipes (limits s)
      then failed s ResourceExhausted ''Gateway live Pipe limit reached''
      else if pending_capacity_reached s
      then failed s ResourceExhausted ''Gateway pending open limit reached''
      else
        let pid = pipe_id_new session connection_id;
            self_publishes = contains_session_destination session d (local_registry s) in
        case select_excluding d session (local_registry s) of
          (Some b, r) \<Rightarrow> offer_local_at pid b now (Some started_at) (s\<lparr>local_registry := r\<rparr>)
        | (None, r) \<Rightarrow>
            let s1 = s\<lparr>local_registry := r\<rparr> in
            (case gateway_id_of s1 of
               None \<Rightarrow>
                 if self_publishes
                 then failed s1 FailedPrecondition ''only the dialing Relay publishes this Destination''
                 else failed s1 NotFound ''no live Binding exists''
             | Some g \<Rightarrow>
                 if length (remote_open_attempts s1) \<ge> max_remote_dial_attempts (limits s1)
                 then failed s1 ResourceExhausted ''Gateway remote DIAL admission limit reached''
                 else let oi = open_identity_new g session connection_id
                      in ([ResolveRoute oi d],
                          s1\<lparr>remote_open_attempts := hm_insert oi
                            \<lparr>attempt_pipe_id = pid, attempt_destination = d, attempt_started_at = started_at,
                             attempt_phase = Resolving\<rparr> (remote_open_attempts s1)\<rparr>)))"

definition offer_accepted :: "session_id \<Rightarrow> pipe_id \<Rightarrow> gateway_state \<Rightarrow> gateway_action list frame_result" where
  "offer_accepted session pid s =
     (case hm_get (pipes s) pid of None \<Rightarrow> (Inr [], s) | Some pipe \<Rightarrow>
      case ensure_sdk_acceptor pipe session pid ''OFFER_ACCEPTED'' of Inl v \<Rightarrow> (Inl v, s) | Inr _ \<Rightarrow>
      if phase pipe \<noteq> Offered
      then ok_actions (protocol_reset pid ''OFFER_ACCEPTED is not valid after the Pipe opened'' s)
      else if live_pipe_count s \<ge> max_live_pipes (limits s)
      then (case remove_pipe pid s of
              (None, s1) \<Rightarrow> (Inr [], s1)
            | (Some pipe, s1) \<Rightarrow>
                let message = ''Gateway live Pipe limit reached during admission'' in
                (Inr (dialer_failure s1 pipe pid ResourceExhausted MaybeObserved message
                      @ endpoint_reset s1 (acceptor pipe) pid ResourceExhausted message), s1))
      else (case promote_offer pid s of
              (None, s1) \<Rightarrow> (Inr [], s1)
            | (Some pipe, s1) \<Rightarrow> (Inr (dialer_opened s1 pipe pid), s1)))"

definition offer_rejected ::
  "session_id \<Rightarrow> pipe_id \<Rightarrow> error_code \<Rightarrow> string \<Rightarrow> gateway_state \<Rightarrow> gateway_action list frame_result" where
  "offer_rejected session pid code message s =
     (case hm_get (pipes s) pid of None \<Rightarrow> (Inr [], s) | Some pipe \<Rightarrow>
      case ensure_sdk_acceptor pipe session pid ''OFFER_REJECTED'' of Inl v \<Rightarrow> (Inl v, s) | Inr _ \<Rightarrow>
      if phase pipe \<noteq> Offered
      then ok_actions (protocol_reset pid ''OFFER_REJECTED is not valid after the Pipe opened'' s)
      else (case remove_pipe pid s of
              (None, s1) \<Rightarrow> (Inr [], s1)
            | (Some pipe, s1) \<Rightarrow> (Inr (dialer_failure s1 pipe pid code NotObserved message), s1)))"

definition offer_delivery_rejected :: "session_id \<Rightarrow> pipe_id \<Rightarrow> gateway_state \<Rightarrow> gateway_action list transition" where
  "offer_delivery_rejected session pid s =
     (if \<not> (case hm_get (pipes s) pid of
               None \<Rightarrow> False | Some pipe \<Rightarrow> phase pipe = Offered \<and> acceptor pipe = Sdk session)
      then ([], s)
      else (case remove_pipe pid s of
              (None, s1) \<Rightarrow> ([], s1)
            | (Some pipe, s1) \<Rightarrow>
                (dialer_failure s1 pipe pid ResourceExhausted NotObserved
                   ''selected RelaySession writer queue is full'', s1)))"

definition take_remote_attempt :: "open_identity \<Rightarrow> gateway_state \<Rightarrow> remote_open_attempt option transition" where
  "take_remote_attempt oi s =
     (case hm_get (remote_open_attempts s) oi of
        None \<Rightarrow> (None, s)
      | Some attempt \<Rightarrow> (Some attempt, s\<lparr>remote_open_attempts := hm_remove oi (remote_open_attempts s),
          active_peer_opens := hm_remove oi (active_peer_opens s)\<rparr>))"

definition cancel_remote_attempt :: "session_id \<Rightarrow> pipe_id \<Rightarrow> gateway_state \<Rightarrow> gateway_action list transition" where
  "cancel_remote_attempt session pid s =
     (case gateway_id_of s of None \<Rightarrow> ([], s) | Some g \<Rightarrow>
      if origin_session_id pid \<noteq> session then ([], s)
      else let oi = open_identity_new g session (pipe_connection_id pid) in
        case take_remote_attempt oi s of
          (None, s1) \<Rightarrow> ([], s1)
        | (Some attempt, s1) \<Rightarrow>
            (case attempt_phase attempt of
               Resolving \<Rightarrow> []
             | StartingPeer _ \<Rightarrow> [CancelPeerOpen oi]
             | AwaitingPeer key _ \<Rightarrow> endpoint_reset s1 (Peer key) pid Cancelled ''Dialer cancelled the remote OPEN'', s1))"

definition cancel_pipe :: "session_id \<Rightarrow> pipe_id \<Rightarrow> gateway_state \<Rightarrow> gateway_action list frame_result" where
  "cancel_pipe session pid s =
     (case hm_get (pipes s) pid of None \<Rightarrow> ok_actions (cancel_remote_attempt session pid s) | Some pipe \<Rightarrow>
      if dialer pipe \<noteq> Sdk session then (Inl (PipeOwnership session pid ''CANCEL''), s)
      else (case remove_pipe pid s of
              (None, s1) \<Rightarrow> (Inr [], s1)
            | (Some pipe, s1) \<Rightarrow>
                (Inr (endpoint_reset s1 (acceptor pipe) pid Cancelled ''Dialer cancelled the Pipe''), s1)))"

fun fail_offers :: "error_code \<Rightarrow> peer_observation \<Rightarrow> string \<Rightarrow> pipe_id list \<Rightarrow> gateway_state \<Rightarrow> gateway_action list transition" where
  "fail_offers code observation message [] s = ([], s)"
| "fail_offers code observation message (pid # pids) s =
     (case remove_pipe pid s of
        (None, s1) \<Rightarrow> fail_offers code observation message pids s1
      | (Some pipe, s1) \<Rightarrow>
          let here = dialer_failure s1 pipe pid code observation message;
              (rest, s2) = fail_offers code observation message pids s1
          in (here @ rest, s2))"

definition cancel_pending_binding :: "binding_id \<Rightarrow> gateway_state \<Rightarrow> gateway_action list transition" where
  "cancel_pending_binding b s =
     fail_offers Unavailable NotObserved ''selected Binding was removed before admission''
       (map fst (filter (\<lambda>(pid, pipe). pipe_binding_id pipe = b \<and> phase pipe = Offered) (pipes s))) s"

section \<open>Sessions (\<open>session.rs\<close>)\<close>

definition session_rejection :: "gateway_state \<Rightarrow> (error_code \<times> string) option" where
  "session_rejection s =
     (if draining s then Some (Unavailable, ''Gateway is draining'')
      else if length (sessions s) \<ge> max_sessions (limits s)
      then Some (ResourceExhausted, ''Gateway SDK session limit reached'')
      else None)"

text \<open>
  \<open>draws\<close> are the random UUIDs of the loop in \<open>add_session\<close>; the outer \<open>None\<close> says that all of them
  were taken, so that the loop has not returned yet.
\<close>

definition add_session ::
  "uuid list \<Rightarrow> writer \<Rightarrow> cancellation_token \<Rightarrow> instant \<Rightarrow> gateway_state \<Rightarrow> session_id option transition option" where
  "add_session draws sender token now s =
     (if session_rejection s \<noteq> None then Some (None, s)
      else case find (\<lambda>c. \<not> hm_contains (sessions s) c) draws of
        None \<Rightarrow> None
      | Some session \<Rightarrow> Some (Some session,
          s\<lparr>sessions := hm_insert session
            \<lparr>entry_sender = sender, entry_cancellation = token, highest_connection_id = None,
             entry_control_rate = token_bucket_new (session_control_rate_per_second (limits s))
               (session_control_burst (limits s)) now\<rparr> (sessions s)\<rparr>))"

fun drop_attempts :: "open_identity list \<Rightarrow> gateway_state \<Rightarrow> gateway_action list transition" where
  "drop_attempts [] s = ([], s)"
| "drop_attempts (oi # ois) s =
     (case take_remote_attempt oi s of
        (None, s1) \<Rightarrow> drop_attempts ois s1
      | (Some attempt, s1) \<Rightarrow>
          let here = (case attempt_phase attempt of
                        Resolving \<Rightarrow> []
                      | StartingPeer _ \<Rightarrow> [CancelPeerOpen oi]
                      | AwaitingPeer key _ \<Rightarrow> [SendPeerFrame (PeerReset key Cancelled ''RelaySession disconnected'')]);
              (rest, s2) = drop_attempts ois s1
          in (here @ rest, s2))"

fun reset_owned :: "session_id \<Rightarrow> pipe_id list \<Rightarrow> gateway_state \<Rightarrow> gateway_action list transition" where
  "reset_owned session [] s = ([], s)"
| "reset_owned session (pid # pids) s =
     (case remove_pipe pid s of
        (None, s1) \<Rightarrow> reset_owned session pids s1
      | (Some pipe, s1) \<Rightarrow>
          let is_dialer = (dialer pipe = Sdk session);
              here =
                (if \<not> is_dialer \<and> phase pipe = Offered
                 then dialer_failure s1 pipe pid Unavailable MaybeObserved
                        ''selected RelaySession disconnected during OFFER''
                 else let counterpart = (if is_dialer then acceptor pipe else dialer pipe)
                      in endpoint_reset s1 counterpart pid
                           (if is_dialer \<and> endpoint_peer_key counterpart \<noteq> None then Cancelled else Unavailable)
                           ''counterpart session disconnected'');
              (rest, s2) = reset_owned session pids s1
          in (here @ rest, s2))"

definition owned_pipes :: "session_id \<Rightarrow> gateway_state \<Rightarrow> pipe_id list" where
  "owned_pipes session s =
     map fst (filter (\<lambda>(pid, pipe). dialer pipe = Sdk session \<or> acceptor pipe = Sdk session) (pipes s))"

definition remove_session :: "session_id \<Rightarrow> gateway_state \<Rightarrow> gateway_action list transition" where
  "remove_session session s =
     (case hm_get (sessions s) session of
        None \<Rightarrow> ([], s)
      | Some entry \<Rightarrow>
          let s1 = s\<lparr>sessions := hm_remove session (sessions s), cancelled := entry_cancellation entry # cancelled s\<rparr>;
              (removed_bindings, r) = registry_remove_session session (local_registry s1);
              s2 = s1\<lparr>local_registry := r\<rparr>;
              pending = map fst (filter (\<lambda>(oi, attempt). origin_session_id (attempt_pipe_id attempt) = session)
                          (remote_open_attempts s2));
              (acts1, s3) = drop_attempts pending s2;
              (acts2, s4) = reset_owned session (owned_pipes session s3) s3
          in (acts1 @ acts2
              @ (if length removed_bindings > 0 then [registration_publication s4 session] else []), s4))"

fun remove_sessions :: "session_id list \<Rightarrow> gateway_state \<Rightarrow> gateway_action list transition" where
  "remove_sessions [] s = ([], s)"
| "remove_sessions (session # ss) s =
     (let (acts, s1) = remove_session session s; (rest, s2) = remove_sessions ss s1 in (acts @ rest, s2))"

section \<open>Offer expiry (\<open>opening.rs\<close>)\<close>

text \<open>
  The set of listeners whose offers expired is a \<open>HashSet\<close>; the list holds each of them once, in the
  order of insertion.
\<close>

fun expire_pipes :: "pipe_id list \<Rightarrow> gateway_state \<Rightarrow> session_id list \<times> gateway_action list transition" where
  "expire_pipes [] s = ([], [], s)"
| "expire_pipes (pid # pids) s =
     (case remove_pipe pid s of
        (None, s1) \<Rightarrow> expire_pipes pids s1
      | (Some pipe, s1) \<Rightarrow>
          let here = dialer_failure s1 pipe pid DeadlineExceeded MaybeObserved
                ''Acceptor did not answer OFFER before the Gateway deadline'';
              (listeners, rest, s2) = expire_pipes pids s1
          in ((case sdk_session (acceptor pipe) of Some l \<Rightarrow> List.insert l listeners | None \<Rightarrow> listeners),
              here @ rest, s2))"

definition offer_expired :: "gateway_limits \<Rightarrow> instant \<Rightarrow> pipe_entry \<Rightarrow> bool" where
  "offer_expired l now pipe \<longleftrightarrow> phase pipe = Offered \<and>
     saturating_duration_since now (offered_at pipe) \<ge> offer_timeout l"

definition expire_offers :: "instant \<Rightarrow> gateway_state \<Rightarrow> gateway_action list transition" where
  "expire_offers now s =
     (let expired = map fst (filter (\<lambda>(pid, pipe). offer_expired (limits s) now pipe) (pipes s));
          (listeners, acts, s1) = expire_pipes expired s;
          (more, s2) = remove_sessions listeners s1
      in (acts @ more, s2))"

section \<open>Publication (\<open>registration.rs\<close>)\<close>

definition publish ::
  "uuid list \<Rightarrow> session_id \<Rightarrow> u64 \<Rightarrow> destination \<Rightarrow> gateway_state \<Rightarrow> gateway_action list transition option" where
  "publish draws session request_id d s =
     (if draining s
      then Some (send_to s session (FramePublishFailed request_id Unavailable ''Gateway is draining''), s)
      else if binding_count_of (local_registry s) \<ge> max_bindings (limits s)
           \<and> \<not> contains_session_destination session d (local_registry s)
      then Some (send_to s session (FramePublishFailed request_id ResourceExhausted ''Gateway Binding limit reached''), s)
      else case registry_register draws session d (local_registry s) of
        None \<Rightarrow> None
      | Some (registration, r) \<Rightarrow>
          let (b, created) = (case registration of Created b \<Rightarrow> (b, True) | Existing b \<Rightarrow> (b, False));
              s1 = s\<lparr>local_registry := r\<rparr>
          in Some (send_to s1 session (FramePublished request_id (bnd_id b))
                   @ (if created then [registration_publication s1 session] else []), s1))"

definition unpublish :: "session_id \<Rightarrow> u64 \<Rightarrow> binding_id \<Rightarrow> gateway_state \<Rightarrow> gateway_action list transition" where
  "unpublish session request_id b s =
     (let (gone, r) = remove_owned session b (local_registry s);
          removed = (gone \<noteq> None);
          s1 = s\<lparr>local_registry := r\<rparr>;
          (acts, s2) = (if removed then cancel_pending_binding b s1 else ([], s1))
      in (acts @ send_to s2 session (FrameUnpublished request_id)
          @ (if removed then [registration_publication s2 session] else []), s2))"

end
