(* ===== verification/Gateway_Remote.thy ===== *)
theory Gateway_Remote
  imports Gateway_Pipes
begin

text \<open>
  Remote OPEN attempts and pipes whose other end is a peer gateway
  (\<open>relaygate-gateway/src/state/remote.rs\<close>), and the control path of the state core (\<open>state.rs\<close>,
  \<open>state/control_admission.rs\<close>): frame dispatch, admission and authorization of PUBLISH and DIAL,
  draining and the snapshot. Where the code reads the clock inside an operation, \<open>now\<close> is an argument.
\<close>

section \<open>Remote opens (\<open>remote.rs\<close>)\<close>

datatype attempt_match =
    MatchResolving
  | MatchStarting binding_id
  | MatchAwaiting binding_id
  | MatchStale
  | MatchCommitted

definition match_attempt ::
  "open_identity \<Rightarrow> peer_stream_key option \<Rightarrow> gateway_state \<Rightarrow> (pipe_id \<times> attempt_match) option" where
  "match_attempt oi key s =
     (case hm_get (remote_open_attempts s) oi of
        None \<Rightarrow> None
      | Some attempt \<Rightarrow> Some (attempt_pipe_id attempt,
          case attempt_phase attempt of
            Resolving \<Rightarrow> MatchResolving
          | StartingPeer b \<Rightarrow> MatchStarting b
          | AwaitingPeer current b \<Rightarrow>
              (case key of
                 None \<Rightarrow> MatchCommitted
               | Some k \<Rightarrow> if k = current then MatchAwaiting b else MatchStale)))"

definition sdk_dependency_failure :: "error_code \<Rightarrow> string \<Rightarrow> error_code \<times> string" where
  "sdk_dependency_failure code message =
     (if code = Unauthenticated \<or> code = PermissionDenied
      then (Internal, ''Gateway internal dependency authentication or authorization failed'')
      else (code, message))"

definition fail_remote_attempt ::
  "open_identity \<Rightarrow> error_code \<Rightarrow> peer_observation \<Rightarrow> string \<Rightarrow> gateway_state \<Rightarrow> gateway_action list transition" where
  "fail_remote_attempt oi code observation message s =
     (case take_remote_attempt oi s of
        (None, s1) \<Rightarrow> ([], s1)
      | (Some attempt, s1) \<Rightarrow>
          (open_failed s1 (origin_session_id (attempt_pipe_id attempt))
             (pipe_connection_id (attempt_pipe_id attempt)) code observation message, s1))"

definition route_resolved ::
  "open_identity \<Rightarrow> binding_projection list \<Rightarrow> instant \<Rightarrow> gateway_state \<Rightarrow> gateway_action list transition" where
  "route_resolved oi bindings now s =
     (case hm_get (remote_open_attempts s) oi of None \<Rightarrow> ([], s) | Some attempt \<Rightarrow>
      if attempt_phase attempt \<noteq> Resolving then ([], s)
      else
        let d = attempt_destination attempt; pid = attempt_pipe_id attempt in
        case find (\<lambda>p. Some (identity_gateway_id (projection_identity p)) \<noteq> gateway_id_of s
                     \<or> identity_session_id (projection_identity p) \<noteq> origin_session_id pid) bindings of
          None \<Rightarrow> fail_remote_attempt oi FailedPrecondition NotObserved
                    ''only the dialing Relay publishes this Destination'' s
        | Some projection \<Rightarrow>
            if projection_destination projection \<noteq> d
            then fail_remote_attempt oi FailedPrecondition NotObserved
                   ''RouteTable returned a projection for a different Destination'' s
            else
              let identity = projection_identity projection;
                  relay_session = identity_session_id identity;
                  b = identity_binding_id identity in
              if Some (identity_gateway_id identity) = gateway_id_of s
              then let s1 = snd (take_remote_attempt oi s) in
                (case exact relay_session b d (local_registry s1) of
                   None \<Rightarrow> (open_failed s1 (origin_session_id pid) (pipe_connection_id pid) Unavailable NotObserved
                              ''selected local Binding is stale'', s1)
                 | Some binding \<Rightarrow> offer_local_at pid binding now (Some (attempt_started_at attempt)) s1)
              else ([OpenPeer oi (identity_gateway_id identity) (projection_locator projection) d relay_session b],
                    s\<lparr>remote_open_attempts := hm_insert oi (attempt\<lparr>attempt_phase := StartingPeer b\<rparr>)
                        (remote_open_attempts s)\<rparr>))"

definition route_failed :: "open_identity \<Rightarrow> error_code \<Rightarrow> string \<Rightarrow> gateway_state \<Rightarrow> gateway_action list transition" where
  "route_failed oi code message s =
     (case match_attempt oi None s of
        Some (_, MatchResolving) \<Rightarrow>
          (case sdk_dependency_failure code message of (c, m) \<Rightarrow> fail_remote_attempt oi c NotObserved m s)
      | _ \<Rightarrow> ([], s))"

definition peer_open_committed :: "open_identity \<Rightarrow> peer_stream_key \<Rightarrow> gateway_state \<Rightarrow> gateway_action list transition" where
  "peer_open_committed oi key s =
     (let reset = (\<lambda>pid code message. (endpoint_reset s (Peer key) pid code message, s)) in
      case match_attempt oi (Some key) s of
        None \<Rightarrow>
          if hm_get (active_peer_opens s) oi = Some key then ([], s)
          else reset (pipe_id_new (origin_session oi) (open_connection_id oi)) Cancelled
                 ''Open attempt ended before the peer OPEN committed''
      | Some (pid, matched) \<Rightarrow>
          (case matched of
             MatchAwaiting _ \<Rightarrow> ([], s)
           | MatchStarting b \<Rightarrow>
               if hm_contains (peer_pipes s) key \<or> key \<in> snd ` set (active_peer_opens s)
                  \<or> hm_contains (active_peer_opens s) oi
               then reset pid ProtocolError ''peer stream identity is already active''
               else ([], s\<lparr>active_peer_opens := hm_insert oi key (active_peer_opens s),
                      remote_open_attempts :=
                        (case hm_get (remote_open_attempts s) oi of
                           None \<Rightarrow> remote_open_attempts s
                         | Some attempt \<Rightarrow> hm_insert oi (attempt\<lparr>attempt_phase := AwaitingPeer key b\<rparr>)
                             (remote_open_attempts s))\<rparr>)
           | _ \<Rightarrow> reset pid ProtocolError ''peer OPEN committed in an invalid local phase''))"

definition peer_open_commit_failed ::
  "open_identity \<Rightarrow> error_code \<Rightarrow> peer_observation \<Rightarrow> string \<Rightarrow> gateway_state \<Rightarrow> gateway_action list transition" where
  "peer_open_commit_failed oi code observation message s =
     (case match_attempt oi None s of
        Some (_, MatchStarting _) \<Rightarrow>
          (case sdk_dependency_failure code message of (c, m) \<Rightarrow> fail_remote_attempt oi c observation m s)
      | _ \<Rightarrow> ([], s))"

definition receive_peer_open_at ::
  "peer_stream_key \<Rightarrow> open_identity \<Rightarrow> destination \<Rightarrow> session_id \<Rightarrow> binding_id \<Rightarrow> instant \<Rightarrow> gateway_state \<Rightarrow>
   gateway_action list transition" where
  "receive_peer_open_at key oi d relay_session b now s =
     (let failed = (\<lambda>code message. ([SendPeerFrame (PeerFailed key code NotObserved message)], s)) in
      if draining s then failed Unavailable ''Gateway is draining''
      else if entry_gateway oi \<noteq> peer_gateway_id key
      then failed PermissionDenied ''peer OPEN identity does not match the authenticated Gateway''
      else if hm_contains (peer_pipes s) key \<or> hm_contains (active_peer_opens s) oi
           \<or> hm_contains (remote_open_attempts s) oi
      then failed AlreadyExists ''peer OPEN identity is already active''
      else if live_pipe_count s \<ge> max_live_pipes (limits s) \<or> pending_capacity_reached s
      then failed ResourceExhausted ''Gateway Pipe limit reached''
      else case (if hm_contains (sessions s) relay_session then exact relay_session b d (local_registry s) else None) of
        None \<Rightarrow> failed Unavailable ''selected Binding is no longer current''
      | Some binding \<Rightarrow>
          let pid = pipe_id_new (origin_session oi) (open_connection_id oi) in
          if hm_contains (pipes s) pid then failed AlreadyExists ''Pipe identity is already active''
          else let s1 = insert_offer pid
                 \<lparr>dialer = Peer key, acceptor = Sdk relay_session, pipe_binding_id = bnd_id binding,
                  pipe_open_identity = Some oi, phase = Offered, offered_at = now, open_started_at = None,
                  dialer_finished = False, acceptor_finished = False\<rparr> s
               in (send_to s1 relay_session (FrameOffer pid b d), s1))"

definition peer_opened_at ::
  "peer_stream_key \<Rightarrow> open_identity \<Rightarrow> instant \<Rightarrow> gateway_state \<Rightarrow> gateway_action list transition" where
  "peer_opened_at key oi now s =
     (case match_attempt oi (Some key) s of
        None \<Rightarrow>
          if hm_get (active_peer_opens s) oi = Some key \<and> hm_contains (peer_pipes s) key then ([], s)
          else (endpoint_reset s (Peer key) (pipe_id_new (origin_session oi) (open_connection_id oi)) Cancelled
                  ''late peer OPENED cannot recreate an ended attempt'', s)
      | Some (pid, matched) \<Rightarrow>
          case (case matched of MatchStarting b \<Rightarrow> Some b | MatchAwaiting b \<Rightarrow> Some b | _ \<Rightarrow> None) of
            None \<Rightarrow> (endpoint_reset s (Peer key) pid ProtocolError ''peer OPENED does not match the current attempt'', s)
          | Some b \<Rightarrow>
              (case take_remote_attempt oi s of
                 (None, s1) \<Rightarrow> ([], s1)
               | (Some attempt, s1) \<Rightarrow>
                   let session = origin_session_id (attempt_pipe_id attempt);
                       live = hm_contains (sessions s1) session in
                   if \<not> live \<or> live_pipe_count s1 \<ge> max_live_pipes (limits s1)
                   then let code = (if live then ResourceExhausted else Cancelled) in
                     (endpoint_reset s1 (Peer key) (attempt_pipe_id attempt) code
                        ''peer OPENED after the local endpoint became unavailable''
                      @ (if live then open_failed s1 session (pipe_connection_id (attempt_pipe_id attempt)) code
                           MaybeObserved ''Gateway live Pipe limit reached during remote admission'' else []), s1)
                   else let s2 = insert_open (attempt_pipe_id attempt)
                          \<lparr>dialer = Sdk session, acceptor = Peer key, pipe_binding_id = b,
                           pipe_open_identity = Some oi, phase = Opened, offered_at = now, open_started_at = None,
                           dialer_finished = False, acceptor_finished = False\<rparr> s1
                        in (send_to s2 session (FrameOpened (attempt_pipe_id attempt)), s2)))"

definition peer_event_matches_attempt :: "open_identity \<Rightarrow> peer_stream_key \<Rightarrow> gateway_state \<Rightarrow> bool" where
  "peer_event_matches_attempt oi key s \<longleftrightarrow>
     (case match_attempt oi (Some key) s of
        Some (_, MatchStarting _) \<Rightarrow> True | Some (_, MatchAwaiting _) \<Rightarrow> True | _ \<Rightarrow> False)"

definition peer_open_failed ::
  "peer_stream_key \<Rightarrow> open_identity \<Rightarrow> error_code \<Rightarrow> peer_observation \<Rightarrow> string \<Rightarrow> gateway_state \<Rightarrow>
   gateway_action list transition" where
  "peer_open_failed key oi code observation message s =
     (if \<not> peer_event_matches_attempt oi key s then ([], s)
      else case sdk_dependency_failure code message of (c, m) \<Rightarrow> fail_remote_attempt oi c observation m s)"

definition peer_transport_lost_stream ::
  "peer_stream_key \<Rightarrow> open_identity \<Rightarrow> peer_observation \<Rightarrow> gateway_state \<Rightarrow> gateway_action list transition" where
  "peer_transport_lost_stream key oi observation s =
     (if peer_event_matches_attempt oi key s
      then fail_remote_attempt oi Unavailable observation ''PeerTransport was lost during remote OPEN'' s
      else case hm_get (peer_pipes s) key of None \<Rightarrow> ([], s) | Some pid \<Rightarrow>
        if \<not> (case hm_get (pipes s) pid of None \<Rightarrow> False | Some pipe \<Rightarrow> pipe_open_identity pipe = Some oi)
        then ([], s)
        else (case remove_pipe pid s of
                (None, s1) \<Rightarrow> ([], s1)
              | (Some pipe, s1) \<Rightarrow>
                  (concat (map (\<lambda>session. send_to s1 session (FrameReset pid Unavailable ''PeerTransport was lost''))
                     (List.map_filter sdk_session [dialer pipe, acceptor pipe])), s1)))"

section \<open>Control operations (\<open>state.rs\<close>)\<close>

definition admit_control :: "session_id \<Rightarrow> instant \<Rightarrow> gateway_state \<Rightarrow> bool transition" where
  "admit_control session now s =
     (case hm_get (sessions s) session of
        None \<Rightarrow> (False, s)
      | Some entry \<Rightarrow>
          let (own, rate) = try_take now (entry_control_rate entry);
              s1 = s\<lparr>sessions := hm_insert session (entry\<lparr>entry_control_rate := rate\<rparr>) (sessions s)\<rparr> in
          if \<not> own then (False, s1)
          else let (shared, rate) = try_take now (control_rate s1) in (shared, s1\<lparr>control_rate := rate\<rparr>))"

definition authorization_failed :: "gateway_state \<Rightarrow> session_id \<Rightarrow> control_operation \<Rightarrow> error_code \<Rightarrow> gateway_action list" where
  "authorization_failed s session op code = send_to s session (operation_failure op code)"

definition prepare_authorization ::
  "session_id \<Rightarrow> control_operation \<Rightarrow> instant \<Rightarrow> gateway_state \<Rightarrow> gateway_action list option transition" where
  "prepare_authorization session op now s =
     (case hm_get (sessions s) session of
        None \<Rightarrow> (Some [], s)
      | Some entry \<Rightarrow>
          let replayed = (case op of
                            ControlDial c _ _ \<Rightarrow> (case highest_connection_id entry of None \<Rightarrow> False | Some h \<Rightarrow> c \<le> h)
                          | ControlPublish _ _ \<Rightarrow> False) in
          if replayed then (Some (authorization_failed s session op ProtocolError), s)
          else
            let s1 = (case op of
                        ControlDial c _ _ \<Rightarrow>
                          s\<lparr>sessions := hm_insert session (entry\<lparr>highest_connection_id := Some c\<rparr>) (sessions s)\<rparr>
                      | ControlPublish _ _ \<Rightarrow> s) in
            if draining s1 then (Some (authorization_failed s1 session op Unavailable), s1)
            else (case admit_control session now s1 of
                    (True, s2) \<Rightarrow> (None, s2)
                  | (False, s2) \<Rightarrow> (Some (authorization_failed s2 session op ResourceExhausted), s2)))"

definition apply_control_at ::
  "uuid list \<Rightarrow> session_id \<Rightarrow> control_operation \<Rightarrow> instant \<Rightarrow> gateway_state \<Rightarrow> gateway_action list transition option" where
  "apply_control_at draws session op now s =
     (case op of
        ControlPublish request_id d \<Rightarrow> publish draws session request_id d s
      | ControlDial connection_id d started_at \<Rightarrow> Some (dial session connection_id d now started_at s))"

definition commit_authorized ::
  "uuid list \<Rightarrow> session_id \<Rightarrow> control_operation \<Rightarrow> verified_authorization \<Rightarrow> instant \<Rightarrow> gateway_state \<Rightarrow>
   gateway_action list transition option" where
  "commit_authorized draws session op verified now s =
     (if \<not> hm_contains (sessions s) session then Some ([], s)
      else if \<not> authorizes verified op now then Some (authorization_failed s session op Unauthenticated, s)
      else apply_control_at draws session op now s)"

definition apply_frame :: "session_id \<Rightarrow> frame \<Rightarrow> gateway_state \<Rightarrow> gateway_action list frame_result" where
  "apply_frame session frame s =
     (if \<not> hm_contains (sessions s) session then (Inr [], s)
      else case frame of
        FrameUnpublish request_id b \<Rightarrow> ok_actions (unpublish session request_id b s)
      | FrameOfferAccepted pid \<Rightarrow> offer_accepted session pid s
      | FrameOfferRejected pid code message \<Rightarrow> offer_rejected session pid code message s
      | FrameData pid bs \<Rightarrow> pipe_data session pid bs s
      | FrameFin pid \<Rightarrow> pipe_fin session pid s
      | FrameClose pid \<Rightarrow> pipe_close session pid s
      | FrameReset pid code message \<Rightarrow> pipe_reset session pid code message s
      | FrameCancel pid \<Rightarrow> cancel_pipe session pid s
      | FramePing nonce \<Rightarrow> (Inr (send_to s session (FramePong nonce)), s)
      | _ \<Rightarrow> (Inr [], s))"

definition handle_frame :: "session_id \<Rightarrow> frame \<Rightarrow> instant \<Rightarrow> gateway_state \<Rightarrow> gateway_action list frame_result" where
  "handle_frame session frame now s =
     (case control_take now frame of
        Inr (op, _) \<Rightarrow>
          (case prepare_authorization session op now s of
             (Some acts, s1) \<Rightarrow> (Inr acts, s1)
           | (None, s1) \<Rightarrow> (Inr (authorization_failed s1 session op Unauthenticated), s1))
      | Inl frame \<Rightarrow> apply_frame session frame s)"

definition begin_draining :: "gateway_state \<Rightarrow> gateway_action list transition" where
  "begin_draining s =
     (if draining s then ([], s)
      else (map (\<lambda>(session, _). PublishRegistration session []) (sessions s), s\<lparr>draining := True\<rparr>))"

definition is_drained :: "gateway_state \<Rightarrow> bool" where
  "is_drained s \<longleftrightarrow> pending_offer_count s = 0 \<and> live_pipe_count s = 0 \<and> remote_open_attempts s = []"

record gateway_snapshot =
  snapshot_draining :: bool
  snapshot_sdk_admission_ready :: bool
  snapshot_sessions :: nat
  snapshot_bindings :: nat
  snapshot_pending_offers :: nat
  snapshot_live_pipes :: nat
  snapshot_originated_pipes :: nat
  snapshot_session_slots_used :: nat
  snapshot_max_sessions :: nat
  snapshot_pending_handshakes :: nat
  snapshot_max_pending_handshakes :: nat
  snapshot_max_bindings :: nat
  snapshot_max_pending_offers :: nat
  snapshot_max_remote_dial_attempts :: nat
  snapshot_max_live_pipes :: nat
  snapshot_route_dependency_health :: route_dependency_health
  snapshot_route_registrations_synced :: nat
  snapshot_route_registrations_unsynced :: nat
  snapshot_remote_open_attempts :: nat
  snapshot_peer_transports_connecting :: nat
  snapshot_peer_transports_ready :: nat
  snapshot_peer_streams :: nat

definition snapshot_from_parts :: "nat \<Rightarrow> nat \<Rightarrow> nat \<Rightarrow> nat \<Rightarrow> bool \<Rightarrow> gateway_snapshot" where
  "snapshot_from_parts session_count bindings pending live drain =
     \<lparr>snapshot_draining = drain, snapshot_sdk_admission_ready = False, snapshot_sessions = session_count,
      snapshot_bindings = bindings, snapshot_pending_offers = pending, snapshot_live_pipes = live,
      snapshot_originated_pipes = 0, snapshot_session_slots_used = 0, snapshot_max_sessions = 0,
      snapshot_pending_handshakes = 0, snapshot_max_pending_handshakes = 0, snapshot_max_bindings = 0,
      snapshot_max_pending_offers = 0, snapshot_max_remote_dial_attempts = 0, snapshot_max_live_pipes = 0,
      snapshot_route_dependency_health = HealthDisabled, snapshot_route_registrations_synced = 0,
      snapshot_route_registrations_unsynced = 0, snapshot_remote_open_attempts = 0,
      snapshot_peer_transports_connecting = 0, snapshot_peer_transports_ready = 0, snapshot_peer_streams = 0\<rparr>"

definition snapshot :: "gateway_state \<Rightarrow> gateway_snapshot" where
  "snapshot s =
     (snapshot_from_parts (length (sessions s)) (binding_count_of (local_registry s)) (pending_offer_count s)
        (live_pipe_count s) (draining s))
     \<lparr>snapshot_remote_open_attempts := length (remote_open_attempts s),
      snapshot_originated_pipes := originated_pipe_count s, snapshot_max_sessions := max_sessions (limits s),
      snapshot_max_bindings := max_bindings (limits s), snapshot_max_pending_offers := max_pending_offers (limits s),
      snapshot_max_remote_dial_attempts := max_remote_dial_attempts (limits s),
      snapshot_max_live_pipes := max_live_pipes (limits s)\<rparr>"

text \<open>The runtime's view: \<open>slots\<close> and \<open>handshakes\<close> are the free permits of the two semaphores.\<close>

record peer_counts =
  counts_connecting :: nat
  counts_ready :: nat
  counts_streams :: nat

definition runtime_snapshot ::
  "nat \<Rightarrow> nat \<Rightarrow> nat \<Rightarrow> token_bucket \<Rightarrow> instant \<Rightarrow> routing_counts option \<Rightarrow> peer_counts option \<Rightarrow> gateway_state \<Rightarrow>
   gateway_snapshot \<times> token_bucket" where
  "runtime_snapshot slots handshakes max_handshakes rate now routing peer s =
     (let r = snapshot s;
          r = r\<lparr>snapshot_session_slots_used := snapshot_max_sessions r - slots\<rparr>;
          r = r\<lparr>snapshot_max_pending_handshakes := max_handshakes\<rparr>;
          r = r\<lparr>snapshot_pending_handshakes := snapshot_max_pending_handshakes r - handshakes\<rparr>;
          asked = \<not> snapshot_draining r \<and> 0 < slots \<and> 0 < handshakes;
          (free, rate) = (if asked then has_capacity now rate else (False, rate));
          r = r\<lparr>snapshot_sdk_admission_ready := free\<rparr>;
          r = (case routing of None \<Rightarrow> r
               | Some c \<Rightarrow> r\<lparr>snapshot_route_dependency_health := counts_dependency_health c,
                           snapshot_route_registrations_synced := counts_synced c,
                           snapshot_route_registrations_unsynced := counts_unsynced c\<rparr>);
          r = (case peer of None \<Rightarrow> r
               | Some c \<Rightarrow> r\<lparr>snapshot_peer_transports_connecting := counts_connecting c,
                           snapshot_peer_transports_ready := counts_ready c,
                           snapshot_peer_streams := counts_streams c\<rparr>)
      in (r, rate))"

end
