(* ===== verification/Gateway_Invariant.thy ===== *)
theory Gateway_Invariant
  imports Gateway_Remote
begin

text \<open>
  The invariant of the gateway state core. \<open>core\<close> relates the pipe table to its counters, its peer
  indexes, the remote OPEN attempts and the limits; \<open>anchored\<close> says that what refers to a session or
  to a binding refers to a live one. Each primitive of \<open>Gateway_State\<close> keeps \<open>core\<close>; the operations
  are sequences of primitives.

  Two facts about the outside are named in an environment: \<open>carries\<close> gives the OPEN a peer stream
  carries (a stream key is bound to one OPEN for good, see \<open>Peer_Identity\<close>), and \<open>local_session\<close> tells
  the session identifiers this gateway draws from those of other gateways.
\<close>

record peer_env =
  carries :: "peer_stream_key \<Rightarrow> open_identity"
  local_session :: "session_id \<Rightarrow> bool"

definition pid_of :: "open_identity \<Rightarrow> pipe_id" where
  "pid_of oi = pipe_id_new (origin_session oi) (open_connection_id oi)"

definition pipe_ok :: "peer_env \<Rightarrow> gateway_id option \<Rightarrow> pipe_id \<Rightarrow> pipe_entry \<Rightarrow> bool" where
  "pipe_ok env g pid pipe \<longleftrightarrow>
     \<not> (dialer_finished pipe \<and> acceptor_finished pipe) \<and>
     (dialer_finished pipe \<or> acceptor_finished pipe \<longrightarrow> phase pipe = Opened) \<and>
     (case (dialer pipe, acceptor pipe) of
        (Sdk d, Sdk a) \<Rightarrow> d = origin_session_id pid \<and> a \<noteq> d \<and> pipe_open_identity pipe = None
      | (Peer k, Sdk a) \<Rightarrow> pipe_open_identity pipe = Some (carries env k) \<and> pid = pid_of (carries env k) \<and>
          entry_gateway (carries env k) = peer_gateway_id k \<and> \<not> local_session env (origin_session_id pid)
      | (Sdk d, Peer k) \<Rightarrow> phase pipe = Opened \<and> d = origin_session_id pid \<and>
          pipe_open_identity pipe = Some (carries env k) \<and> pid = pid_of (carries env k) \<and>
          g = Some (entry_gateway (carries env k))
      | (Peer _, Peer _) \<Rightarrow> False)"

definition tables_ok :: "gateway_state \<Rightarrow> bool" where
  "tables_ok s \<longleftrightarrow> hm_ok (sessions s) \<and> hm_ok (pipes s) \<and> hm_ok (peer_pipes s) \<and> hm_ok (active_peer_opens s) \<and>
     hm_ok (remote_open_attempts s)"

definition counters_ok :: "gateway_state \<Rightarrow> bool" where
  "counters_ok s \<longleftrightarrow>
     pending_offer_count s = hm_count (\<lambda>p. phase p = Offered) (pipes s) \<and>
     live_pipe_count s = hm_count (\<lambda>p. phase p = Opened) (pipes s) \<and>
     originated_pipe_count s = hm_count (\<lambda>p. phase p = Opened \<and> originated p) (pipes s)"

definition peer_index_ok :: "gateway_state \<Rightarrow> bool" where
  "peer_index_ok s \<longleftrightarrow>
     (\<forall>k pid. hm_get (peer_pipes s) k = Some pid \<longleftrightarrow>
        (\<exists>pipe. hm_get (pipes s) pid = Some pipe \<and> pipe_peer_key pipe = Some k))"

text \<open>The stream an OPEN is active on: that of its pipe, or the one its attempt awaits.\<close>

definition active_spec ::
  "(pipe_id \<Rightarrow> pipe_entry option) \<Rightarrow> (open_identity \<Rightarrow> remote_open_attempt option) \<Rightarrow> open_identity \<Rightarrow> peer_stream_key option" where
  "active_spec P A oi =
     (case P (pid_of oi) of
        Some pipe \<Rightarrow> if pipe_open_identity pipe = Some oi then pipe_peer_key pipe else None
      | None \<Rightarrow> (case A oi of
                   Some attempt \<Rightarrow> (case attempt_phase attempt of AwaitingPeer k b \<Rightarrow> Some k | _ \<Rightarrow> None)
                 | None \<Rightarrow> None))"

definition attempts_ok :: "peer_env \<Rightarrow> gateway_state \<Rightarrow> bool" where
  "attempts_ok env s \<longleftrightarrow>
     (\<forall>oi attempt. hm_get (remote_open_attempts s) oi = Some attempt \<longrightarrow>
        gateway_id_of s = Some (entry_gateway oi) \<and> attempt_pipe_id attempt = pid_of oi \<and>
        hm_get (pipes s) (pid_of oi) = None \<and>
        (\<forall>k b. attempt_phase attempt = AwaitingPeer k b \<longrightarrow> carries env k = oi))"

definition limits_ok :: "gateway_state \<Rightarrow> bool" where
  "limits_ok s \<longleftrightarrow>
     live_pipe_count s \<le> max_live_pipes (limits s) \<and>
     pending_offer_count s + length (remote_open_attempts s) \<le> max_pending_offers (limits s) \<and>
     length (remote_open_attempts s) \<le> max_remote_dial_attempts (limits s)"

definition core :: "peer_env \<Rightarrow> gateway_state \<Rightarrow> bool" where
  "core env s \<longleftrightarrow> tables_ok s \<and> counters_ok s \<and>
     (\<forall>pid pipe. hm_get (pipes s) pid = Some pipe \<longrightarrow> pipe_ok env (gateway_id_of s) pid pipe) \<and>
     peer_index_ok s \<and>
     hm_get (active_peer_opens s) = active_spec (hm_get (pipes s)) (hm_get (remote_open_attempts s)) \<and>
     attempts_ok env s \<and> limits_ok s"

lemma coreD:
  assumes "core env s"
  shows "tables_ok s" "counters_ok s"
    "\<And>pid pipe. hm_get (pipes s) pid = Some pipe \<Longrightarrow> pipe_ok env (gateway_id_of s) pid pipe"
    "peer_index_ok s"
    "hm_get (active_peer_opens s) = active_spec (hm_get (pipes s)) (hm_get (remote_open_attempts s))"
    "attempts_ok env s" "limits_ok s"
  using assms by (auto simp: core_def)

lemma pipe_ok_identity:
  assumes "pipe_ok env g pid pipe"
  shows "pipe_peer_key pipe = Some k \<longleftrightarrow> pipe_open_identity pipe = Some (carries env k) \<and> pid = pid_of (carries env k) \<and>
      (dialer pipe = Peer k \<or> acceptor pipe = Peer k)"
    "pipe_open_identity pipe = Some oi \<Longrightarrow> pid = pid_of oi \<and> (\<exists>k. pipe_peer_key pipe = Some k \<and> carries env k = oi)"
    "pipe_open_identity pipe = None \<Longrightarrow> pipe_peer_key pipe = None"
  using assms by (auto simp: pipe_ok_def pipe_peer_key_def split: pipe_endpoint.splits)

lemma attempts_no_pipe:
  "attempts_ok env s \<Longrightarrow> hm_get (pipes s) pid = Some pipe \<Longrightarrow> pid_of oi = pid \<Longrightarrow> hm_get (remote_open_attempts s) oi = None"
  by (cases "hm_get (remote_open_attempts s) oi") (auto simp: attempts_ok_def)

section \<open>Removing a pipe\<close>

definition same_rest :: "gateway_state \<Rightarrow> gateway_state \<Rightarrow> bool" where
  "same_rest s t \<longleftrightarrow> sessions t = sessions s \<and> local_registry t = local_registry s \<and> draining t = draining s \<and>
     gateway_id_of t = gateway_id_of s \<and> limits t = limits s \<and> control_rate t = control_rate s \<and> cancelled t = cancelled s"

lemma same_rest_refl [simp]: "same_rest s s" and same_rest_trans: "same_rest s t \<Longrightarrow> same_rest t u \<Longrightarrow> same_rest s u"
  by (auto simp: same_rest_def)

lemma remove_pipe_frame:
  "remove_pipe pid s = (r, t) \<Longrightarrow> r = hm_get (pipes s) pid \<and> pipes t = hm_remove pid (pipes s) \<and>
     remote_open_attempts t = remote_open_attempts s \<and> same_rest s t"
  by (auto simp: remove_pipe_def same_rest_def Let_def hm_remove_notin split: option.splits pipe_phase.splits)

lemma active_spec_remove:
  assumes "P pid = Some pipe" "pipe_ok env g pid pipe"
    and "\<And>oi a. A oi = Some a \<Longrightarrow> P (pid_of oi) = None"
  shows "active_spec (P(pid := None)) A =
    (case pipe_open_identity pipe of None \<Rightarrow> active_spec P A | Some oi \<Rightarrow> (active_spec P A)(oi := None))"
proof
  fix oi
  show "active_spec (P(pid := None)) A oi =
    (case pipe_open_identity pipe of None \<Rightarrow> active_spec P A | Some oi \<Rightarrow> (active_spec P A)(oi := None)) oi"
  proof (cases "pid_of oi = pid")
    case True
    then have "A oi = None" using assms(1) assms(3) [of oi] by (cases "A oi") auto
    then show ?thesis using True assms(1) by (auto simp: active_spec_def split: option.splits)
  next
    case False
    then have "pipe_open_identity pipe \<noteq> Some oi" using pipe_ok_identity(2) [OF assms(2)] by auto
    then show ?thesis using False by (auto simp: active_spec_def split: option.splits)
  qed
qed

lemma peer_index_unique:
  "peer_index_ok s \<Longrightarrow> hm_get (pipes s) p = Some a \<Longrightarrow> hm_get (pipes s) q = Some b \<Longrightarrow>
     pipe_peer_key a = Some k \<Longrightarrow> pipe_peer_key b = Some k \<Longrightarrow> p = q"
  unfolding peer_index_ok_def by (metis option.inject)

lemma core_remove_pipe:
  assumes core: "core env s" and rem: "remove_pipe pid s = (r, t)"
  shows "core env t"
proof (cases "hm_get (pipes s) pid")
  case None
  then show ?thesis using assms by (simp add: remove_pipe_def)
next
  case (Some pipe)
  note C = coreD [OF core]
  note frame = remove_pipe_frame [OF rem]
  have ok: "pipe_ok env (gateway_id_of s) pid pipe" using C(3) Some .
  have gone: "hm_get (pipes t) = (hm_get (pipes s))(pid := None)" using frame by (simp only: hm_get_remove_fun)
  have t: "peer_pipes t = (case pipe_peer_key pipe of None \<Rightarrow> peer_pipes s | Some k \<Rightarrow> hm_remove k (peer_pipes s))"
    "active_peer_opens t = (case pipe_open_identity pipe of None \<Rightarrow> active_peer_opens s | Some oi \<Rightarrow> hm_remove oi (active_peer_opens s))"
    "pending_offer_count t = pending_offer_count s - (if phase pipe = Offered then 1 else 0)"
    "live_pipe_count t = live_pipe_count s - (if phase pipe = Opened then 1 else 0)"
    "originated_pipe_count t = originated_pipe_count s - (if phase pipe = Opened \<and> originated pipe then 1 else 0)"
    using rem Some by (auto simp: remove_pipe_def Let_def split: option.splits pipe_phase.splits)
  have "tables_ok t" using C(1) frame by (auto simp: tables_ok_def same_rest_def t hm_ok_remove split: option.splits)
  moreover have "counters_ok t" using C(1,2) hm_count_remove [OF _ Some] frame
    by (simp add: counters_ok_def tables_ok_def t)
  moreover have "limits_ok t" using C(7) frame by (auto simp: limits_ok_def t same_rest_def)
  moreover have "peer_index_ok t"
    using C(4) peer_index_unique [OF C(4) Some] unfolding peer_index_ok_def gone t
    by (auto simp: table_simps Some split: option.splits if_splits)
  moreover have "hm_get (active_peer_opens t) = (case pipe_open_identity pipe of
      None \<Rightarrow> hm_get (active_peer_opens s) | Some oi \<Rightarrow> (hm_get (active_peer_opens s))(oi := None))"
    by (cases "pipe_open_identity pipe") (simp_all only: t option.case hm_get_remove_fun)
  then have "hm_get (active_peer_opens t) = active_spec (hm_get (pipes t)) (hm_get (remote_open_attempts t))"
    using active_spec_remove [where P = "hm_get (pipes s)" and A = "hm_get (remote_open_attempts s)", OF Some ok] C(5,6) frame
    unfolding gone attempts_ok_def by (cases "pipe_open_identity pipe") simp_all
  moreover have "attempts_ok env t" using C(6) frame by (auto simp: attempts_ok_def same_rest_def table_simps)
  moreover have "pipe_ok env (gateway_id_of t) p e" if "hm_get (pipes t) p = Some e" for p e
    using that C(3) frame unfolding gone by (auto simp: same_rest_def split: if_splits)
  ultimately show ?thesis by (simp add: core_def)
qed

section \<open>Adding and promoting a pipe\<close>

lemma active_spec_insert:
  assumes "P pid = None" "pipe_ok env g pid pipe" "\<And>oi. pid_of oi = pid \<Longrightarrow> A oi = None"
  shows "active_spec (P(pid \<mapsto> pipe)) A =
    (case pipe_open_identity pipe of None \<Rightarrow> active_spec P A | Some oi \<Rightarrow> (active_spec P A)(oi := pipe_peer_key pipe))"
proof
  fix oi
  have "active_spec P A oi = None" if "pid_of oi = pid" using that assms(1,3) by (simp add: active_spec_def)
  then show "active_spec (P(pid \<mapsto> pipe)) A oi =
    (case pipe_open_identity pipe of None \<Rightarrow> active_spec P A | Some oi \<Rightarrow> (active_spec P A)(oi := pipe_peer_key pipe)) oi"
    using pipe_ok_identity(2) [OF assms(2)] by (cases "pid_of oi = pid") (auto simp: active_spec_def split: option.splits)
qed

text \<open>A pipe is admissible when its identifier, its stream and its OPEN are not in use.\<close>

definition admissible :: "peer_env \<Rightarrow> gateway_state \<Rightarrow> pipe_id \<Rightarrow> pipe_entry \<Rightarrow> bool" where
  "admissible env s pid pipe \<longleftrightarrow> hm_get (pipes s) pid = None \<and> pipe_ok env (gateway_id_of s) pid pipe \<and>
     (\<forall>k. pipe_peer_key pipe = Some k \<longrightarrow> hm_get (peer_pipes s) k = None) \<and>
     (\<forall>oi. pid_of oi = pid \<longrightarrow> hm_get (remote_open_attempts s) oi = None)"

lemma index_peer_pipe_frame:
  "same_rest s (index_peer_pipe pid pipe s) \<and> pipes (index_peer_pipe pid pipe s) = pipes s \<and>
   remote_open_attempts (index_peer_pipe pid pipe s) = remote_open_attempts s \<and>
   pending_offer_count (index_peer_pipe pid pipe s) = pending_offer_count s \<and>
   live_pipe_count (index_peer_pipe pid pipe s) = live_pipe_count s \<and>
   originated_pipe_count (index_peer_pipe pid pipe s) = originated_pipe_count s"
  by (auto simp: index_peer_pipe_def same_rest_def Let_def split: option.split)

text \<open>What the indexes promise once a pipe is indexed and stored, whatever the counters are.\<close>

lemma core_add_pipe:
  assumes core: "core env s" and adm: "admissible env s pid pipe"
    and t: "pipes t = hm_insert pid pipe (pipes s)" "same_rest s t" "remote_open_attempts t = remote_open_attempts s"
      "peer_pipes t = peer_pipes (index_peer_pipe pid pipe s)"
      "active_peer_opens t = active_peer_opens (index_peer_pipe pid pipe s)"
    and counts: "counters_ok t" "limits_ok t"
  shows "core env t"
proof -
  note C = coreD [OF core]
  have fresh: "hm_get (pipes s) pid = None" and ok: "pipe_ok env (gateway_id_of s) pid pipe"
    and key: "\<And>k. pipe_peer_key pipe = Some k \<Longrightarrow> hm_get (peer_pipes s) k = None"
    and att: "\<And>oi. pid_of oi = pid \<Longrightarrow> hm_get (remote_open_attempts s) oi = None"
    using adm by (auto simp: admissible_def)
  have new: "hm_get (pipes t) = (hm_get (pipes s))(pid \<mapsto> pipe)" by (simp only: t hm_get_insert_fun)
  have pp: "peer_pipes t = (case pipe_peer_key pipe of None \<Rightarrow> peer_pipes s | Some k \<Rightarrow> hm_insert k pid (peer_pipes s))"
    using t(4) by (auto simp: index_peer_pipe_def Let_def split: option.split)
  have ap: "active_peer_opens t = (case pipe_peer_key pipe of None \<Rightarrow> active_peer_opens s | Some k \<Rightarrow>
      case pipe_open_identity pipe of None \<Rightarrow> active_peer_opens s | Some oi \<Rightarrow> hm_insert oi k (active_peer_opens s))"
    using t(5) by (auto simp: index_peer_pipe_def Let_def split: option.split)
  have "tables_ok t" using C(1) t(1,2,3) by (auto simp: tables_ok_def same_rest_def pp ap hm_ok_insert split: option.split)
  moreover have "peer_index_ok t"
    unfolding peer_index_ok_def new pp
  proof (intro allI)
    fix k q
    show "(hm_get (case pipe_peer_key pipe of None \<Rightarrow> peer_pipes s | Some k \<Rightarrow> hm_insert k pid (peer_pipes s)) k = Some q) =
      (\<exists>e. ((hm_get (pipes s))(pid \<mapsto> pipe)) q = Some e \<and> pipe_peer_key e = Some k)"
      using C(4) fresh key [of k]
      by (auto simp: peer_index_ok_def table_simps split: option.splits if_splits) (metis option.distinct(1))
  qed
  moreover have "hm_get (active_peer_opens t) = (case pipe_open_identity pipe of
      None \<Rightarrow> hm_get (active_peer_opens s) | Some oi \<Rightarrow> (hm_get (active_peer_opens s))(oi := pipe_peer_key pipe))"
    using pipe_ok_identity(2,3) [OF ok] unfolding ap
    by (cases "pipe_open_identity pipe"; cases "pipe_peer_key pipe") (auto simp only: option.case hm_get_insert_fun)
  then have "hm_get (active_peer_opens t) = active_spec (hm_get (pipes t)) (hm_get (remote_open_attempts t))"
    using active_spec_insert [where P = "hm_get (pipes s)" and A = "hm_get (remote_open_attempts s)", OF fresh ok att] C(5)
    unfolding new t(3) by (cases "pipe_open_identity pipe") simp_all
  moreover have "attempts_ok env t"
    using C(6) att t(2,3) unfolding attempts_ok_def new by (auto simp: same_rest_def)
  moreover have "pipe_ok env (gateway_id_of t) q e" if "hm_get (pipes t) q = Some e" for q e
    using that C(3) ok t(2) unfolding new by (auto simp: same_rest_def split: if_splits)
  ultimately show ?thesis using counts by (simp add: core_def)
qed

lemma core_insert_offer:
  assumes "core env s" "admissible env s pid pipe" "phase pipe = Offered"
    and "pending_offer_count s + length (remote_open_attempts s) < max_pending_offers (limits s)"
  shows "core env (insert_offer pid pipe s)"
proof (rule core_add_pipe [OF assms(1,2)])
  have fresh: "hm_get (pipes s) pid = None" using assms(2) by (simp add: admissible_def)
  show "counters_ok (insert_offer pid pipe s)"
    using coreD(2) [OF assms(1)] hm_count_insert_fresh [OF fresh] assms(3) index_peer_pipe_frame [of s pid pipe]
    by (simp add: counters_ok_def insert_offer_def Let_def)
  show "limits_ok (insert_offer pid pipe s)"
    using coreD(7) [OF assms(1)] assms(4) index_peer_pipe_frame [of s pid pipe]
    by (simp add: limits_ok_def insert_offer_def Let_def same_rest_def)
qed (use index_peer_pipe_frame [of s pid pipe] in \<open>simp_all add: insert_offer_def Let_def same_rest_def\<close>)

lemma core_insert_open:
  assumes "core env s" "admissible env s pid pipe" "phase pipe = Opened" "live_pipe_count s < max_live_pipes (limits s)"
  shows "core env (insert_open pid pipe s)"
proof (rule core_add_pipe [OF assms(1,2)])
  have fresh: "hm_get (pipes s) pid = None" using assms(2) by (simp add: admissible_def)
  show "counters_ok (insert_open pid pipe s)"
    using coreD(2) [OF assms(1)] hm_count_insert_fresh [OF fresh] assms(3) index_peer_pipe_frame [of s pid pipe]
    by (simp add: counters_ok_def insert_open_def Let_def)
  show "limits_ok (insert_open pid pipe s)"
    using coreD(7) [OF assms(1)] assms(4) index_peer_pipe_frame [of s pid pipe]
    by (simp add: limits_ok_def insert_open_def Let_def same_rest_def)
qed (use index_peer_pipe_frame [of s pid pipe] in \<open>simp_all add: insert_open_def Let_def same_rest_def\<close>)

lemma core_modify_pipe:
  assumes core: "core env s" and old: "hm_get (pipes s) pid = Some pipe"
    and same: "dialer pipe' = dialer pipe" "acceptor pipe' = acceptor pipe" "pipe_open_identity pipe' = pipe_open_identity pipe"
    and ok: "pipe_ok env (gateway_id_of s) pid pipe'"
    and t: "pipes t = hm_insert pid pipe' (pipes s)" "same_rest s t" "remote_open_attempts t = remote_open_attempts s"
      "peer_pipes t = peer_pipes s" "active_peer_opens t = active_peer_opens s"
    and counts: "counters_ok t" "limits_ok t"
  shows "core env t"
proof -
  note C = coreD [OF core]
  have key: "pipe_peer_key pipe' = pipe_peer_key pipe" using same by (simp add: pipe_peer_key_def)
  have new: "hm_get (pipes t) = (hm_get (pipes s))(pid \<mapsto> pipe')" by (simp only: t hm_get_insert_fun)
  have "active_spec ((hm_get (pipes s))(pid \<mapsto> pipe')) A = active_spec (hm_get (pipes s)) A" for A
    using old same key by (auto simp: active_spec_def fun_eq_iff)
  then have "hm_get (active_peer_opens t) = active_spec (hm_get (pipes t)) (hm_get (remote_open_attempts t))"
    using C(5) unfolding new by (simp only: t)
  moreover have "tables_ok t" using C(1) t by (simp add: tables_ok_def same_rest_def hm_ok_insert)
  moreover have "peer_index_ok t" using C(4) old key unfolding peer_index_ok_def new t(4) by auto
  moreover have "attempts_ok env t"
    using C(6) attempts_no_pipe [OF C(6) old] t(2,3) unfolding attempts_ok_def new by (auto simp: same_rest_def)
  moreover have "pipe_ok env (gateway_id_of t) q e" if "hm_get (pipes t) q = Some e" for q e
    using that C(3) ok t(2) unfolding new by (auto simp: same_rest_def split: if_splits)
  ultimately show ?thesis using counts by (simp add: core_def)
qed

lemma promote_offer_frame:
  assumes "promote_offer pid s = (r, t)"
  shows "same_rest s t \<and> remote_open_attempts t = remote_open_attempts s \<and>
    (case hm_get (pipes s) pid of
       Some pipe \<Rightarrow> if phase pipe = Offered
         then r = Some (pipe\<lparr>phase := Opened\<rparr>) \<and> pipes t = hm_insert pid (pipe\<lparr>phase := Opened\<rparr>) (pipes s)
         else r = None \<and> t = s
     | None \<Rightarrow> r = None \<and> t = s)"
  using assms by (auto simp: promote_offer_def same_rest_def Let_def split: option.splits if_splits)

lemma core_promote_offer:
  assumes core: "core env s" and p: "promote_offer pid s = (r, t)" and "live_pipe_count s < max_live_pipes (limits s)"
  shows "core env t"
proof (cases "hm_get (pipes s) pid")
  case None
  then show ?thesis using core p by (simp add: promote_offer_def)
next
  case (Some pipe)
  note C = coreD [OF core]
  show ?thesis
  proof (cases "phase pipe = Offered")
    case False
    then show ?thesis using core p Some by (simp add: promote_offer_def)
  next
    case True
    let ?p = "pipe\<lparr>phase := Opened\<rparr>"
    have t: "t = s\<lparr>pipes := hm_insert pid ?p (pipes s), pending_offer_count := pending_offer_count s - 1,
        live_pipe_count := live_pipe_count s + 1,
        originated_pipe_count := originated_pipe_count s + (if originated pipe then 1 else 0)\<rparr>"
      using p Some True by (simp add: promote_offer_def Let_def)
    have o: "originated ?p = originated pipe" by (simp add: originated_def)
    have hm: "hm_ok (pipes s)" using C(1) by (simp add: tables_ok_def)
    have counts: "counters_ok t"
      using C(2) hm_count_update [OF hm Some, where v' = ?p] True o by (simp add: counters_ok_def t)
    moreover have "limits_ok t" using C(7) assms(3) by (auto simp: limits_ok_def t)
    moreover have "pipe_ok env (gateway_id_of s) pid ?p" using C(3) [OF Some] True by (auto simp: pipe_ok_def split: pipe_endpoint.splits)
    ultimately show ?thesis by (intro core_modify_pipe [OF core Some, of ?p]) (simp_all add: t same_rest_def)
  qed
qed

lemma core_finish:
  assumes core: "core env s" and old: "hm_get (pipes s) pid = Some pipe"
    and same: "dialer pipe' = dialer pipe" "acceptor pipe' = acceptor pipe" "pipe_open_identity pipe' = pipe_open_identity pipe"
      "phase pipe' = phase pipe" and ok: "pipe_ok env (gateway_id_of s) pid pipe'"
  shows "core env (s\<lparr>pipes := hm_insert pid pipe' (pipes s)\<rparr>)" (is "core env ?t")
proof -
  note C = coreD [OF core]
  have hm: "hm_ok (pipes s)" using C(1) by (simp add: tables_ok_def)
  have pos: "P pipe \<Longrightarrow> hm_count P (pipes s) > 0" for P using hm_count_pos [OF old] by blast
  have "originated pipe' = originated pipe" using same by (simp add: originated_def)
  then have "counters_ok ?t"
    using C(2) hm_count_update [OF hm old, where v' = pipe'] same pos [of "\<lambda>p. phase p = Offered"] pos [of "\<lambda>p. phase p = Opened"]
      pos [of "\<lambda>p. phase p = Opened \<and> originated p"] by (auto simp: counters_ok_def)
  moreover have "limits_ok ?t" using C(7) by (simp add: limits_ok_def)
  ultimately show ?thesis by (intro core_modify_pipe [OF core old same(1-3) ok]) (simp_all add: same_rest_def)
qed

section \<open>Remote OPEN attempts\<close>

lemma take_remote_attempt_frame:
  "take_remote_attempt oi s = (r, t) \<Longrightarrow> r = hm_get (remote_open_attempts s) oi \<and> same_rest s t \<and> pipes t = pipes s \<and>
     remote_open_attempts t = hm_remove oi (remote_open_attempts s) \<and> pending_offer_count t = pending_offer_count s \<and>
     live_pipe_count t = live_pipe_count s \<and> peer_pipes t = peer_pipes s"
  by (auto simp: take_remote_attempt_def same_rest_def hm_remove_notin split: option.splits)

lemma active_spec_attempt:
  "P (pid_of oi) = None \<Longrightarrow> active_spec P (A(oi := a)) = (active_spec P A)(oi :=
     (case a of Some attempt \<Rightarrow> (case attempt_phase attempt of AwaitingPeer k b \<Rightarrow> Some k | _ \<Rightarrow> None) | None \<Rightarrow> None))"
  by (auto simp: active_spec_def fun_eq_iff split: option.split)

lemma core_take_remote_attempt:
  assumes core: "core env s" and tk: "take_remote_attempt oi s = (r, t)"
  shows "core env t \<and> (r \<noteq> None \<longrightarrow> pending_offer_count t + length (remote_open_attempts t) < max_pending_offers (limits t))"
proof (cases "hm_get (remote_open_attempts s) oi")
  case None
  then show ?thesis using assms by (simp add: take_remote_attempt_def)
next
  case (Some attempt)
  note C = coreD [OF core]
  note F = take_remote_attempt_frame [OF tk]
  have fresh: "hm_get (pipes s) (pid_of oi) = None" using C(6) Some by (auto simp: attempts_ok_def)
  have t: "t = s\<lparr>remote_open_attempts := hm_remove oi (remote_open_attempts s), active_peer_opens := hm_remove oi (active_peer_opens s)\<rparr>"
    using tk Some by (simp add: take_remote_attempt_def)
  have "0 < length (remote_open_attempts s)" using Some by (cases "remote_open_attempts s") auto
  then have len: "length (remote_open_attempts s) = Suc (length (remote_open_attempts t))"
    using length_hm_remove [of "remote_open_attempts s" oi] C(1) Some by (simp add: t tables_ok_def)
  have "hm_get (active_peer_opens t) = active_spec (hm_get (pipes t)) (hm_get (remote_open_attempts t))"
    using C(5) active_spec_attempt [of "hm_get (pipes s)" oi "hm_get (remote_open_attempts s)" None] fresh
    by (simp add: t hm_get_remove_fun del: map_of_delete)
  moreover have "attempts_ok env t" using C(6) by (auto simp: attempts_ok_def t table_simps split: if_splits)
  ultimately have "core env t"
    using C(1-4,7) len by (auto simp: core_def t tables_ok_def hm_ok_remove counters_ok_def peer_index_ok_def limits_ok_def)
  then show ?thesis using C(7) len by (auto simp: limits_ok_def t)
qed

definition attempt_key :: "remote_open_attempt \<Rightarrow> peer_stream_key option" where
  "attempt_key attempt = (case attempt_phase attempt of AwaitingPeer k b \<Rightarrow> Some k | _ \<Rightarrow> None)"

text \<open>Storing an attempt, new or in a new phase.\<close>

lemma core_put_attempt:
  assumes core: "core env s"
    and at: "gateway_id_of s = Some (entry_gateway oi)" "attempt_pipe_id attempt = pid_of oi"
      "hm_get (pipes s) (pid_of oi) = None" "\<And>k b. attempt_phase attempt = AwaitingPeer k b \<Longrightarrow> carries env k = oi"
    and act: "hm_ok ap" "hm_get ap = (hm_get (active_peer_opens s))(oi := attempt_key attempt)"
    and lim: "hm_get (remote_open_attempts s) oi = None \<Longrightarrow>
      pending_offer_count s + length (remote_open_attempts s) < max_pending_offers (limits s) \<and>
      length (remote_open_attempts s) < max_remote_dial_attempts (limits s)"
  shows "core env (s\<lparr>remote_open_attempts := hm_insert oi attempt (remote_open_attempts s), active_peer_opens := ap\<rparr>)"
    (is "core env ?t")
proof -
  note C = coreD [OF core]
  have "hm_get (active_peer_opens ?t) = active_spec (hm_get (pipes ?t)) (hm_get (remote_open_attempts ?t))"
    using C(5) active_spec_attempt [of "hm_get (pipes s)" oi "hm_get (remote_open_attempts s)" "Some attempt"] at(3) act(2)
    by (simp add: hm_get_insert_fun attempt_key_def)
  moreover have "attempts_ok env ?t" using C(6) at by (auto simp: attempts_ok_def table_simps split: if_splits)
  moreover have "limits_ok ?t" using C(7) lim
    by (cases "hm_get (remote_open_attempts s) oi") (auto simp: limits_ok_def length_hm_insert)
  ultimately show ?thesis
    using C(1-4) act(1) by (auto simp: core_def tables_ok_def hm_ok_insert counters_ok_def peer_index_ok_def)
qed

section \<open>Live sessions and bindings\<close>

definition dialed_by :: "gateway_state \<Rightarrow> pipe_id \<Rightarrow> bool" where
  "dialed_by s pid \<longleftrightarrow>
     (\<exists>entry h. hm_get (sessions s) (origin_session_id pid) = Some entry \<and> highest_connection_id entry = Some h \<and>
        pipe_connection_id pid \<le> h)"

definition anchored :: "peer_env \<Rightarrow> gateway_state \<Rightarrow> bool" where
  "anchored env s \<longleftrightarrow> registry_ok (local_registry s) \<and>
     binding_count_of (local_registry s) \<le> max_bindings (limits s) \<and>
     length (sessions s) \<le> max_sessions (limits s) \<and>
     (\<forall>session. hm_contains (sessions s) session \<longrightarrow> local_session env session) \<and>
     (\<forall>i b. bnds (local_registry s) i = Some b \<longrightarrow> hm_contains (sessions s) (bnd_session_id b)) \<and>
     (\<forall>pid pipe. hm_get (pipes s) pid = Some pipe \<longrightarrow>
        (\<forall>d. dialer pipe = Sdk d \<longrightarrow> dialed_by s pid) \<and>
        (\<forall>a. acceptor pipe = Sdk a \<longrightarrow> hm_contains (sessions s) a \<and>
           (phase pipe = Offered \<longrightarrow>
              (\<exists>b. bnds (local_registry s) (pipe_binding_id pipe) = Some b \<and> bnd_session_id b = a)))) \<and>
     (\<forall>oi attempt. hm_get (remote_open_attempts s) oi = Some attempt \<longrightarrow> dialed_by s (attempt_pipe_id attempt))"

definition gateway_inv :: "peer_env \<Rightarrow> gateway_state \<Rightarrow> bool" where
  "gateway_inv env s \<longleftrightarrow> core env s \<and> anchored env s"

lemma anchoredD:
  assumes "anchored env s"
  shows "registry_ok (local_registry s)"
    "\<And>session. hm_contains (sessions s) session \<Longrightarrow> local_session env session"
    "\<And>i b. bnds (local_registry s) i = Some b \<Longrightarrow> hm_contains (sessions s) (bnd_session_id b)"
    "\<And>pid pipe d. hm_get (pipes s) pid = Some pipe \<Longrightarrow> dialer pipe = Sdk d \<Longrightarrow> dialed_by s pid"
    "\<And>pid pipe a. hm_get (pipes s) pid = Some pipe \<Longrightarrow> acceptor pipe = Sdk a \<Longrightarrow> hm_contains (sessions s) a"
    "\<And>pid pipe a. hm_get (pipes s) pid = Some pipe \<Longrightarrow> acceptor pipe = Sdk a \<Longrightarrow> phase pipe = Offered \<Longrightarrow>
        \<exists>b. bnds (local_registry s) (pipe_binding_id pipe) = Some b \<and> bnd_session_id b = a"
    "\<And>oi attempt. hm_get (remote_open_attempts s) oi = Some attempt \<Longrightarrow> dialed_by s (attempt_pipe_id attempt)"
    "binding_count_of (local_registry s) \<le> max_bindings (limits s)" "length (sessions s) \<le> max_sessions (limits s)"
  using assms by (auto simp: anchored_def simp del: not_None_eq)

text \<open>Fewer pipes and fewer attempts stay anchored.\<close>

lemma anchored_fewer:
  assumes "anchored env s" "same_rest s t"
    and "\<And>pid pipe. hm_get (pipes t) pid = Some pipe \<Longrightarrow>
      \<exists>e. hm_get (pipes s) pid = Some e \<and> dialer e = dialer pipe \<and> acceptor e = acceptor pipe \<and>
        pipe_binding_id e = pipe_binding_id pipe \<and> (phase pipe = Offered \<longrightarrow> phase e = Offered)"
    and "\<And>oi attempt. hm_get (remote_open_attempts t) oi = Some attempt \<Longrightarrow>
      \<exists>a. hm_get (remote_open_attempts s) oi = Some a \<and> attempt_pipe_id a = attempt_pipe_id attempt"
  shows "anchored env t"
proof -
  note A = anchoredD [OF assms(1)]
  have eq: "sessions t = sessions s" "local_registry t = local_registry s" "limits t = limits s"
    using assms(2) by (auto simp: same_rest_def)
  have d: "dialed_by t = dialed_by s" by (simp add: dialed_by_def eq fun_eq_iff)
  have "dialed_by s pid" if "hm_get (pipes t) pid = Some pipe" "dialer pipe = Sdk x" for pid pipe x
    using assms(3) [OF that(1)] that(2) A(4) [of pid _ x] by auto
  moreover have "hm_contains (sessions s) a \<and>
      (phase pipe = Offered \<longrightarrow> (\<exists>b. bnds (local_registry s) (pipe_binding_id pipe) = Some b \<and> bnd_session_id b = a))"
    if "hm_get (pipes t) pid = Some pipe" "acceptor pipe = Sdk a" for pid pipe a
    using assms(3) [OF that(1)] that(2) A(5,6) [of pid _ a] by fastforce
  moreover have "dialed_by s (attempt_pipe_id attempt)" if "hm_get (remote_open_attempts t) oi = Some attempt" for oi attempt
    using assms(4) [OF that] A(7) by fastforce
  ultimately show ?thesis unfolding anchored_def eq d using A(1-3,8,9) by blast
qed

end
