(* ===== verification/Gateway_Preserved.thy ===== *)
theory Gateway_Preserved
  imports Gateway_Invariant
begin

text \<open>
  Every operation of the gateway state core keeps its invariant. Most operations only shrink what the
  state holds: they remove pipes and attempts, or move one to a later phase. They are handled by
  \<open>settles\<close>, which composes; the operations that admit something new (\<open>offer_local_at\<close>, \<open>dial\<close>,
  \<open>receive_peer_open_at\<close>, \<open>peer_opened_at\<close>, \<open>route_resolved\<close>) and those that change sessions or bindings
  are treated one by one.
\<close>

definition shrinks :: "gateway_state \<Rightarrow> gateway_state \<Rightarrow> bool" where
  "shrinks s t \<longleftrightarrow> same_rest s t \<and>
     (\<forall>pid pipe. hm_get (pipes t) pid = Some pipe \<longrightarrow>
        (\<exists>e. hm_get (pipes s) pid = Some e \<and> dialer e = dialer pipe \<and> acceptor e = acceptor pipe \<and>
           pipe_binding_id e = pipe_binding_id pipe \<and> (phase pipe = Offered \<longrightarrow> phase e = Offered))) \<and>
     (\<forall>oi attempt. hm_get (remote_open_attempts t) oi = Some attempt \<longrightarrow>
        (\<exists>a. hm_get (remote_open_attempts s) oi = Some a \<and> attempt_pipe_id a = attempt_pipe_id attempt))"

definition settles :: "peer_env \<Rightarrow> gateway_state \<Rightarrow> gateway_state \<Rightarrow> bool" where
  "settles env s t \<longleftrightarrow> (core env s \<longrightarrow> core env t \<and> shrinks s t)"

named_theorems settling \<open>operations that only shrink the state\<close>

lemma shrinks_trans: "shrinks s t \<Longrightarrow> shrinks t u \<Longrightarrow> shrinks s u"
  unfolding shrinks_def by (elim conjE, intro conjI allI impI) (blast intro: same_rest_trans, fastforce, fastforce)

lemma settles_refl [simp]: "settles env s s"
  by (simp add: settles_def shrinks_def)

lemma settles_trans: "settles env s t \<Longrightarrow> settles env t u \<Longrightarrow> settles env s u"
  unfolding settles_def using shrinks_trans by blast

lemma settles_inv: "settles env s t \<Longrightarrow> gateway_inv env s \<Longrightarrow> gateway_inv env t"
  unfolding settles_def gateway_inv_def shrinks_def using anchored_fewer [of env s t] by blast

lemma settles_remove_pipe [settling]: "remove_pipe pid s = (r, t) \<Longrightarrow> settles env s t"
  using core_remove_pipe remove_pipe_frame [of pid s r t]
  by (auto simp: settles_def shrinks_def table_simps split: if_splits)

lemma settles_remove_pipe_snd [settling]: "settles env s (snd (remove_pipe pid s))"
  by (cases "remove_pipe pid s") (auto intro: settles_remove_pipe)

lemma settles_take_remote_attempt [settling]: "take_remote_attempt oi s = (r, t) \<Longrightarrow> settles env s t"
  using core_take_remote_attempt take_remote_attempt_frame [of oi s r t]
  by (auto simp: settles_def shrinks_def table_simps split: if_splits)

lemma settles_promote_offer [settling]:
  "promote_offer pid s = (r, t) \<Longrightarrow> live_pipe_count s < max_live_pipes (limits s) \<Longrightarrow> settles env s t"
  using core_promote_offer promote_offer_frame [of pid s r t]
  by (auto simp: settles_def shrinks_def table_simps split: option.splits if_splits)

lemma settles_finish [settling]:
  assumes "hm_get (pipes s) pid = Some pipe" "dialer pipe' = dialer pipe" "acceptor pipe' = acceptor pipe"
    "pipe_open_identity pipe' = pipe_open_identity pipe" "phase pipe' = phase pipe" "pipe_binding_id pipe' = pipe_binding_id pipe"
    "\<And>g. pipe_ok env g pid pipe \<Longrightarrow> pipe_ok env g pid pipe'"
  shows "settles env s (s\<lparr>pipes := hm_insert pid pipe' (pipes s)\<rparr>)"
  using assms core_finish [of env s pid pipe pipe'] coreD(3) [of env s pid pipe]
  by (auto simp: settles_def shrinks_def same_rest_def table_simps split: if_splits)

section \<open>Relaying\<close>

lemma settles_protocol_reset [settling]: "settles env s (snd (protocol_reset pid m s))"
  by (auto simp: protocol_reset_def intro: settling split: prod.splits option.splits)

lemma settles_relay_data [settling]: "settles env s (snd (relay_data e pid bs s))"
  by (auto simp: relay_data_def intro: settling split: option.splits)

lemma settles_relay_close [settling]: "settles env s (snd (relay_close e pid s))"
  by (auto simp: relay_close_def Let_def intro: settling split: option.splits)

lemma settles_relay_reset [settling]: "settles env s (snd (relay_reset e pid c m s))"
  by (auto simp: relay_reset_def Let_def intro: settling split: option.splits)

lemma remove_updated_pipe:
  assumes "hm_get (pipes s) pid = Some pipe" "dialer pipe' = dialer pipe" "acceptor pipe' = acceptor pipe"
    "pipe_open_identity pipe' = pipe_open_identity pipe" "phase pipe' = phase pipe"
  shows "snd (remove_pipe pid (s\<lparr>pipes := hm_insert pid pipe' (pipes s)\<rparr>)) = snd (remove_pipe pid s)"
proof -
  have "pipe_peer_key pipe' = pipe_peer_key pipe" "originated pipe' = originated pipe"
    using assms by (simp_all add: pipe_peer_key_def originated_def)
  then show ?thesis
    using assms by (simp add: remove_pipe_def Let_def table_simps delete_update_same split: option.split pipe_phase.split)
qed

lemma settles_relay_fin [settling]: "settles env s (snd (relay_fin e pid s))"
proof (cases "hm_get (pipes s) pid")
  case None
  then show ?thesis by (simp add: relay_fin_def)
next
  case (Some pipe)
  let ?p = "if dialer pipe = e then pipe\<lparr>dialer_finished := True\<rparr> else pipe\<lparr>acceptor_finished := True\<rparr>"
  have "settles env s (s\<lparr>pipes := hm_insert pid ?p (pipes s)\<rparr>)"
    if "phase pipe = Opened" "\<not> (if dialer pipe = e then acceptor_finished pipe else dialer_finished pipe)"
    using that by (intro settles_finish [OF Some]) (auto simp: pipe_ok_def split: pipe_endpoint.splits)
  moreover have "snd (remove_pipe pid (s\<lparr>pipes := hm_insert pid ?p (pipes s)\<rparr>)) = snd (remove_pipe pid s)"
    by (rule remove_updated_pipe [OF Some]) simp_all
  moreover note settles_remove_pipe_snd [of env s pid]
  ultimately show ?thesis
    using Some settles_protocol_reset [of env s pid] by (auto simp: relay_fin_def Let_def split: option.splits pipe_phase.splits)
qed

lemma settles_peer_relay [settling]:
  "settles env s (snd (peer_data k bs s))" "settles env s (snd (peer_fin k s))" "settles env s (snd (peer_close k s))"
  by (auto simp: peer_data_def peer_fin_def peer_close_def intro: settling split: option.splits)

lemma settles_peer_reset [settling]: "settles env s (snd (peer_reset k c m s))"
  by (auto simp: peer_reset_def intro: settling split: option.splits prod.splits)

lemma ok_actions_snd [simp]: "snd (ok_actions r) = snd r"
  by (simp add: ok_actions_def)

lemma settles_pipe_frames [settling]:
  "settles env s (snd (pipe_data session pid bs s))" "settles env s (snd (pipe_fin session pid s))"
  "settles env s (snd (pipe_close session pid s))" "settles env s (snd (pipe_reset session pid c m s))"
  by (auto simp: pipe_data_def pipe_fin_def pipe_close_def pipe_reset_def intro: settling split: sum.splits)

section \<open>Answers to an offer, cancellation, expiry\<close>

lemma settles_offer_accepted [settling]: "settles env s (snd (offer_accepted session pid s))"
  by (auto simp: offer_accepted_def Let_def not_le intro: settling split: option.splits sum.splits prod.splits)

lemma settles_offer_rejected [settling]: "settles env s (snd (offer_rejected session pid c m s))"
  by (auto simp: offer_rejected_def intro: settling split: option.splits sum.splits prod.splits)

lemma settles_offer_delivery_rejected [settling]: "settles env s (snd (offer_delivery_rejected session pid s))"
  by (auto simp: offer_delivery_rejected_def intro: settling split: option.splits prod.splits)

lemma settles_cancel_remote_attempt [settling]: "settles env s (snd (cancel_remote_attempt session pid s))"
  by (auto simp: cancel_remote_attempt_def Let_def intro: settling split: option.splits prod.splits)

lemma settles_cancel_pipe [settling]: "settles env s (snd (cancel_pipe session pid s))"
  by (auto simp: cancel_pipe_def intro: settling split: option.splits prod.splits)

lemma settles_fail_offers [settling]: "settles env s (snd (fail_offers c ob m pids s))"
  by (induction c ob m pids s rule: fail_offers.induct)
    (auto simp: Let_def split: option.splits prod.splits intro: settles_trans settles_remove_pipe)

lemma settles_cancel_pending_binding [settling]: "settles env s (snd (cancel_pending_binding b s))"
  by (simp add: cancel_pending_binding_def settles_fail_offers)

lemma settles_expire_pipes [settling]: "settles env s (snd (snd (expire_pipes pids s)))"
  by (induction pids s rule: expire_pipes.induct)
    (auto simp: Let_def split: option.splits prod.splits intro: settles_trans settles_remove_pipe)

lemma settles_drop_attempts [settling]: "settles env s (snd (drop_attempts ois s))"
  by (induction ois s rule: drop_attempts.induct)
    (auto simp: Let_def split: option.splits prod.splits intro: settles_trans settles_take_remote_attempt)

lemma settles_reset_owned [settling]: "settles env s (snd (reset_owned session pids s))"
  by (induction session pids s rule: reset_owned.induct)
    (auto simp: Let_def split: option.splits prod.splits intro: settles_trans settles_remove_pipe)

section \<open>Remote opens that end or move on\<close>

lemma settles_fail_remote_attempt [settling]: "settles env s (snd (fail_remote_attempt oi c ob m s))"
  by (auto simp: fail_remote_attempt_def intro: settling split: prod.splits option.splits)

lemma settles_route_failed [settling]: "settles env s (snd (route_failed oi c m s))"
  by (auto simp: route_failed_def sdk_dependency_failure_def intro: settling split: option.splits prod.splits attempt_match.splits)

lemma settles_peer_open_commit_failed [settling]: "settles env s (snd (peer_open_commit_failed oi c ob m s))"
  by (auto simp: peer_open_commit_failed_def sdk_dependency_failure_def intro: settling
      split: option.splits prod.splits attempt_match.splits)

lemma settles_peer_open_failed [settling]: "settles env s (snd (peer_open_failed k oi c ob m s))"
  by (auto simp: peer_open_failed_def sdk_dependency_failure_def intro: settling split: prod.splits)

lemma settles_peer_transport_lost_stream [settling]: "settles env s (snd (peer_transport_lost_stream k oi ob s))"
  by (auto simp: peer_transport_lost_stream_def intro: settling split: option.splits prod.splits)

lemma settles_attempt_phase:
  assumes at: "hm_get (remote_open_attempts s) oi = Some attempt" and ph: "attempt_pipe_id attempt' = attempt_pipe_id attempt"
      "\<And>k b. attempt_phase attempt' = AwaitingPeer k b \<Longrightarrow> carries env k = oi"
    and act: "hm_ok (active_peer_opens s) \<Longrightarrow> hm_ok ap"
      "core env s \<Longrightarrow> hm_get ap = (hm_get (active_peer_opens s))(oi := attempt_key attempt')"
  shows "settles env s (s\<lparr>remote_open_attempts := hm_insert oi attempt' (remote_open_attempts s), active_peer_opens := ap\<rparr>)"
  unfolding settles_def
proof (intro impI conjI)
  assume core: "core env s"
  have "gateway_id_of s = Some (entry_gateway oi)" "attempt_pipe_id attempt = pid_of oi" "hm_get (pipes s) (pid_of oi) = None"
    using coreD(6) [OF core] at by (auto simp: attempts_ok_def)
  moreover have "hm_ok (active_peer_opens s)" using coreD(1) [OF core] by (simp add: tables_ok_def)
  ultimately show "core env (s\<lparr>remote_open_attempts := hm_insert oi attempt' (remote_open_attempts s), active_peer_opens := ap\<rparr>)"
    using at ph act core by (intro core_put_attempt) auto
qed (use at ph in \<open>auto simp: shrinks_def same_rest_def table_simps\<close>)

lemma active_key:
  assumes "core env s" "hm_get (remote_open_attempts s) oi = Some attempt"
  shows "hm_get (active_peer_opens s) oi = attempt_key attempt"
proof -
  have "hm_get (pipes s) (pid_of oi) = None" using coreD(6) [OF assms(1)] assms(2) by (auto simp: attempts_ok_def)
  then show ?thesis
    unfolding coreD(5) [OF assms(1)] using assms(2) by (simp add: active_spec_def attempt_key_def)
qed

lemma settles_start_peer:
  assumes at: "hm_get (remote_open_attempts s) oi = Some attempt" and "attempt_phase attempt = Resolving"
  shows "settles env s (s\<lparr>remote_open_attempts := hm_insert oi (attempt\<lparr>attempt_phase := StartingPeer b\<rparr>) (remote_open_attempts s)\<rparr>)"
  using settles_attempt_phase [OF at, of "attempt\<lparr>attempt_phase := StartingPeer b\<rparr>" env "active_peer_opens s"]
    active_key [OF _ at, of env] assms(2) by (simp add: attempt_key_def fun_upd_idem)

lemma settles_peer_open_committed:
  assumes "carries env k = oi"
  shows "settles env s (snd (peer_open_committed oi k s))"
proof (cases "hm_get (remote_open_attempts s) oi")
  case None
  then show ?thesis by (simp add: peer_open_committed_def match_attempt_def Let_def)
next
  case (Some attempt)
  have swap: "s\<lparr>active_peer_opens := A, remote_open_attempts := B\<rparr> = s\<lparr>remote_open_attempts := B, active_peer_opens := A\<rparr>" for A B
    by simp
  have "settles env s (s\<lparr>active_peer_opens := hm_insert oi k (active_peer_opens s),
      remote_open_attempts := hm_insert oi (attempt\<lparr>attempt_phase := AwaitingPeer k b\<rparr>) (remote_open_attempts s)\<rparr>)" for b
    unfolding swap using assms
    by (intro settles_attempt_phase [OF Some]) (simp_all add: hm_ok_insert hm_get_insert_fun attempt_key_def)
  then show ?thesis using Some
    by (auto simp: peer_open_committed_def match_attempt_def Let_def split: remote_open_phase.splits)
qed

section \<open>Admitting a pipe\<close>

lemma anchored_add_pipe:
  assumes "anchored env s" and t: "pipes t = hm_insert pid pipe (pipes s)" "same_rest s t" "remote_open_attempts t = remote_open_attempts s"
    and "\<And>d. dialer pipe = Sdk d \<Longrightarrow> dialed_by s pid"
    and "\<And>a. acceptor pipe = Sdk a \<Longrightarrow> hm_contains (sessions s) a \<and>
      (phase pipe = Offered \<longrightarrow> (\<exists>b. bnds (local_registry s) (pipe_binding_id pipe) = Some b \<and> bnd_session_id b = a))"
  shows "anchored env t"
proof -
  note A = anchoredD [OF assms(1)]
  have eq: "sessions t = sessions s" "local_registry t = local_registry s" "limits t = limits s"
    using t(2) by (auto simp: same_rest_def)
  have d: "dialed_by t = dialed_by s" by (simp add: dialed_by_def eq fun_eq_iff)
  have "dialed_by s q" if "hm_get (pipes t) q = Some e" "dialer e = Sdk x" for q e x
    using that assms(5) A(4) by (auto simp: t(1) table_simps split: if_splits)
  moreover have "hm_contains (sessions s) a \<and>
      (phase e = Offered \<longrightarrow> (\<exists>b. bnds (local_registry s) (pipe_binding_id e) = Some b \<and> bnd_session_id b = a))"
    if "hm_get (pipes t) q = Some e" "acceptor e = Sdk a" for q e a
    using that assms(6) [of a] A(5,6) [of q e a] by (auto simp: t(1) table_simps split: if_splits)
  ultimately show ?thesis unfolding anchored_def eq d t(3) using A(1-3,7-9) by blast
qed

lemma insert_offer_frame:
  "pipes (insert_offer pid pipe s) = hm_insert pid pipe (pipes s) \<and> same_rest s (insert_offer pid pipe s) \<and>
   remote_open_attempts (insert_offer pid pipe s) = remote_open_attempts s"
  using index_peer_pipe_frame [of s pid pipe] by (simp add: insert_offer_def Let_def same_rest_def)

lemma insert_open_frame:
  "pipes (insert_open pid pipe s) = hm_insert pid pipe (pipes s) \<and> same_rest s (insert_open pid pipe s) \<and>
   remote_open_attempts (insert_open pid pipe s) = remote_open_attempts s"
  using index_peer_pipe_frame [of s pid pipe] by (simp add: insert_open_def Let_def same_rest_def)

definition unused :: "gateway_state \<Rightarrow> pipe_id \<Rightarrow> bool" where
  "unused s pid \<longleftrightarrow> hm_get (pipes s) pid = None \<and> (\<forall>oi. pid_of oi = pid \<longrightarrow> hm_get (remote_open_attempts s) oi = None)"

lemma offer_local_inv:
  assumes inv: "gateway_inv env s" and "unused s pid" "dialed_by s pid"
    and b: "bnds (local_registry s) (bnd_id b) = Some b" "bnd_session_id b \<noteq> origin_session_id pid"
    and "pending_offer_count s + length (remote_open_attempts s) < max_pending_offers (limits s)"
  shows "gateway_inv env (snd (offer_local_at pid b now started s))"
proof -
  have core: "core env s" and anch: "anchored env s" using inv by (auto simp: gateway_inv_def)
  have live: "hm_contains (sessions s) (bnd_session_id b)" using anchoredD(3) [OF anch b(1)] .
  let ?p = "\<lparr>dialer = Sdk (origin_session_id pid), acceptor = Sdk (bnd_session_id b), pipe_binding_id = bnd_id b,
    pipe_open_identity = None, phase = Offered, offered_at = now, open_started_at = started,
    dialer_finished = False, acceptor_finished = False\<rparr>"
  have s: "snd (offer_local_at pid b now started s) = insert_offer pid ?p s"
    using live by (simp add: offer_local_at_def Let_def)
  have "admissible env s pid ?p"
    using assms(2) b(2) by (auto simp: admissible_def unused_def pipe_ok_def pipe_peer_key_def)
  then have "core env (insert_offer pid ?p s)" using assms(6) by (intro core_insert_offer [OF core]) simp_all
  moreover have "anchored env (insert_offer pid ?p s)"
    using live assms(3) b(1) insert_offer_frame [of pid ?p s] by (intro anchored_add_pipe [OF anch]) auto
  ultimately show ?thesis by (simp add: s gateway_inv_def)
qed

end
