(* ===== verification/Gateway_Admission.thy ===== *)
theory Gateway_Admission
  imports Gateway_Preserved
begin

text \<open>
  The operations that admit something new keep the invariant of the gateway state core: DIAL, peer
  OPEN in both directions, route resolution, publication, sessions and their removal.
\<close>

section \<open>Registry changes\<close>

lemma core_registry [simp]: "core env (s\<lparr>local_registry := r\<rparr>) = core env s"
  by (simp add: core_def tables_ok_def counters_ok_def peer_index_ok_def attempts_ok_def limits_ok_def)

lemma anchored_registry:
  assumes "anchored env s" "registry_ok r" "binding_count_of r \<le> max_bindings (limits s)"
    and "\<And>i b. bnds r i = Some b \<Longrightarrow> hm_contains (sessions s) (bnd_session_id b)"
    and "\<And>pid pipe a. hm_get (pipes s) pid = Some pipe \<Longrightarrow> acceptor pipe = Sdk a \<Longrightarrow> phase pipe = Offered \<Longrightarrow>
      \<exists>b. bnds r (pipe_binding_id pipe) = Some b \<and> bnd_session_id b = a"
  shows "anchored env (s\<lparr>local_registry := r\<rparr>)"
proof -
  note A = anchoredD [OF assms(1)]
  have d: "dialed_by (s\<lparr>local_registry := r\<rparr>) = dialed_by s" by (simp add: dialed_by_def fun_eq_iff)
  show ?thesis unfolding anchored_def d using A(2,4,5,7,9) assms(2-5) by simp
qed

lemma inv_same_bindings:
  assumes "gateway_inv env s" "registry_ok r" "by_id r = by_id (local_registry s)"
  shows "gateway_inv env (s\<lparr>local_registry := r\<rparr>)"
proof -
  have anch: "anchored env s" using assms(1) by (simp add: gateway_inv_def)
  have "anchored env (s\<lparr>local_registry := r\<rparr>)"
    using anchoredD [OF anch] assms(2,3)
    by (intro anchored_registry [OF anch]) (simp_all add: binding_count_of_def)
  then show ?thesis using assms(1) by (simp add: gateway_inv_def)
qed

section \<open>DIAL\<close>

lemma unused_registry [simp]: "unused (s\<lparr>local_registry := r\<rparr>) pid = unused s pid"
  by (simp add: unused_def)

lemma dialed_by_registry [simp]: "dialed_by (s\<lparr>local_registry := r\<rparr>) pid = dialed_by s pid"
  by (simp add: dialed_by_def)

lemma inv_insert_attempt:
  assumes inv: "gateway_inv env s" and "unused s (pid_of oi)" "dialed_by s (pid_of oi)"
    and "gateway_id_of s = Some (entry_gateway oi)" "attempt_pipe_id attempt = pid_of oi" "attempt_phase attempt = Resolving"
    and "pending_offer_count s + length (remote_open_attempts s) < max_pending_offers (limits s)"
      "length (remote_open_attempts s) < max_remote_dial_attempts (limits s)"
  shows "gateway_inv env (s\<lparr>remote_open_attempts := hm_insert oi attempt (remote_open_attempts s)\<rparr>)" (is "gateway_inv env ?t")
proof -
  have core: "core env s" and anch: "anchored env s" using inv by (auto simp: gateway_inv_def)
  note A = anchoredD [OF anch]
  have "hm_get (active_peer_opens s) oi = None"
    unfolding coreD(5) [OF core] using assms(2) by (simp add: active_spec_def unused_def)
  then have "core env (s\<lparr>remote_open_attempts := hm_insert oi attempt (remote_open_attempts s), active_peer_opens := active_peer_opens s\<rparr>)"
    using assms coreD(1) [OF core]
    by (intro core_put_attempt [OF core]) (simp_all add: unused_def attempt_key_def tables_ok_def fun_upd_idem)
  moreover have "anchored env ?t"
  proof -
    have d: "dialed_by ?t = dialed_by s" by (simp add: dialed_by_def fun_eq_iff)
    have "dialed_by s (attempt_pipe_id a)" if "hm_get (remote_open_attempts ?t) i = Some a" for i a
      using that A(7) assms(3,5) by (auto simp: table_simps split: if_splits)
    then show ?thesis unfolding anchored_def d using A(1-6,8,9) by simp
  qed
  ultimately show ?thesis by (simp add: gateway_inv_def)
qed

lemma pid_of_new [simp]: "pid_of (open_identity_new g s c) = pipe_id_new s c"
  by (simp add: pid_of_def open_identity_new_def)

lemma pipe_id_new_sel [simp]: "origin_session_id (pipe_id_new s c) = s" "pipe_connection_id (pipe_id_new s c) = c"
  by (simp_all add: pipe_id_new_def)

lemma entry_gateway_new [simp]: "entry_gateway (open_identity_new g s c) = g"
  by (simp add: open_identity_new_def)

lemma dial_inv:
  assumes inv: "gateway_inv env s" and fresh: "unused s (pipe_id_new session c)" and own: "dialed_by s (pipe_id_new session c)"
  shows "gateway_inv env (snd (dial session c d now started s))"
proof (cases "hm_contains (sessions s) session \<and> \<not> draining s \<and> live_pipe_count s < max_live_pipes (limits s) \<and>
    \<not> pending_capacity_reached s")
  case False
  then have "snd (dial session c d now started s) = s"
    by (auto simp: dial_def Let_def not_less simp del: not_None_eq)
  then show ?thesis using inv by simp
next
  case True
  obtain sel r where sel: "select_excluding d session (local_registry s) = (sel, r)" by fastforce
  have reg: "registry_ok (local_registry s)" using inv anchoredD(1) by (auto simp: gateway_inv_def)
  note S = select_excluding_ok [OF reg sel]
  let ?s = "s\<lparr>local_registry := r\<rparr>"
  have inv1: "gateway_inv env ?s" using inv_same_bindings [OF inv] S by simp
  have pend: "pending_offer_count s + length (remote_open_attempts s) < max_pending_offers (limits s)"
    using True by (simp add: pending_capacity_reached_def)
  show ?thesis
  proof (cases sel)
    case (Some b)
    have "gateway_inv env (snd (offer_local_at (pipe_id_new session c) b now (Some started) ?s))"
      using inv1 fresh own S Some pend by (intro offer_local_inv) simp_all
    then show ?thesis using True sel Some by (simp add: dial_def Let_def)
  next
    case None
    show ?thesis
    proof (cases "gateway_id_of s = None \<or> length (remote_open_attempts s) \<ge> max_remote_dial_attempts (limits s)")
      case True': True
      then have "snd (dial session c d now started s) = ?s"
        using True sel None by (auto simp: dial_def Let_def split: option.split)
      then show ?thesis using inv1 by simp
    next
      case False
      then obtain g where g: "gateway_id_of s = Some g" by auto
      have "gateway_inv env (?s\<lparr>remote_open_attempts := hm_insert (open_identity_new g session c)
          \<lparr>attempt_pipe_id = pipe_id_new session c, attempt_destination = d, attempt_started_at = started, attempt_phase = Resolving\<rparr>
          (remote_open_attempts ?s)\<rparr>)"
        using inv1 fresh own g pend False by (intro inv_insert_attempt) simp_all
      then show ?thesis using True False g sel None by (simp add: dial_def Let_def)
    qed
  qed
qed

section \<open>Peer OPEN\<close>

lemma exact_SomeD:
  assumes "registry_ok r" "exact session i d r = Some b"
  shows "bnds r (bnd_id b) = Some b \<and> bnd_session_id b = session \<and> bnd_destination b = d \<and> bnd_id b = i"
  using assms(2) registry_okD(2) [OF assms(1)] by (auto simp: exact_def split: option.splits if_splits)

lemma receive_peer_open_inv:
  assumes inv: "gateway_inv env s" and "carries env k = oi" "\<not> local_session env (origin_session oi)"
  shows "gateway_inv env (snd (receive_peer_open_at k oi d relay_session b now s))"
proof -
  have core: "core env s" and anch: "anchored env s" using inv by (auto simp: gateway_inv_def)
  note A = anchoredD [OF anch]
  let ?pid = "pipe_id_new (origin_session oi) (open_connection_id oi)"
  let ?p = "\<lambda>b. \<lparr>dialer = Peer k, acceptor = Sdk relay_session, pipe_binding_id = bnd_id b, pipe_open_identity = Some oi,
    phase = Offered, offered_at = now, open_started_at = None, dialer_finished = False, acceptor_finished = False\<rparr>"
  have pid: "pid_of oi = ?pid" by (simp add: pid_of_def)
  have new: "gateway_inv env (insert_offer ?pid (?p bnd) s)"
    if "entry_gateway oi = peer_gateway_id k" "hm_get (peer_pipes s) k = None" "\<not> pending_capacity_reached s"
      "hm_get (pipes s) ?pid = None" "hm_contains (sessions s) relay_session"
      "exact relay_session b d (local_registry s) = Some bnd" for bnd
  proof -
    have "hm_get (remote_open_attempts s) oi' = None" if same: "pid_of oi' = ?pid" for oi'
    proof (rule ccontr)
      assume "hm_get (remote_open_attempts s) oi' \<noteq> None"
      then obtain a where a: "hm_get (remote_open_attempts s) oi' = Some a" by auto
      have "attempt_pipe_id a = ?pid" using coreD(6) [OF core] a same by (auto simp: attempts_ok_def)
      then have "dialed_by s ?pid" using A(7) [OF a] by simp
      then have "hm_contains (sessions s) (origin_session oi)" by (auto simp: dialed_by_def)
      then show False using A(2) assms(3) by blast
    qed
    then have "admissible env s ?pid (?p bnd)"
      using that assms(2,3) pid by (simp add: admissible_def pipe_ok_def pipe_peer_key_def)
    then have "core env (insert_offer ?pid (?p bnd) s)"
      using that by (intro core_insert_offer [OF core]) (simp_all add: pending_capacity_reached_def)
    moreover have "anchored env (insert_offer ?pid (?p bnd) s)"
      using that exact_SomeD [OF A(1) that(6)] insert_offer_frame [of ?pid "?p bnd" s] by (intro anchored_add_pipe [OF anch]) auto
    ultimately show ?thesis by (simp add: gateway_inv_def)
  qed
  show ?thesis
    using inv new unfolding receive_peer_open_at_def Let_def by (auto split: option.splits if_splits simp del: not_None_eq)
qed

lemma open_identity_inject: "pid_of oi = pid_of oi' \<Longrightarrow> entry_gateway oi = entry_gateway oi' \<Longrightarrow> oi = oi'"
  by (simp add: pid_of_def pipe_id_new_def)

lemma unused_after_take:
  assumes core: "core env s" and at: "hm_get (remote_open_attempts s) oi = Some attempt"
    and tk: "take_remote_attempt oi s = (r, t)"
  shows "unused t (pid_of oi)"
proof -
  note F = take_remote_attempt_frame [OF tk]
  have A: "\<And>oi a. hm_get (remote_open_attempts s) oi = Some a \<Longrightarrow> gateway_id_of s = Some (entry_gateway oi) \<and> hm_get (pipes s) (pid_of oi) = None"
    using coreD(6) [OF core] by (auto simp: attempts_ok_def)
  have "hm_get (remote_open_attempts t) oi' = None" if "pid_of oi' = pid_of oi" for oi'
  proof (cases "hm_get (remote_open_attempts s) oi'")
    case None
    then show ?thesis using F by (simp add: table_simps)
  next
    case (Some a)
    then have "oi' = oi" using A [OF Some] A [OF at] that by (intro open_identity_inject) auto
    then show ?thesis using F by (simp add: table_simps)
  qed
  then show ?thesis using F A [OF at] by (simp add: unused_def)
qed

lemma attempt_facts:
  assumes "gateway_inv env s" "hm_get (remote_open_attempts s) oi = Some attempt" "take_remote_attempt oi s = (r, t)"
  shows "attempt_pipe_id attempt = pid_of oi" "gateway_id_of s = Some (entry_gateway oi)" "r = Some attempt"
    "gateway_inv env t" "unused t (pid_of oi)" "dialed_by t (pid_of oi)"
    "pending_offer_count t + length (remote_open_attempts t) < max_pending_offers (limits t)"
proof -
  have core: "core env s" and anch: "anchored env s" using assms(1) by (auto simp: gateway_inv_def)
  note F = take_remote_attempt_frame [OF assms(3)]
  show p: "attempt_pipe_id attempt = pid_of oi" "gateway_id_of s = Some (entry_gateway oi)"
    using coreD(6) [OF core] assms(2) by (auto simp: attempts_ok_def)
  show r: "r = Some attempt" using F assms(2) by simp
  show "gateway_inv env t" using settles_inv settles_take_remote_attempt assms by blast
  show "unused t (pid_of oi)" using unused_after_take [OF core assms(2,3)] .
  show "dialed_by t (pid_of oi)" using anchoredD(7) [OF anch assms(2)] F p by (simp add: dialed_by_def same_rest_def)
  show "pending_offer_count t + length (remote_open_attempts t) < max_pending_offers (limits t)"
    using core_take_remote_attempt [OF core assms(3)] r by simp
qed

lemma peer_opened_inv:
  assumes inv: "gateway_inv env s" and carries: "carries env k = oi"
  shows "gateway_inv env (snd (peer_opened_at k oi now s))"
proof (cases "hm_get (remote_open_attempts s) oi")
  case None
  then show ?thesis using inv by (simp add: peer_opened_at_def match_attempt_def)
next
  case (Some attempt)
  obtain r t where tk: "take_remote_attempt oi s = (r, t)" by fastforce
  note T = attempt_facts [OF inv Some tk]
  have core: "core env t" and anch: "anchored env t" using T(4) by (auto simp: gateway_inv_def)
  let ?p = "\<lambda>b. \<lparr>dialer = Sdk (origin_session_id (pid_of oi)), acceptor = Peer k, pipe_binding_id = b, pipe_open_identity = Some oi,
    phase = Opened, offered_at = now, open_started_at = None, dialer_finished = False, acceptor_finished = False\<rparr>"
  have new: "gateway_inv env (insert_open (pid_of oi) (?p b) t)" if "live_pipe_count t < max_live_pipes (limits t)" for b
  proof -
    have "hm_get (peer_pipes t) k = None"
    proof (rule ccontr)
      assume "hm_get (peer_pipes t) k \<noteq> None"
      then obtain q e where q: "hm_get (pipes t) q = Some e" "pipe_peer_key e = Some k"
        using coreD(4) [OF core] by (auto simp: peer_index_ok_def)
      then have "q = pid_of oi" using pipe_ok_identity(1) [OF coreD(3) [OF core q(1)]] carries by auto
      then show False using T(5) q by (simp add: unused_def)
    qed
    moreover have "gateway_id_of t = Some (entry_gateway oi)"
      using T(2) take_remote_attempt_frame [OF tk] by (simp add: same_rest_def)
    ultimately have "admissible env t (pid_of oi) (?p b)"
      using T(5) carries by (simp add: admissible_def unused_def pipe_ok_def pipe_peer_key_def)
    then have "core env (insert_open (pid_of oi) (?p b) t)" using that by (intro core_insert_open [OF core]) simp_all
    moreover have "anchored env (insert_open (pid_of oi) (?p b) t)"
      using T(6) insert_open_frame [of "pid_of oi" "?p b" t] by (intro anchored_add_pipe [OF anch]) auto
    ultimately show ?thesis by (simp add: gateway_inv_def)
  qed
  show ?thesis
    using inv new T(1,3,4) Some tk
    by (auto simp: peer_opened_at_def match_attempt_def Let_def not_le split: remote_open_phase.splits)
qed

lemma route_resolved_inv:
  assumes inv: "gateway_inv env s"
  shows "gateway_inv env (snd (route_resolved oi bindings now s))"
proof (cases "\<exists>attempt. hm_get (remote_open_attempts s) oi = Some attempt \<and> attempt_phase attempt = Resolving")
  case False
  then show ?thesis using inv by (auto simp: route_resolved_def split: option.split)
next
  case True
  then obtain attempt where at: "hm_get (remote_open_attempts s) oi = Some attempt" "attempt_phase attempt = Resolving" by blast
  obtain r t where tk: "take_remote_attempt oi s = (r, t)" by fastforce
  note T = attempt_facts [OF inv at(1) tk]
  have reg: "registry_ok (local_registry t)" using T(4) anchoredD(1) by (auto simp: gateway_inv_def)
  have local: "gateway_inv env (snd (offer_local_at (pid_of oi) b now started t))"
    if "exact i j d (local_registry t) = Some b" "i \<noteq> origin_session_id (pid_of oi)" for i j d b started
    using T exact_SomeD [OF reg that(1)] that(2) by (intro offer_local_inv) auto
  note settled = settles_inv [OF _ inv]
  have fail: "gateway_inv env (snd (fail_remote_attempt oi c ob m s))" for c ob m
    by (rule settled) (rule settling)
  have start: "gateway_inv env (s\<lparr>remote_open_attempts := hm_insert oi (attempt\<lparr>attempt_phase := StartingPeer b\<rparr>) (remote_open_attempts s)\<rparr>)" for b
    by (rule settled) (rule settles_start_peer [OF at])
  show ?thesis
    using at fail start local T(1,4) tk unfolding route_resolved_def
    by (auto simp: Let_def find_Some_iff split: option.split)
qed

section \<open>Publication\<close>

lemma publish_cases:
  assumes "publish draws session request_id d s = Some (acts, t)"
  shows "t = s \<or> (\<exists>reg r. registry_register draws session d (local_registry s) = Some (reg, r) \<and> t = s\<lparr>local_registry := r\<rparr> \<and>
    (contains_session_destination session d (local_registry s) \<or> binding_count_of (local_registry s) < max_bindings (limits s)))"
proof (cases "draining s \<or> (binding_count_of (local_registry s) \<ge> max_bindings (limits s) \<and>
    \<not> contains_session_destination session d (local_registry s))")
  case True
  then show ?thesis using assms by (auto simp: publish_def split: if_splits)
next
  case False
  then obtain reg r where reg: "registry_register draws session d (local_registry s) = Some (reg, r)"
    using assms by (cases "registry_register draws session d (local_registry s)") (auto simp: publish_def)
  then have "t = s\<lparr>local_registry := r\<rparr>"
    using assms False by (cases reg) (auto simp: publish_def Let_def)
  then show ?thesis using reg False by auto
qed

lemma publish_inv:
  assumes inv: "gateway_inv env s" and live: "hm_contains (sessions s) session"
    and pub: "publish draws session request_id d s = Some (acts, t)"
  shows "gateway_inv env t"
proof -
  have anch: "anchored env s" and core: "core env s" using inv by (auto simp: gateway_inv_def)
  note A = anchoredD [OF anch]
  consider "t = s" | reg r where "registry_register draws session d (local_registry s) = Some (reg, r)"
      "t = s\<lparr>local_registry := r\<rparr>"
      "contains_session_destination session d (local_registry s) \<or> binding_count_of (local_registry s) < max_bindings (limits s)"
    using publish_cases [OF pub] by blast
  then show ?thesis
  proof cases
    case (2 reg r)
    note R = registry_register_ok [OF A(1) 2(1)]
    show ?thesis
    proof (cases reg)
      case (Existing b)
      then show ?thesis using R 2(2) inv by simp
    next
      case (Created b)
      then have r: "registry_ok r" "bnd_session_id b = session" "bnds (local_registry s) (bnd_id b) = None"
        "by_id r = hm_insert (bnd_id b) b (by_id (local_registry s))" "\<not> contains_session_destination session d (local_registry s)"
        using R by simp_all
      have upd: "bnds r i = (if i = bnd_id b then Some b else bnds (local_registry s) i)" for i
        by (simp add: r(4) table_simps)
      have "binding_count_of r \<le> max_bindings (limits s)"
        using r(3,4,5) 2(3) by (simp add: binding_count_of_def length_hm_insert)
      moreover have "hm_contains (sessions s) (bnd_session_id c)" if "bnds r i = Some c" for i c
        using that A(3) [of i c] live r(2) by (cases "i = bnd_id b") (simp_all add: upd)
      moreover have "\<exists>c. bnds r (pipe_binding_id e) = Some c \<and> bnd_session_id c = a"
        if e: "hm_get (pipes s) p = Some e" "acceptor e = Sdk a" "phase e = Offered" for p e a
      proof -
        obtain c where c: "bnds (local_registry s) (pipe_binding_id e) = Some c" "bnd_session_id c = a" using A(6) [OF e] by blast
        then have "pipe_binding_id e \<noteq> bnd_id b" using r(3) by (metis option.distinct(1))
        then show ?thesis using c by (simp add: upd)
      qed
      ultimately have "anchored env (s\<lparr>local_registry := r\<rparr>)" by (rule anchored_registry [OF anch r(1)])
      then show ?thesis using core 2(2) by (simp add: gateway_inv_def)
    qed
  qed (use inv in simp)
qed

text \<open>The loops over pipes differ in what they send, not in what they do to the state.\<close>

definition forget_pipes :: "pipe_id list \<Rightarrow> gateway_state \<Rightarrow> gateway_state" where
  "forget_pipes pids s = fold (\<lambda>pid s. snd (remove_pipe pid s)) pids s"

lemma forget_pipes_simps [simp]:
  "forget_pipes [] s = s" "forget_pipes (pid # pids) s = forget_pipes pids (snd (remove_pipe pid s))"
  by (simp_all add: forget_pipes_def)

lemma loop_states:
  "snd (fail_offers c ob m pids s) = forget_pipes pids s"
  "snd (snd (expire_pipes pids s)) = forget_pipes pids s"
  "snd (reset_owned session pids s) = forget_pipes pids s"
  by (induction pids arbitrary: s) (simp_all add: Let_def case_prod_unfold split: option.split)

lemma remove_pipe_snd:
  "same_rest s (snd (remove_pipe pid s)) \<and> pipes (snd (remove_pipe pid s)) = hm_remove pid (pipes s) \<and>
   remote_open_attempts (snd (remove_pipe pid s)) = remote_open_attempts s"
  by (cases "remove_pipe pid s") (simp add: remove_pipe_frame)

lemma forget_pipes_frame:
  "same_rest s (forget_pipes pids s) \<and> remote_open_attempts (forget_pipes pids s) = remote_open_attempts s \<and>
   hm_get (pipes (forget_pipes pids s)) = (\<lambda>p. if p \<in> set pids then None else hm_get (pipes s) p)"
proof (induction pids arbitrary: s)
  case (Cons pid pids)
  let ?s = "snd (remove_pipe pid s)"
  note R = remove_pipe_snd [of s pid]
  have "same_rest s (forget_pipes pids ?s)" using R Cons.IH [of ?s] same_rest_trans by blast
  moreover have "hm_get (pipes (forget_pipes pids ?s)) = (\<lambda>p. if p \<in> set (pid # pids) then None else hm_get (pipes s) p)"
    using R Cons.IH [of ?s] by (simp add: fun_eq_iff hm_get_remove)
  ultimately show ?case using R Cons.IH [of ?s] by simp
qed simp

lemma unpublish_inv:
  assumes inv: "gateway_inv env s"
  shows "gateway_inv env (snd (unpublish session request_id b s))"
proof -
  have anch: "anchored env s" and core: "core env s" using inv by (auto simp: gateway_inv_def)
  note A = anchoredD [OF anch]
  obtain gone r where rem: "remove_owned session b (local_registry s) = (gone, r)" by fastforce
  note R = remove_owned_ok [OF A(1) rem]
  show ?thesis
  proof (cases gone)
    case None
    then have "snd (unpublish session request_id b s) = s" using R rem by (simp add: unpublish_def Let_def)
    then show ?thesis using inv by simp
  next
    case (Some bnd)
    let ?s = "s\<lparr>local_registry := r\<rparr>"
    define pids where "pids = map fst (filter (\<lambda>(pid, pipe). pipe_binding_id pipe = b \<and> phase pipe = Offered) (pipes s))"
    define t where "t = forget_pipes pids ?s"
    have t: "snd (unpublish session request_id b s) = t" "snd (cancel_pending_binding b ?s) = t"
      using rem Some loop_states(1) [of _ _ _ pids ?s]
      by (simp_all add: unpublish_def Let_def cancel_pending_binding_def case_prod_unfold t_def pids_def)
    have F: "same_rest ?s t" "remote_open_attempts t = remote_open_attempts s"
      "hm_get (pipes t) p = (if p \<in> set pids then None else hm_get (pipes s) p)" for p
      using forget_pipes_frame [of ?s pids] by (simp_all add: t_def)
    have listed: "p \<in> set pids" if "hm_get (pipes s) p = Some e" "pipe_binding_id e = b" "phase e = Offered" for p e
      using map_of_SomeD [OF that(1)] that(2,3) by (force simp: pids_def)
    have by_id: "by_id r = hm_remove b (by_id (local_registry s))" and reg: "registry_ok r" using R Some by simp_all
    have core_t: "core env t" using settles_cancel_pending_binding [of env ?s b] core t(2) by (simp add: settles_def)
    let ?t = "t\<lparr>local_registry := local_registry s\<rparr>"
    have anch_t: "anchored env ?t"
      by (rule anchored_fewer [OF anch]) (use F in \<open>auto simp: same_rest_def split: if_splits\<close>)
    have "anchored env (?t\<lparr>local_registry := r\<rparr>)"
    proof (rule anchored_registry [OF anch_t reg])
      have "length (by_id r) \<le> length (by_id (local_registry s))" unfolding by_id by (rule length_delete_le)
      then show "binding_count_of r \<le> max_bindings (limits ?t)" using A(8) F(1) by (simp add: binding_count_of_def same_rest_def)
      show "hm_contains (sessions ?t) (bnd_session_id c)" if "bnds r i = Some c" for i c
        using that A(3) F(1) by (auto simp: by_id table_simps same_rest_def split: if_splits)
      show "\<exists>c. bnds r (pipe_binding_id e) = Some c \<and> bnd_session_id c = a"
        if e: "hm_get (pipes ?t) p = Some e" "acceptor e = Sdk a" "phase e = Offered" for p e a
      proof -
        have s: "hm_get (pipes s) p = Some e" and keep: "p \<notin> set pids" using e(1) F(3) by (auto split: if_splits)
        have "pipe_binding_id e \<noteq> b" using keep listed [OF s] e(3) by blast
        then show ?thesis using A(6) [OF s e(2,3)] by (simp add: by_id table_simps)
      qed
    qed
    moreover have "t = ?t\<lparr>local_registry := r\<rparr>" using F(1) by (simp add: same_rest_def)
    ultimately show ?thesis using core_t by (simp add: t(1) gateway_inv_def)
  qed
qed

section \<open>Sessions\<close>

lemma core_sessions:
  "core env (s\<lparr>sessions := ss\<rparr>) = (hm_ok ss \<and> core env (s\<lparr>sessions := []\<rparr>))"
  by (auto simp: core_def tables_ok_def counters_ok_def peer_index_ok_def attempts_ok_def limits_ok_def hm_ok_Nil)

lemma core_set_sessions:
  assumes "core env s" "hm_ok ss"
  shows "core env (s\<lparr>sessions := ss\<rparr>)"
  using assms core_sessions [where s = s and ss = ss] core_sessions [where s = s and ss = "sessions s"] by simp

text \<open>Sessions may be added, and an entry may change as long as its highest connection id does not decrease.\<close>

lemma anchored_sessions:
  assumes anch: "anchored env s"
    and more: "\<And>i e h. hm_get (sessions s) i = Some e \<Longrightarrow> \<exists>e'. hm_get ss i = Some e' \<and>
      (highest_connection_id e = Some h \<longrightarrow> (\<exists>h'. highest_connection_id e' = Some h' \<and> h \<le> h'))"
    and "length ss \<le> max_sessions (limits s)" and loc: "\<And>i. hm_contains ss i \<Longrightarrow> local_session env i"
  shows "anchored env (s\<lparr>sessions := ss\<rparr>)" (is "anchored env ?t")
proof -
  note A = anchoredD [OF anch]
  have d: "dialed_by ?t p" if p: "dialed_by s p" for p
  proof -
    obtain e h where e: "hm_get (sessions s) (origin_session_id p) = Some e" "highest_connection_id e = Some h"
        "pipe_connection_id p \<le> h"
      using p by (auto simp: dialed_by_def)
    then obtain e' h' where "hm_get ss (origin_session_id p) = Some e'" "highest_connection_id e' = Some h'" "h \<le> h'"
      using more [OF e(1), of h] by blast
    then show ?thesis using e(3) by (auto simp: dialed_by_def)
  qed
  have c: "hm_contains ss i" if "hm_contains (sessions s) i" for i using that more by blast
  show ?thesis
    unfolding anchored_def using A(1) A(8) assms(3) loc A(3,5) c A(4,7) d A(6) by simp
qed

end
