(* ===== verification/Gateway_Sessions.thy ===== *)
theory Gateway_Sessions
  imports Gateway_Admission
begin

text \<open>
  The session lifecycle keeps the gateway invariant: admission, control admission, removal and offer expiry.
\<close>

lemma find_fresh:
  assumes "find (\<lambda>c. \<not> hm_contains m c) draws = Some i"
  shows "i \<in> set draws" "hm_get m i = None"
  using assms by (auto simp: find_Some_iff)

lemma add_session_cases:
  assumes "add_session draws w token now s = Some (r, t)"
  obtains "t = s" "r = None"
  | i e where "r = Some i" "i \<in> set draws" "hm_get (sessions s) i = None" "highest_connection_id e = None"
      "t = s\<lparr>sessions := hm_insert i e (sessions s)\<rparr>" "length (sessions s) < max_sessions (limits s)" "\<not> draining s"
proof (cases "session_rejection s")
  case None
  then have cap: "length (sessions s) < max_sessions (limits s)" "\<not> draining s" by (auto simp: session_rejection_def split: if_splits)
  obtain i where i: "find (\<lambda>c. \<not> hm_contains (sessions s) c) draws = Some i"
    using assms None by (cases "find (\<lambda>c. \<not> hm_contains (sessions s) c) draws") (simp_all add: add_session_def)
  let ?e = "\<lparr>entry_sender = w, entry_cancellation = token, highest_connection_id = None,
    entry_control_rate = token_bucket_new (session_control_rate_per_second (limits s)) (session_control_burst (limits s)) now\<rparr>"
  have "r = Some i" "t = s\<lparr>sessions := hm_insert i ?e (sessions s)\<rparr>"
    using assms None i by (simp_all add: add_session_def)
  then show thesis by (intro that(2) [of i ?e] find_fresh [OF i] cap) simp_all
next
  case (Some x)
  then have "t = s" "r = None" using assms by (simp_all add: add_session_def)
  then show thesis by (rule that(1))
qed

lemma put_entry_inv:
  assumes inv: "gateway_inv env s" and loc: "local_session env i"
    and mono: "\<And>e h. hm_get (sessions s) i = Some e \<Longrightarrow> highest_connection_id e = Some h \<Longrightarrow>
      \<exists>h'. highest_connection_id e' = Some h' \<and> h \<le> h'"
    and cap: "length (hm_insert i e' (sessions s)) \<le> max_sessions (limits s)"
  shows "gateway_inv env (s\<lparr>sessions := hm_insert i e' (sessions s)\<rparr>)"
proof -
  have anch: "anchored env s" and core: "core env s" using inv by (auto simp: gateway_inv_def)
  have "core env (s\<lparr>sessions := hm_insert i e' (sessions s)\<rparr>)"
    using coreD(1) [OF core] by (intro core_set_sessions [OF core]) (simp add: tables_ok_def hm_ok_insert)
  moreover have "anchored env (s\<lparr>sessions := hm_insert i e' (sessions s)\<rparr>)"
  proof (rule anchored_sessions [OF anch _ cap])
    show "\<exists>e''. hm_get (hm_insert i e' (sessions s)) j = Some e'' \<and>
        (highest_connection_id e = Some h \<longrightarrow> (\<exists>h'. highest_connection_id e'' = Some h' \<and> h \<le> h'))"
      if "hm_get (sessions s) j = Some e" for j e h
      using that mono by (cases "j = i") (simp_all add: table_simps)
    show "local_session env j" if "hm_contains (hm_insert i e' (sessions s)) j" for j
      using that loc anchoredD(2) [OF anch, of j] by (cases "j = i") (simp_all add: table_simps)
  qed
  ultimately show ?thesis by (simp add: gateway_inv_def)
qed

lemma add_session_inv:
  assumes inv: "gateway_inv env s" and loc: "\<And>i. i \<in> set draws \<Longrightarrow> local_session env i"
    and add: "add_session draws w token now s = Some (r, t)"
  shows "gateway_inv env t"
  using add
proof (cases rule: add_session_cases)
  case (2 i e)
  show ?thesis unfolding 2(5)
    by (rule put_entry_inv [OF inv]) (use 2 loc in \<open>simp_all add: length_hm_insert\<close>)
qed (use inv in simp)

lemma core_misc [simp]:
  "core env (s\<lparr>draining := b\<rparr>) = core env s" "core env (s\<lparr>control_rate := c\<rparr>) = core env s"
  "core env (s\<lparr>cancelled := l\<rparr>) = core env s"
  by (simp_all add: core_def tables_ok_def counters_ok_def peer_index_ok_def attempts_ok_def limits_ok_def)

lemma anchored_misc [simp]:
  "anchored env (s\<lparr>draining := b\<rparr>) = anchored env s" "anchored env (s\<lparr>control_rate := c\<rparr>) = anchored env s"
  by (simp_all add: anchored_def dialed_by_def)

lemma update_entry_inv:
  assumes inv: "gateway_inv env s" and old: "hm_get (sessions s) i = Some e"
    and mono: "\<And>h. highest_connection_id e = Some h \<Longrightarrow> \<exists>h'. highest_connection_id e' = Some h' \<and> h \<le> h'"
  shows "gateway_inv env (s\<lparr>sessions := hm_insert i e' (sessions s)\<rparr>)"
proof -
  have anch: "anchored env s" using inv by (simp add: gateway_inv_def)
  show ?thesis
    by (rule put_entry_inv [OF inv])
      (use old mono anchoredD(2,9) [OF anch] in \<open>simp_all add: length_hm_insert\<close>)
qed

lemma admit_control_inv:
  assumes "gateway_inv env s"
  shows "gateway_inv env (snd (admit_control i now s))"
proof (cases "hm_get (sessions s) i")
  case (Some e)
  have "gateway_inv env (s\<lparr>sessions := hm_insert i (e\<lparr>entry_control_rate := r\<rparr>) (sessions s)\<rparr>)" for r
    by (rule update_entry_inv [OF assms Some]) simp
  then show ?thesis using Some by (simp add: admit_control_def Let_def case_prod_unfold gateway_inv_def)
qed (simp add: admit_control_def assms)

lemma prepare_authorization_inv:
  assumes inv: "gateway_inv env s"
  shows "gateway_inv env (snd (prepare_authorization i op now s))"
proof (cases "hm_get (sessions s) i")
  case (Some e)
  have "gateway_inv env (s\<lparr>sessions := hm_insert i (e\<lparr>highest_connection_id := Some c\<rparr>) (sessions s)\<rparr>)"
    if "\<And>h. highest_connection_id e = Some h \<Longrightarrow> h < c" for c
    by (rule update_entry_inv [OF inv Some]) (use that in \<open>auto intro: less_imp_le\<close>)
  then show ?thesis using Some inv admit_control_inv
    by (auto simp: prepare_authorization_def Let_def not_le split: control_operation.splits option.splits prod.splits bool.splits)
      (metis snd_conv)+
qed (simp add: prepare_authorization_def inv)

section \<open>Removing a session\<close>

definition drop_all :: "open_identity list \<Rightarrow> gateway_state \<Rightarrow> gateway_state" where
  "drop_all ois s = fold (\<lambda>oi s. snd (take_remote_attempt oi s)) ois s"

lemma drop_all_simps [simp]:
  "drop_all [] s = s" "drop_all (oi # ois) s = drop_all ois (snd (take_remote_attempt oi s))"
  by (simp_all add: drop_all_def)

lemma drop_attempts_state: "snd (drop_attempts ois s) = drop_all ois s"
  by (induction ois arbitrary: s) (simp_all add: Let_def case_prod_unfold split: option.split)

lemma drop_all_frame:
  "same_rest s (drop_all ois s) \<and> pipes (drop_all ois s) = pipes s \<and>
   hm_get (remote_open_attempts (drop_all ois s)) = (\<lambda>oi. if oi \<in> set ois then None else hm_get (remote_open_attempts s) oi)"
proof (induction ois arbitrary: s)
  case (Cons oi ois)
  let ?s = "snd (take_remote_attempt oi s)"
  have R: "same_rest s ?s" "pipes ?s = pipes s" "remote_open_attempts ?s = hm_remove oi (remote_open_attempts s)"
    using take_remote_attempt_frame [of oi s "fst (take_remote_attempt oi s)" ?s] by simp_all
  have "same_rest s (drop_all ois ?s)" using R Cons.IH [of ?s] same_rest_trans by blast
  then show ?case using R Cons.IH [of ?s] by (simp add: fun_eq_iff hm_get_remove)
qed simp

lemma hm_get_filtered:
  "hm_ok m \<Longrightarrow> k \<in> set (map fst (filter (\<lambda>(k, v). P k v) m)) \<longleftrightarrow> (\<exists>v. hm_get m k = Some v \<and> P k v)"
  by (force simp: hm_get_in_set)

definition touches :: "session_id \<Rightarrow> pipe_entry \<Rightarrow> bool" where
  "touches session pipe \<longleftrightarrow> dialer pipe = Sdk session \<or> acceptor pipe = Sdk session"

lemma remove_session_frame:
  assumes inv: "gateway_inv env s" and live: "hm_contains (sessions s) session"
  defines "t \<equiv> snd (remove_session session s)"
  shows "sessions t = hm_remove session (sessions s)" "limits t = limits s" "draining t = draining s"
    "gateway_id_of t = gateway_id_of s" "core env t" "registry_ok (local_registry t)"
    "\<And>i b. bnds (local_registry t) i = Some b \<longleftrightarrow> bnds (local_registry s) i = Some b \<and> bnd_session_id b \<noteq> session"
    "\<And>p e. hm_get (pipes t) p = Some e \<longleftrightarrow> hm_get (pipes s) p = Some e \<and> \<not> touches session e"
    "\<And>oi a. hm_get (remote_open_attempts t) oi = Some a \<longleftrightarrow>
       hm_get (remote_open_attempts s) oi = Some a \<and> origin_session_id (attempt_pipe_id a) \<noteq> session"
proof -
  have anch: "anchored env s" and core: "core env s" using inv by (auto simp: gateway_inv_def)
  note tabs = coreD(1) [OF core, unfolded tables_ok_def]
  obtain entry where entry: "hm_get (sessions s) session = Some entry" using live by blast
  obtain bs r where reg: "registry_remove_session session (local_registry s) = (bs, r)" by fastforce
  note R = registry_remove_session_ok [OF anchoredD(1) [OF anch] reg]
  define s2 where "s2 = s\<lparr>sessions := hm_remove session (sessions s), cancelled := entry_cancellation entry # cancelled s,
    local_registry := r\<rparr>"
  define pending where "pending = map fst (filter (\<lambda>(oi, a). origin_session_id (attempt_pipe_id a) = session) (remote_open_attempts s))"
  define s3 where "s3 = drop_all pending s2"
  have t: "t = forget_pipes (owned_pipes session s3) s3"
    using entry reg
    by (simp add: t_def remove_session_def Let_def case_prod_unfold drop_attempts_state loop_states(3) pending_def s2_def s3_def)
  note D = drop_all_frame [of s2 pending, folded s3_def]
  note F = forget_pipes_frame [of s3 "owned_pipes session s3", folded t]
  have rest: "same_rest s2 t" using D F same_rest_trans by blast
  have core2: "core env s2" using core_set_sessions [OF core, of "hm_remove session (sessions s)"] tabs
    by (simp add: s2_def hm_ok_remove core_registry)
  have "core env s3" using settles_drop_attempts [of env s2 pending] core2 by (simp add: settles_def drop_attempts_state s3_def)
  then show "core env t" using settles_reset_owned [of env s3 session "owned_pipes session s3"]
    by (simp add: settles_def loop_states(3) t)
  show "sessions t = hm_remove session (sessions s)" "limits t = limits s" "draining t = draining s"
    "gateway_id_of t = gateway_id_of s" "registry_ok (local_registry t)"
    "\<And>i b. bnds (local_registry t) i = Some b \<longleftrightarrow> bnds (local_registry s) i = Some b \<and> bnd_session_id b \<noteq> session"
    using rest R by (simp_all add: same_rest_def s2_def)
  show "hm_get (pipes t) p = Some e \<longleftrightarrow> hm_get (pipes s) p = Some e \<and> \<not> touches session e" for p e
    using F D tabs hm_get_filtered [of "pipes s" p "\<lambda>_ pipe. dialer pipe = Sdk session \<or> acceptor pipe = Sdk session"]
    by (auto simp: owned_pipes_def touches_def s2_def)
  show "hm_get (remote_open_attempts t) oi = Some a \<longleftrightarrow>
       hm_get (remote_open_attempts s) oi = Some a \<and> origin_session_id (attempt_pipe_id a) \<noteq> session" for oi a
    using F D tabs hm_get_filtered [of "remote_open_attempts s" oi "\<lambda>_ a. origin_session_id (attempt_pipe_id a) = session"]
    by (auto simp: pending_def s2_def)
qed

lemma remove_session_absent: "\<not> hm_contains (sessions s) session \<Longrightarrow> remove_session session s = ([], s)"
  by (simp add: remove_session_def)

lemma remove_session_inv:
  assumes inv: "gateway_inv env s"
  shows "gateway_inv env (snd (remove_session session s))"
proof (cases "hm_contains (sessions s) session")
  case True
  note F = remove_session_frame [OF inv True]
  define t where "t = snd (remove_session session s)"
  note F = F [folded t_def]
  have anch: "anchored env s" and core: "core env s" using inv by (auto simp: gateway_inv_def)
  note A = anchoredD [OF anch]
  have keeps: "hm_get (sessions t) i = hm_get (sessions s) i" if "i \<noteq> session" for i
    using that by (simp add: F(1) table_simps)
  have dialed: "dialed_by t p" if "dialed_by s p" "origin_session_id p \<noteq> session" for p
    using that keeps by (auto simp: dialed_by_def)
  have "dom (bnds (local_registry t)) \<subseteq> dom (bnds (local_registry s))" by (auto simp: F(7))
  then have "card (dom (bnds (local_registry t))) \<le> card (dom (bnds (local_registry s)))"
    by (rule card_mono [OF finite_dom_map_of])
  then have bound: "binding_count_of (local_registry t) \<le> max_bindings (limits t)"
    using A(8) registry_okD(1) [OF A(1)] registry_okD(1) [OF F(6)] by (simp add: binding_count_of_def card_dom_hm F(2))
  have P: "hm_get (pipes s) p = Some e" "dialer e \<noteq> Sdk session" "acceptor e \<noteq> Sdk session"
    if "hm_get (pipes t) p = Some e" for p e
    using that by (auto simp: F(8) touches_def)
  have own: "origin_session_id p = d" if "hm_get (pipes s) p = Some e" "dialer e = Sdk d" for p e d
    using coreD(3) [OF core that(1)] that(2) by (auto simp: pipe_ok_def split: pipe_endpoint.splits)
  have "anchored env t"
    unfolding anchored_def
  proof (intro conjI allI impI)
    show "length (sessions t) \<le> max_sessions (limits t)"
      using A(9) length_delete_le [of session "sessions s"] by (simp add: F(1,2))
    show "local_session env i" if "hm_contains (sessions t) i" for i
      using that A(2) [of i] by (cases "i = session") (auto simp: F(1) table_simps)
    show "hm_contains (sessions t) (bnd_session_id b)" if "bnds (local_registry t) i = Some b" for i b
      using that A(3) [of i b] keeps by (simp add: F(7))
    show "dialed_by t p" if "hm_get (pipes t) p = Some e" "dialer e = Sdk d" for p e d
      using P [OF that(1)] that(2) own dialed A(4) by metis
    show "hm_contains (sessions t) a" if "hm_get (pipes t) p = Some e" "acceptor e = Sdk a" for p e a
      using P [OF that(1)] that(2) A(5) keeps by metis
    show "\<exists>b. bnds (local_registry t) (pipe_binding_id e) = Some b \<and> bnd_session_id b = a"
      if "hm_get (pipes t) p = Some e" "acceptor e = Sdk a" "phase e = Offered" for p e a
      using P [OF that(1)] that(2,3) A(6) by (metis F(7))
    show "dialed_by t (attempt_pipe_id at)" if "hm_get (remote_open_attempts t) oi = Some at" for oi at
      using that A(7) dialed by (metis F(9))
  qed (fact F(6) bound)+
  then show ?thesis using F(5) by (simp add: gateway_inv_def t_def)
qed (simp add: remove_session_absent inv)

lemma remove_sessions_inv: "gateway_inv env s \<Longrightarrow> gateway_inv env (snd (remove_sessions ss s))"
  by (induction ss arbitrary: s) (simp_all add: Let_def case_prod_unfold remove_session_inv)

lemma expire_offers_inv:
  assumes "gateway_inv env s"
  shows "gateway_inv env (snd (expire_offers now s))"
  using settles_inv [OF settles_expire_pipes assms] by (simp add: expire_offers_def Let_def case_prod_unfold remove_sessions_inv)

lemma begin_draining_inv: "gateway_inv env s \<Longrightarrow> gateway_inv env (snd (begin_draining s))"
  by (simp add: begin_draining_def gateway_inv_def)

end
