(* ===== verification/Gateway_System.thy ===== *)
theory Gateway_System
  imports Gateway_Sessions
begin

text \<open>
  The gateway as its tasks drive it: a state machine whose steps are the calls of the state core made
  by the session tasks (\<open>gateway/session.rs\<close>), the effect loop and the peer event loop
  (\<open>gateway/effects.rs\<close>). Each step is one critical section of the state lock. Next to the state core a
  system state holds, for each session task, the operation whose token it is verifying: a session
  task reads its next frame only after the previous operation was committed or refused.
\<close>

section \<open>Deliveries and their batches (\<open>state/delivery.rs\<close>, \<open>gateway/effects.rs\<close>)\<close>

fun is_transport_terminal_frame :: "frame \<Rightarrow> bool" where
  "is_transport_terminal_frame (FrameReset _ _ _) = True"
| "is_transport_terminal_frame (FrameDialFailed _ _ _ _) = True"
| "is_transport_terminal_frame _ = False"

definition into_terminal_batch :: "delivery \<Rightarrow> delivery + terminal_batch_delivery" where
  "into_terminal_batch d =
     (if \<not> is_transport_terminal_frame (delivery_frame d) then Inl d
      else Inr \<lparr>batch_target = delivery_target d, batch_frames = [delivery_frame d], batch_sender = delivery_sender d,
                batch_cancellation = delivery_cancellation d\<rparr>)"

definition batch_push :: "delivery \<Rightarrow> terminal_batch_delivery \<Rightarrow> delivery + terminal_batch_delivery" where
  "batch_push d batch =
     (if delivery_target d \<noteq> batch_target batch \<or> \<not> is_transport_terminal_frame (delivery_frame d) then Inl d
      else Inr (batch\<lparr>batch_frames := batch_frames batch @ [delivery_frame d]\<rparr>))"

type_synonym batching = "(session_id, nat) hashmap \<times> gateway_action list"

definition batch_step :: "gateway_action \<Rightarrow> batching \<Rightarrow> batching" where
  "batch_step act acc = (case acc of (indexes, batched) \<Rightarrow>
     (case act of
        SendSdkFrame d \<Rightarrow>
          (case hm_get indexes (delivery_target d) of
             Some index \<Rightarrow>
               (case batched ! index of
                  SendSdkTerminalBatch batch \<Rightarrow>
                    (case batch_push d batch of
                       Inl d \<Rightarrow> (hm_remove (delivery_target d) indexes, batched @ [SendSdkFrame d])
                     | Inr batch \<Rightarrow> (indexes, batched[index := SendSdkTerminalBatch batch]))
                | _ \<Rightarrow> (indexes, batched @ [SendSdkFrame d]))
           | None \<Rightarrow>
               (case into_terminal_batch d of
                  Inl d \<Rightarrow> (indexes, batched @ [SendSdkFrame d])
                | Inr batch \<Rightarrow> (hm_insert (delivery_target d) (length batched) indexes,
                                batched @ [SendSdkTerminalBatch batch])))
      | _ \<Rightarrow> (indexes, batched @ [act])))"

definition batch_transport_lost_terminal_frames :: "gateway_action list \<Rightarrow> gateway_action list" where
  "batch_transport_lost_terminal_frames acts = snd (fold batch_step acts ([], []))"

section \<open>Peer events (\<open>gateway/effects.rs\<close>)\<close>

fun lose_streams :: "lost_peer_stream list \<Rightarrow> gateway_state \<Rightarrow> gateway_action list transition" where
  "lose_streams [] s = ([], s)"
| "lose_streams (l # ls) s =
     (let (acts, s1) = peer_transport_lost_stream (lost_key l) (lost_open_identity l)
                         (failure_observation (lost_progress l)) s;
          (rest, s2) = lose_streams ls s1
      in (acts @ rest, s2))"

fun handle_peer_event :: "instant \<Rightarrow> peer_event \<Rightarrow> gateway_state \<Rightarrow> gateway_action list transition" where
  "handle_peer_event now (EventIncomingOpen key oi d relay b) s = receive_peer_open_at key oi d relay b now s"
| "handle_peer_event now (EventOpened key oi) s = peer_opened_at key oi now s"
| "handle_peer_event now (EventFailed key oi code ob message) s = peer_open_failed key oi code ob message s"
| "handle_peer_event now (EventData key bs) s = peer_data key bs s"
| "handle_peer_event now (EventFin key) s = peer_fin key s"
| "handle_peer_event now (EventClose key) s = peer_close key s"
| "handle_peer_event now (EventReset key code message) s = peer_reset key code message s"
| "handle_peer_event now (EventTransportLost _ _ streams) s =
     (case lose_streams streams s of (acts, s1) \<Rightarrow> (batch_transport_lost_terminal_frames acts, s1))"

section \<open>The system\<close>

record gateway_sys =
  state_core :: gateway_state
  verifying :: "(session_id, control_operation) hashmap"

datatype gateway_call =
    Admit "uuid list" writer cancellation_token instant
  | Control session_id control_operation instant
  | Commit "uuid list" session_id verified_authorization instant
  | Refuse session_id error_code
  | Abandon session_id
  | FrameIn session_id frame instant
  | Cleanup session_id
  | OfferQueueFull session_id pipe_id
  | Expire instant
  | Drain
  | RouteFound open_identity "binding_projection list" instant
  | RouteFailed open_identity error_code string
  | PeerCommitted open_identity peer_stream_key
  | PeerCommitFailed open_identity error_code peer_observation string
  | PeerUnsent peer_stream_key error_code string
  | PeerEventIn instant peer_event

text \<open>
  A call is enabled when its task can make it. The environment \<open>env\<close> fixes what the peer runtime
  guarantees: a stream key carries one open identity for its lifetime, and \<open>local_session\<close> are the
  session identifiers this gateway draws, which no remote gateway uses as an origin.
\<close>

fun peer_event_enabled :: "peer_env \<Rightarrow> peer_event \<Rightarrow> bool" where
  "peer_event_enabled env (EventIncomingOpen key oi _ _ _) \<longleftrightarrow> carries env key = oi \<and> \<not> local_session env (origin_session oi)"
| "peer_event_enabled env (EventOpened key oi) \<longleftrightarrow> carries env key = oi"
| "peer_event_enabled env _ \<longleftrightarrow> True"

fun call_enabled :: "peer_env \<Rightarrow> gateway_sys \<Rightarrow> gateway_call \<Rightarrow> bool" where
  "call_enabled env y (Admit draws _ _ _) \<longleftrightarrow> (\<forall>i \<in> set draws. local_session env i \<and> \<not> hm_contains (verifying y) i)"
| "call_enabled env y (Control session _ _) \<longleftrightarrow> \<not> hm_contains (verifying y) session"
| "call_enabled env y (FrameIn session frame now) \<longleftrightarrow> \<not> hm_contains (verifying y) session \<and> isl (control_take now frame)"
| "call_enabled env y (PeerCommitted oi key) \<longleftrightarrow> carries env key = oi"
| "call_enabled env y (PeerEventIn _ e) \<longleftrightarrow> peer_event_enabled env e"
| "call_enabled env y _ \<longleftrightarrow> True"

definition on_core :: "gateway_sys \<Rightarrow> gateway_action list transition \<Rightarrow> (gateway_action list \<times> gateway_sys) option" where
  "on_core y r = Some (fst r, y\<lparr>state_core := snd r\<rparr>)"

fun gateway_call_step :: "gateway_call \<Rightarrow> gateway_sys \<Rightarrow> (gateway_action list \<times> gateway_sys) option" where
  "gateway_call_step (Admit draws sender token now) y =
     (case add_session draws sender token now (state_core y) of
        None \<Rightarrow> None | Some (_, s) \<Rightarrow> Some ([], y\<lparr>state_core := s\<rparr>))"
| "gateway_call_step (Control session op now) y =
     (case prepare_authorization session op now (state_core y) of
        (Some acts, s) \<Rightarrow> Some (acts, y\<lparr>state_core := s\<rparr>)
      | (None, s) \<Rightarrow> Some ([], y\<lparr>state_core := s, verifying := hm_insert session op (verifying y)\<rparr>))"
| "gateway_call_step (Commit draws session verified now) y =
     (case hm_get (verifying y) session of
        None \<Rightarrow> None
      | Some op \<Rightarrow>
          (case commit_authorized draws session op verified now (state_core y) of
             None \<Rightarrow> None
           | Some (acts, s) \<Rightarrow> Some (acts, y\<lparr>state_core := s, verifying := hm_remove session (verifying y)\<rparr>)))"
| "gateway_call_step (Refuse session code) y =
     (case hm_get (verifying y) session of
        None \<Rightarrow> None
      | Some op \<Rightarrow> Some (authorization_failed (state_core y) session op code,
                       y\<lparr>verifying := hm_remove session (verifying y)\<rparr>))"
| "gateway_call_step (Abandon session) y = Some ([], y\<lparr>verifying := hm_remove session (verifying y)\<rparr>)"
| "gateway_call_step (FrameIn session frame now) y =
     (case handle_frame session frame now (state_core y) of
        (Inr acts, s) \<Rightarrow> Some (acts, y\<lparr>state_core := s\<rparr>)
      | (Inl _, s) \<Rightarrow> Some ([], y\<lparr>state_core := s\<rparr>))"
| "gateway_call_step (Cleanup session) y = on_core y (remove_session session (state_core y))"
| "gateway_call_step (OfferQueueFull session pid) y = on_core y (offer_delivery_rejected session pid (state_core y))"
| "gateway_call_step (Expire now) y = on_core y (expire_offers now (state_core y))"
| "gateway_call_step Drain y = on_core y (begin_draining (state_core y))"
| "gateway_call_step (RouteFound oi bindings now) y = on_core y (route_resolved oi bindings now (state_core y))"
| "gateway_call_step (RouteFailed oi code message) y = on_core y (route_failed oi code message (state_core y))"
| "gateway_call_step (PeerCommitted oi key) y = on_core y (peer_open_committed oi key (state_core y))"
| "gateway_call_step (PeerCommitFailed oi code ob message) y =
     on_core y (peer_open_commit_failed oi code ob message (state_core y))"
| "gateway_call_step (PeerUnsent key code message) y = on_core y (peer_reset key code message (state_core y))"
| "gateway_call_step (PeerEventIn now e) y = on_core y (handle_peer_event now e (state_core y))"

definition gateway_step :: "peer_env \<Rightarrow> gateway_sys \<Rightarrow> gateway_call \<Rightarrow> gateway_sys \<Rightarrow> bool" where
  "gateway_step env y c z \<longleftrightarrow> call_enabled env y c \<and> (\<exists>acts. gateway_call_step c y = Some (acts, z))"

definition gateway_init :: "gateway_sys \<Rightarrow> bool" where
  "gateway_init y \<longleftrightarrow> verifying y = [] \<and> (\<exists>l g now. state_core y = gateway_build l g now)"

text \<open>A run of calls, for building reachable states.\<close>

fun gateway_run :: "peer_env \<Rightarrow> gateway_call list \<Rightarrow> gateway_sys \<Rightarrow> (gateway_action list list \<times> gateway_sys) option" where
  "gateway_run env [] y = Some ([], y)"
| "gateway_run env (c # cs) y =
     (if \<not> call_enabled env y c then None
      else case gateway_call_step c y of
        None \<Rightarrow> None
      | Some (acts, z) \<Rightarrow>
          (case gateway_run env cs z of None \<Rightarrow> None | Some (rest, final) \<Rightarrow> Some (acts # rest, final)))"

section \<open>Identifiers in use\<close>

text \<open>
  A step keeps the sessions and takes no pipe identifier into use but those of \<open>N\<close>.
\<close>

definition grows :: "gateway_state \<Rightarrow> gateway_state \<Rightarrow> pipe_id set \<Rightarrow> bool" where
  "grows s t N \<longleftrightarrow> sessions t = sessions s \<and> draining t = draining s \<and> (\<forall>p. unused s p \<and> p \<notin> N \<longrightarrow> unused t p)"

named_theorems growing \<open>what an operation takes into use\<close>

lemma grows_refl [simp]: "grows s s N"
  by (simp add: grows_def)

lemma grows_trans: "grows s t N \<Longrightarrow> grows t u M \<Longrightarrow> N \<subseteq> K \<Longrightarrow> M \<subseteq> K \<Longrightarrow> grows s u K"
  unfolding grows_def by (metis subsetD)

lemma grows_mono: "grows s t N \<Longrightarrow> N \<subseteq> M \<Longrightarrow> grows s t M"
  unfolding grows_def by blast

lemma shrinksD:
  assumes "shrinks s t"
  shows "same_rest s t"
    "\<And>p e. hm_get (pipes t) p = Some e \<Longrightarrow> \<exists>e'. hm_get (pipes s) p = Some e' \<and> dialer e' = dialer e \<and>
       acceptor e' = acceptor e \<and> pipe_binding_id e' = pipe_binding_id e \<and> (phase e = Offered \<longrightarrow> phase e' = Offered)"
    "\<And>oi a. hm_get (remote_open_attempts t) oi = Some a \<Longrightarrow>
       \<exists>a'. hm_get (remote_open_attempts s) oi = Some a' \<and> attempt_pipe_id a' = attempt_pipe_id a"
  using assms unfolding shrinks_def by blast+

lemma grows_shrinks:
  assumes "shrinks s t"
  shows "grows s t N"
proof -
  note S = shrinksD [OF assms]
  have "unused t p" if u: "unused s p" for p
  proof -
    have "hm_get (pipes t) p = None"
      using u S(2) [of p] by (cases "hm_get (pipes t) p") (auto simp: unused_def)
    moreover have "hm_get (remote_open_attempts t) oi = None" if "pid_of oi = p" for oi
      using u that S(3) [of oi] by (cases "hm_get (remote_open_attempts t) oi") (auto simp: unused_def)
    ultimately show ?thesis by (simp add: unused_def)
  qed
  then show ?thesis using S(1) by (simp add: grows_def same_rest_def)
qed

lemma grows_settles: "settles env s t \<Longrightarrow> core env s \<Longrightarrow> grows s t N"
  by (simp add: settles_def grows_shrinks)

lemma grows_registry [simp]: "grows s (s\<lparr>local_registry := r\<rparr>) N"
  by (simp add: grows_def unused_def)

lemma grows_registry_before [simp]: "grows (s\<lparr>local_registry := r\<rparr>) t N = grows s t N"
  by (simp add: grows_def unused_def)

lemma grows_pipe:
  "sessions t = sessions s \<Longrightarrow> draining t = draining s \<Longrightarrow> pipes t = hm_insert p e (pipes s) \<Longrightarrow>
   remote_open_attempts t = remote_open_attempts s \<Longrightarrow> grows s t {p}"
  by (auto simp: grows_def unused_def table_simps)

lemma grows_insert_offer [growing]: "grows s (insert_offer p e s) {p}"
  using insert_offer_frame [of p e s] by (intro grows_pipe) (auto simp: same_rest_def)

lemma grows_insert_open [growing]: "grows s (insert_open p e s) {p}"
  using insert_open_frame [of p e s] by (intro grows_pipe) (auto simp: same_rest_def)

lemma grows_offer_local [growing]: "grows s (snd (offer_local_at p b now started s)) {p}"
  by (simp add: offer_local_at_def Let_def grows_insert_offer)

lemma grows_put_attempt:
  "pid_of oi = p \<Longrightarrow> grows s (s\<lparr>remote_open_attempts := hm_insert oi a (remote_open_attempts s)\<rparr>) {p}"
  by (auto simp: grows_def unused_def table_simps)

lemma grows_dial [growing]: "grows s (snd (dial session c d now started s)) {pipe_id_new session c}"
proof -
  have "grows s (snd (offer_local_at (pipe_id_new session c) b now st (s\<lparr>local_registry := r\<rparr>))) {pipe_id_new session c}" for b st r
    using grows_offer_local [of "s\<lparr>local_registry := r\<rparr>"] by simp
  moreover have "grows s (s\<lparr>local_registry := r, remote_open_attempts := hm_insert (open_identity_new g session c) a
      (remote_open_attempts s)\<rparr>) {pipe_id_new session c}" for r g a
    using grows_put_attempt [of "open_identity_new g session c" _ "s\<lparr>local_registry := r\<rparr>" a] by simp
  ultimately show ?thesis
    by (auto simp: dial_def Let_def split: prod.split option.split)
qed

lemma grows_receive [growing]: "grows s (snd (receive_peer_open_at k oi d relay b now s)) {pid_of oi}"
  by (auto simp: receive_peer_open_at_def Let_def pid_of_def intro: grows_insert_offer split: option.split)

lemma unused_pid_in_use:
  assumes "core env s" "hm_get (remote_open_attempts s) oi = Some a"
  shows "pid_of oi = attempt_pipe_id a" "\<not> unused s (attempt_pipe_id a)"
  using coreD(6) [OF assms(1)] assms(2) by (auto simp: attempts_ok_def unused_def)

lemma settles_take_snd: "settles env s (snd (take_remote_attempt oi s))"
  by (rule settles_take_remote_attempt [of oi s "fst (take_remote_attempt oi s)"]) simp

lemma grows_taken:
  assumes "core env s" "hm_get (remote_open_attempts s) oi = Some a" "grows (snd (take_remote_attempt oi s)) t {attempt_pipe_id a}"
  shows "grows s t {}"
proof -
  have "grows s (snd (take_remote_attempt oi s)) {}"
    by (rule grows_settles [OF settles_take_snd assms(1)])
  then have "grows s t {attempt_pipe_id a}" using assms(3) by (rule grows_trans) auto
  then show ?thesis using unused_pid_in_use(2) [OF assms(1,2)] by (auto simp: grows_def)
qed

lemma grows_peer_opened [growing]:
  assumes core: "core env s"
  shows "grows s (snd (peer_opened_at k oi now s)) {}"
proof (cases "hm_get (remote_open_attempts s) oi")
  case (Some a)
  obtain r t where tk: "take_remote_attempt oi s = (r, t)" by fastforce
  have r: "r = Some a" using take_remote_attempt_frame [OF tk] Some by simp
  have "grows s (insert_open (attempt_pipe_id a) e t) {}" for e
    using grows_taken [OF core Some, of "insert_open (attempt_pipe_id a) e t"] grows_insert_open [of t] by (simp add: tk)
  moreover have "grows s t {}" using grows_settles [OF settles_take_remote_attempt [OF tk] core] .
  ultimately show ?thesis
    using tk r by (auto simp: peer_opened_at_def Let_def split: option.split attempt_match.split)
qed (simp add: peer_opened_at_def match_attempt_def)

lemma grows_route_resolved [growing]:
  assumes core: "core env s"
  shows "grows s (snd (route_resolved oi bindings now s)) {}"
proof (cases "hm_get (remote_open_attempts s) oi")
  case (Some a)
  let ?t = "snd (take_remote_attempt oi s)"
  note fail = grows_settles [OF settles_fail_remote_attempt core]
  have offer: "grows s (snd (offer_local_at (attempt_pipe_id a) b now st ?t)) {}" for b st
    by (rule grows_taken [OF core Some]) (rule grows_offer_local)
  have taken: "grows s ?t {}" by (rule grows_settles [OF settles_take_snd core])
  have "grows s (s\<lparr>remote_open_attempts := hm_insert oi a' (remote_open_attempts s)\<rparr>) {}" for a'
    using grows_put_attempt [of oi "attempt_pipe_id a" s a'] unused_pid_in_use [OF core Some] by (auto simp: grows_def)
  then show ?thesis using Some fail offer taken
    by (auto simp: route_resolved_def Let_def split: option.split)
qed (simp add: route_resolved_def)

lemma grows_publish [growing]: "publish draws session r d s = Some (acts, t) \<Longrightarrow> grows s t {}"
  by (auto simp: publish_def Let_def split: if_splits option.splits prod.splits registration.splits)

lemma grows_unpublish [growing]:
  assumes "core env s"
  shows "grows s (snd (unpublish session r b s)) {}"
proof -
  have "grows (s\<lparr>local_registry := x\<rparr>) (snd (cancel_pending_binding b (s\<lparr>local_registry := x\<rparr>))) {}" for x
    using assms by (intro grows_settles [OF settles_cancel_pending_binding]) (simp add: core_registry)
  then show ?thesis by (auto simp: unpublish_def Let_def case_prod_unfold)
qed

section \<open>The invariant of the system\<close>

text \<open>
  A pipe identifier is reserved for its session when it is not in use and the session, if it still
  lives, has seen its connection id; the identifier of every dial under verification is reserved.
\<close>

definition reserved :: "gateway_state \<Rightarrow> pipe_id \<Rightarrow> bool" where
  "reserved s p \<longleftrightarrow> (hm_contains (sessions s) (origin_session_id p) \<longrightarrow> dialed_by s p \<and> unused s p)"

fun op_reserved :: "gateway_state \<Rightarrow> session_id \<Rightarrow> control_operation \<Rightarrow> bool" where
  "op_reserved s session (ControlDial c d started) = reserved s (pipe_id_new session c)"
| "op_reserved s session (ControlPublish r d) = True"

definition sys_inv :: "peer_env \<Rightarrow> gateway_sys \<Rightarrow> bool" where
  "sys_inv env y \<longleftrightarrow> gateway_inv env (state_core y) \<and>
     (\<forall>session op. hm_get (verifying y) session = Some op \<longrightarrow> op_reserved (state_core y) session op)"

lemma reserved_grows:
  assumes "reserved s p" "grows s t N" "p \<notin> N"
  shows "reserved t p"
  using assms by (auto simp: reserved_def grows_def dialed_by_def)

lemma reserved_session:
  assumes "reserved s p"
    and "hm_contains (sessions t) (origin_session_id p) \<Longrightarrow> hm_get (sessions t) (origin_session_id p) = hm_get (sessions s) (origin_session_id p)"
    and "unused s p \<Longrightarrow> unused t p"
  shows "reserved t p"
  using assms by (auto simp: reserved_def dialed_by_def)

lemma op_reserved_mono:
  assumes "op_reserved s session op" "\<And>c. reserved s (pipe_id_new session c) \<Longrightarrow> reserved t (pipe_id_new session c)"
  shows "op_reserved t session op"
  using assms by (cases op) auto

lemma sys_inv_on_core:
  assumes "sys_inv env y" "gateway_inv env t"
    and "\<And>session c. hm_contains (verifying y) session \<Longrightarrow> reserved (state_core y) (pipe_id_new session c) \<Longrightarrow>
      reserved t (pipe_id_new session c)"
  shows "sys_inv env (y\<lparr>state_core := t\<rparr>)"
  unfolding sys_inv_def
proof (intro conjI allI impI)
  show "op_reserved (state_core (y\<lparr>state_core := t\<rparr>)) session op" if "hm_get (verifying (y\<lparr>state_core := t\<rparr>)) session = Some op" for session op
    using op_reserved_mono [of "state_core y" session op t] assms(1,3) that by (simp add: sys_inv_def)
qed (simp add: assms(2))

lemma sys_inv_grows:
  assumes "sys_inv env y" "gateway_inv env t" "grows (state_core y) t {}"
  shows "sys_inv env (y\<lparr>state_core := t\<rparr>)"
  using reserved_grows [OF _ assms(3)] by (intro sys_inv_on_core [OF assms(1,2)]) simp

lemma sys_inv_settles:
  assumes "sys_inv env y" "settles env (state_core y) t"
  shows "sys_inv env (y\<lparr>state_core := t\<rparr>)"
proof -
  have inv: "gateway_inv env (state_core y)" "core env (state_core y)" using assms(1) by (simp_all add: sys_inv_def gateway_inv_def)
  show ?thesis by (rule sys_inv_grows [OF assms(1) settles_inv [OF assms(2) inv(1)] grows_settles [OF assms(2) inv(2)]])
qed

lemma sys_inv_forget:
  assumes "sys_inv env y"
  shows "sys_inv env (y\<lparr>verifying := hm_remove session (verifying y)\<rparr>)"
  using assms by (auto simp: sys_inv_def table_simps split: if_splits)

lemma reserved_remove_session:
  assumes inv: "gateway_inv env s" and "reserved s p"
  shows "reserved (snd (remove_session session s)) p"
proof (cases "hm_contains (sessions s) session")
  case True
  note F = remove_session_frame [OF inv True]
  have "unused (snd (remove_session session s)) p" if "unused s p"
    using that F(8) [of p] F(9) by (auto simp: unused_def simp flip: not_Some_eq)
  then show ?thesis
    by (intro reserved_session [OF assms(2)]) (auto simp: F(1) table_simps)
qed (use assms in \<open>simp add: remove_session_absent\<close>)

lemma reserved_remove_sessions:
  "gateway_inv env s \<Longrightarrow> reserved s p \<Longrightarrow> reserved (snd (remove_sessions ss s)) p"
  by (induction ss arbitrary: s) (simp_all add: Let_def case_prod_unfold reserved_remove_session remove_session_inv)

lemma reserved_expire_offers:
  assumes "gateway_inv env s" "reserved s p"
  shows "reserved (snd (expire_offers now s)) p"
proof -
  let ?pids = "map fst (filter (\<lambda>(pid, pipe). offer_expired (limits s) now pipe) (pipes s))"
  let ?t = "snd (snd (expire_pipes ?pids s))"
  have "grows s ?t {}" using assms(1) grows_settles [OF settles_expire_pipes, of env s] by (simp add: gateway_inv_def)
  then have "reserved ?t p" using reserved_grows [OF assms(2)] by simp
  then show ?thesis using reserved_remove_sessions [OF settles_inv [OF settles_expire_pipes assms(1)]]
    by (simp add: expire_offers_def Let_def case_prod_unfold)
qed

lemma apply_frame_inv:
  assumes inv: "gateway_inv env s"
  shows "gateway_inv env (snd (apply_frame session f s)) \<and> grows s (snd (apply_frame session f s)) {}"
proof -
  have core: "core env s" using inv by (simp add: gateway_inv_def)
  have S: "gateway_inv env t \<and> grows s t {}" if "settles env s t" for t
    using settles_inv [OF that inv] grows_settles [OF that core] by simp
  show ?thesis
    using unpublish_inv [OF inv] grows_unpublish [OF core]
    by (cases f) (simp_all add: apply_frame_def inv S settling)
qed

definition session_only :: "session_id \<Rightarrow> gateway_state \<Rightarrow> gateway_state \<Rightarrow> bool" where
  "session_only i s t \<longleftrightarrow> (\<exists>ss rate. t = s\<lparr>sessions := ss, control_rate := rate\<rparr> \<and>
     (\<forall>j. j \<noteq> i \<longrightarrow> hm_get ss j = hm_get (sessions s) j) \<and> (hm_contains ss i \<longleftrightarrow> hm_contains (sessions s) i))"

lemma session_only_refl [simp]: "session_only i s s"
  unfolding session_only_def by (rule exI [of _ "sessions s"], rule exI [of _ "control_rate s"]) simp

lemma session_onlyI:
  assumes "hm_contains (sessions s) i"
  shows "session_only i s (s\<lparr>sessions := hm_insert i e (sessions s)\<rparr>)"
    "session_only i s (s\<lparr>sessions := hm_insert i e (sessions s), control_rate := rate\<rparr>)"
proof -
  show "session_only i s (s\<lparr>sessions := hm_insert i e (sessions s), control_rate := rate\<rparr>)" for rate
    unfolding session_only_def
    by (rule exI [of _ "hm_insert i e (sessions s)"], rule exI [of _ rate]) (use assms in \<open>simp add: table_simps\<close>)
  from this [of "control_rate s"] show "session_only i s (s\<lparr>sessions := hm_insert i e (sessions s)\<rparr>)" by simp
qed

lemma session_only_trans:
  assumes "session_only i s t" "session_only i t u"
  shows "session_only i s u"
proof -
  obtain ss rate where t: "t = s\<lparr>sessions := ss, control_rate := rate\<rparr>" "\<And>j. j \<noteq> i \<Longrightarrow> hm_get ss j = hm_get (sessions s) j"
      "hm_contains ss i \<longleftrightarrow> hm_contains (sessions s) i"
    using assms(1) unfolding session_only_def by blast
  obtain ss' rate' where u: "u = t\<lparr>sessions := ss', control_rate := rate'\<rparr>" "\<And>j. j \<noteq> i \<Longrightarrow> hm_get ss' j = hm_get (sessions t) j"
      "hm_contains ss' i \<longleftrightarrow> hm_contains (sessions t) i"
    using assms(2) unfolding session_only_def by blast
  have "u = s\<lparr>sessions := ss', control_rate := rate'\<rparr>" using t(1) u(1) by simp
  then show ?thesis unfolding session_only_def using t u(2,3) by auto
qed

lemma session_onlyD:
  assumes "session_only i s t"
  shows "\<And>p. unused t p = unused s p" "\<And>j. j \<noteq> i \<Longrightarrow> hm_get (sessions t) j = hm_get (sessions s) j"
    "hm_contains (sessions t) i \<longleftrightarrow> hm_contains (sessions s) i" "draining t = draining s"
    "local_registry t = local_registry s" "pipes t = pipes s" "remote_open_attempts t = remote_open_attempts s"
  using assms by (auto simp: session_only_def unused_def)

lemma admit_control_frame:
  assumes "hm_get (sessions s) i = Some e" "admit_control i now s = (ok, t)"
  shows "session_only i s t" "\<exists>e'. hm_get (sessions t) i = Some e' \<and> highest_connection_id e' = highest_connection_id e"
proof -
  define rate where "rate = snd (try_take now (entry_control_rate e))"
  let ?s = "s\<lparr>sessions := hm_insert i (e\<lparr>entry_control_rate := rate\<rparr>) (sessions s)\<rparr>"
  have cont: "hm_contains (sessions s) i" using assms(1) by simp
  have "t = (if fst (try_take now (entry_control_rate e)) then ?s\<lparr>control_rate := snd (try_take now (control_rate s))\<rparr> else ?s)"
    using assms by (simp add: admit_control_def Let_def case_prod_unfold rate_def split: if_splits)
  then consider "t = ?s" | "t = ?s\<lparr>control_rate := snd (try_take now (control_rate s))\<rparr>" by (meson)
  then have "session_only i s t \<and> hm_get (sessions t) i = Some (e\<lparr>entry_control_rate := rate\<rparr>)"
  proof cases
    case 1
    show ?thesis unfolding 1 using session_onlyI(1) [OF cont] by (simp add: table_simps)
  next
    case 2
    show ?thesis unfolding 2 using session_onlyI(2) [OF cont] by (simp add: table_simps)
  qed
  then show "session_only i s t" "\<exists>e'. hm_get (sessions t) i = Some e' \<and> highest_connection_id e' = highest_connection_id e"
    by simp_all
qed

lemma prepare_frame:
  assumes "prepare_authorization session op now s = (r, t)"
  shows "session_only session s t"
    "r = None \<Longrightarrow> op = ControlDial c d started \<Longrightarrow> \<exists>e e'. hm_get (sessions s) session = Some e \<and>
       (\<forall>h. highest_connection_id e = Some h \<longrightarrow> h < c) \<and> hm_get (sessions t) session = Some e' \<and> highest_connection_id e' = Some c"
    "r = None \<Longrightarrow> \<not> draining s"
proof -
  have *: "session_only session s t \<and> (r = None \<longrightarrow> \<not> draining s) \<and>
     (r = None \<longrightarrow> op = ControlDial c d started \<longrightarrow> (\<exists>e e'. hm_get (sessions s) session = Some e \<and>
       (\<forall>h. highest_connection_id e = Some h \<longrightarrow> h < c) \<and> hm_get (sessions t) session = Some e' \<and> highest_connection_id e' = Some c))"
  proof (cases "hm_get (sessions s) session")
    case (Some e)
    define s1 where "s1 = (case op of ControlDial c _ _ \<Rightarrow>
      s\<lparr>sessions := hm_insert session (e\<lparr>highest_connection_id := Some c\<rparr>) (sessions s)\<rparr> | ControlPublish _ _ \<Rightarrow> s)"
    have one: "session_only session s s1" using Some by (auto simp: s1_def session_onlyI split: control_operation.split)
    obtain e1 where e1: "hm_get (sessions s1) session = Some e1"
        "\<And>c d t. op = ControlDial c d t \<Longrightarrow> highest_connection_id e1 = Some c"
      using Some by (cases op) (auto simp: s1_def table_simps)
    obtain ok s2 where ad: "admit_control session now s1 = (ok, s2)" by fastforce
    note A = admit_control_frame [OF e1(1) ad]
    have two: "session_only session s s2" by (rule session_only_trans [OF one A(1)])
    have cases: "t = s \<and> r \<noteq> None \<or> t = s1 \<and> r \<noteq> None \<or>
       t = s2 \<and> \<not> draining s \<and> (case op of ControlDial c _ _ \<Rightarrow> (\<forall>h. highest_connection_id e = Some h \<longrightarrow> h < c) | _ \<Rightarrow> True)"
      using assms Some ad session_onlyD(4) [OF one]
      by (cases op) (auto simp: prepare_authorization_def s1_def Let_def not_le split: option.splits if_splits bool.splits)
    then show ?thesis using Some one two e1(2) A(2) by auto
  qed (use assms in \<open>auto simp: prepare_authorization_def\<close>)
  then show "session_only session s t" "r = None \<Longrightarrow> \<not> draining s"
    "r = None \<Longrightarrow> op = ControlDial c d started \<Longrightarrow> \<exists>e e'. hm_get (sessions s) session = Some e \<and>
       (\<forall>h. highest_connection_id e = Some h \<longrightarrow> h < c) \<and> hm_get (sessions t) session = Some e' \<and> highest_connection_id e' = Some c"
    by blast+
qed

lemma fresh_connection:
  assumes inv: "gateway_inv env s" and live: "hm_contains (sessions s) (origin_session_id p)" and new: "\<not> dialed_by s p"
  shows "unused s p"
proof -
  have core: "core env s" and anch: "anchored env s" using inv by (auto simp: gateway_inv_def)
  note A = anchoredD [OF anch]
  have "hm_get (pipes s) p \<noteq> Some e" for e
  proof
    assume e: "hm_get (pipes s) p = Some e"
    show False
    proof (cases "dialer e")
      case (Sdk d)
      then show False using A(4) [OF e] new by blast
    next
      case (Peer k)
      then show False using coreD(3) [OF core e] A(2) [OF live] by (auto simp: pipe_ok_def split: pipe_endpoint.splits)
    qed
  qed
  moreover have "hm_get (remote_open_attempts s) oi \<noteq> Some a" if "pid_of oi = p" for oi a
    using A(7) [of oi a] unused_pid_in_use(1) [OF core, of oi a] that new by auto
  ultimately show ?thesis by (auto simp: unused_def simp flip: not_Some_eq)
qed

lemma control_sys_inv:
  assumes inv: "sys_inv env y" and en: "\<not> hm_contains (verifying y) session"
    and prep: "prepare_authorization session op now (state_core y) = (r, t)"
  shows "sys_inv env (y\<lparr>state_core := t\<rparr>)"
    "r = None \<Longrightarrow> sys_inv env (y\<lparr>state_core := t, verifying := hm_insert session op (verifying y)\<rparr>)"
proof -
  let ?s = "state_core y"
  have gi: "gateway_inv env ?s" using inv by (simp add: sys_inv_def)
  note F = prepare_frame [OF prep]
  note D = session_onlyD [OF F(1)]
  have gt: "gateway_inv env t" using prepare_authorization_inv [OF gi, of session op now] prep by simp
  show one: "sys_inv env (y\<lparr>state_core := t\<rparr>)"
  proof (rule sys_inv_on_core [OF inv gt])
    fix j c assume "hm_contains (verifying y) j" and r: "reserved ?s (pipe_id_new j c)"
    then have "j \<noteq> session" using en by auto
    then show "reserved t (pipe_id_new j c)" by (intro reserved_session [OF r]) (simp_all add: D)
  qed
  show "sys_inv env (y\<lparr>state_core := t, verifying := hm_insert session op (verifying y)\<rparr>)" if r: "r = None"
  proof -
    have "op_reserved t session op"
    proof (cases op)
      case (ControlDial c d started)
      obtain e e' where e: "hm_get (sessions ?s) session = Some e" "\<And>h. highest_connection_id e = Some h \<Longrightarrow> h < c"
          "hm_get (sessions t) session = Some e'" "highest_connection_id e' = Some c"
        using F(2) [OF r ControlDial] by blast
      have "\<not> dialed_by ?s (pipe_id_new session c)" using e(1,2) by (auto simp: dialed_by_def)
      then have "unused t (pipe_id_new session c)" using fresh_connection [OF gi] e(1) by (simp add: D(1))
      then show ?thesis using e(3,4) by (simp add: ControlDial reserved_def dialed_by_def)
    qed simp
    then show ?thesis using one by (auto simp: sys_inv_def table_simps split: if_splits)
  qed
qed

lemma admit_sys_inv:
  assumes inv: "sys_inv env y" and en: "\<And>i. i \<in> set draws \<Longrightarrow> local_session env i \<and> \<not> hm_contains (verifying y) i"
    and add: "add_session draws w token now (state_core y) = Some (r, t)"
  shows "sys_inv env (y\<lparr>state_core := t\<rparr>)"
proof -
  have gi: "gateway_inv env (state_core y)" using inv by (simp add: sys_inv_def)
  have gt: "gateway_inv env t" using en add_session_inv [OF gi _ add] by blast
  show ?thesis
    using add
  proof (cases rule: add_session_cases)
    case (2 i e)
    show ?thesis
    proof (rule sys_inv_on_core [OF inv gt])
      fix j c assume "hm_contains (verifying y) j" and r: "reserved (state_core y) (pipe_id_new j c)"
      then have "j \<noteq> i" using en 2(2) by auto
      then show "reserved t (pipe_id_new j c)" by (intro reserved_session [OF r]) (simp_all add: 2(5) table_simps unused_def)
    qed
  qed (use inv in simp)
qed

lemma commit_inv:
  assumes inv: "gateway_inv env s" and res: "op_reserved s session op"
    and com: "commit_authorized draws session op verified now s = Some (acts, t)"
  shows "gateway_inv env t" "grows s t {p. origin_session_id p = session}"
proof -
  have "gateway_inv env t \<and> grows s t {p. origin_session_id p = session}"
  proof (cases "hm_contains (sessions s) session \<and> authorizes verified op now")
    case True
    show ?thesis
    proof (cases op)
      case (ControlPublish request d)
      then have pub: "publish draws session request d s = Some (acts, t)"
        using com True by (auto simp: commit_authorized_def apply_control_at_def)
      show ?thesis using publish_inv [OF inv _ pub] True grows_mono [OF grows_publish [OF pub]] by simp
    next
      case (ControlDial c d started)
      then have t: "t = snd (dial session c d now started s)"
        using com True by (auto simp: commit_authorized_def apply_control_at_def)
      have "dialed_by s (pipe_id_new session c)" "unused s (pipe_id_new session c)"
        using res True ControlDial by (simp_all add: reserved_def)
      then show ?thesis unfolding t
        using dial_inv [OF inv] grows_mono [OF grows_dial [of s session c d now started]] by simp
    qed
  next
    case False
    then have "t = s" using com by (auto simp: commit_authorized_def split: if_splits)
    then show ?thesis using inv by simp
  qed
  then show "gateway_inv env t" "grows s t {p. origin_session_id p = session}" by simp_all
qed

lemma commit_sys_inv:
  assumes inv: "sys_inv env y" and op: "hm_get (verifying y) session = Some op"
    and com: "commit_authorized draws session op verified now (state_core y) = Some (acts, t)"
  shows "sys_inv env (y\<lparr>state_core := t, verifying := hm_remove session (verifying y)\<rparr>)"
proof -
  let ?y = "y\<lparr>verifying := hm_remove session (verifying y)\<rparr>"
  have gi: "gateway_inv env (state_core y)" and res: "op_reserved (state_core y) session op"
    using inv op by (auto simp: sys_inv_def)
  note C = commit_inv [OF gi res com]
  have "sys_inv env (?y\<lparr>state_core := t\<rparr>)"
  proof (rule sys_inv_on_core [OF sys_inv_forget [OF inv] C(1)])
    fix j c assume "hm_contains (verifying ?y) j" and r: "reserved (state_core ?y) (pipe_id_new j c)"
    then have "j \<noteq> session" by (auto simp: table_simps split: if_splits)
    then show "reserved t (pipe_id_new j c)" using r by (intro reserved_grows [OF _ C(2)]) simp_all
  qed
  moreover have "?y\<lparr>state_core := t\<rparr> = y\<lparr>state_core := t, verifying := hm_remove session (verifying y)\<rparr>" by (cases y) simp
  ultimately show ?thesis by simp
qed

lemma settles_lose_streams [settling]: "settles env s (snd (lose_streams ls s))"
  by (induction ls arbitrary: s)
    (auto simp: Let_def case_prod_unfold intro: settles_trans settles_peer_transport_lost_stream)

lemma peer_event_sys_inv:
  assumes inv: "sys_inv env y" and en: "peer_event_enabled env e"
  shows "sys_inv env (y\<lparr>state_core := snd (handle_peer_event now e (state_core y))\<rparr>)"
proof -
  have gi: "gateway_inv env (state_core y)" and core: "core env (state_core y)"
    using inv by (simp_all add: sys_inv_def gateway_inv_def)
  note S = sys_inv_settles [OF inv]
  show ?thesis
  proof (cases e)
    case (EventIncomingOpen k oi d relay b)
    then have carr: "carries env k = oi" "\<not> local_session env (origin_session oi)" using en by simp_all
    let ?t = "snd (receive_peer_open_at k oi d relay b now (state_core y))"
    have "sys_inv env (y\<lparr>state_core := ?t\<rparr>)"
    proof (rule sys_inv_on_core [OF inv receive_peer_open_inv [OF gi carr]])
      fix j c assume r: "reserved (state_core y) (pipe_id_new j c)"
      show "reserved ?t (pipe_id_new j c)"
      proof (cases "j = origin_session oi")
        case True
        then have "\<not> hm_contains (sessions (state_core y)) j"
          using carr(2) anchoredD(2) [of env "state_core y" j] gi unfolding gateway_inv_def by blast
        then show ?thesis using grows_receive [of "state_core y" k oi d relay b now]
          by (simp add: reserved_def grows_def)
      qed (use r in \<open>auto intro!: reserved_grows [OF _ grows_receive] simp: pid_of_def pipe_id_new_def\<close>)
    qed
    then show ?thesis by (simp add: EventIncomingOpen)
  next
    case (EventOpened k oi)
    then have "carries env k = oi" using en by simp
    then show ?thesis using sys_inv_grows [OF inv peer_opened_inv [OF gi] grows_peer_opened [OF core]] EventOpened by simp
  qed (simp_all add: S settling case_prod_unfold)
qed

lemma step_sys_inv:
  assumes inv: "sys_inv env y" and step: "gateway_step env y c z"
  shows "sys_inv env z"
proof -
  have gi: "gateway_inv env (state_core y)" and core: "core env (state_core y)"
    using inv by (simp_all add: sys_inv_def gateway_inv_def)
  obtain acts where en: "call_enabled env y c" and z: "gateway_call_step c y = Some (acts, z)"
    using step by (auto simp: gateway_step_def)
  note S = sys_inv_settles [OF inv]
  show ?thesis
  proof (cases c)
    case (Admit draws w token now)
    then obtain r t where t: "add_session draws w token now (state_core y) = Some (r, t)" "z = y\<lparr>state_core := t\<rparr>"
      using z by (auto split: option.splits)
    show ?thesis unfolding t(2) using en Admit by (intro admit_sys_inv [OF inv _ t(1)]) simp
  next
    case (Control session op now)
    then show ?thesis using z en control_sys_inv [OF inv, of session op now]
      by (auto split: prod.splits option.splits)
  next
    case (Commit draws session verified now)
    then show ?thesis using z commit_sys_inv [OF inv] by (auto split: option.splits)
  next
    case (FrameIn session f now)
    then have "z = y\<lparr>state_core := snd (apply_frame session f (state_core y))\<rparr>"
      using z en by (auto simp: handle_frame_def isl_def split: prod.splits sum.splits) (cases f; simp)+
    then show ?thesis using apply_frame_inv [OF gi, of session f] sys_inv_grows [OF inv] by simp
  next
    case (Cleanup session)
    then show ?thesis using z remove_session_inv [OF gi] reserved_remove_session [OF gi]
      by (auto simp: on_core_def intro!: sys_inv_on_core [OF inv])
  next
    case (Expire now)
    then show ?thesis using z expire_offers_inv [OF gi] reserved_expire_offers [OF gi]
      by (auto simp: on_core_def intro!: sys_inv_on_core [OF inv])
  next
    case Drain
    then show ?thesis using z begin_draining_inv [OF gi]
      by (auto simp: on_core_def begin_draining_def reserved_def dialed_by_def unused_def intro!: sys_inv_on_core [OF inv])
  next
    case (RouteFound oi bs now)
    then show ?thesis using z sys_inv_grows [OF inv route_resolved_inv [OF gi] grows_route_resolved [OF core]] by (auto simp: on_core_def)
  next
    case (PeerEventIn now e)
    then show ?thesis using z en peer_event_sys_inv [OF inv] by (auto simp: on_core_def)
  qed (use z en inv S sys_inv_forget [OF inv] in \<open>auto simp: on_core_def settling settles_peer_open_committed split: option.splits\<close>)
qed

lemma gateway_build_inv: "gateway_inv env (gateway_build l g now)"
proof -
  have "binding_count_of registry_default = 0" "by_id registry_default = []" by (simp_all add: binding_count_of_def registry_default_def)
  then show ?thesis
    by (auto simp: gateway_build_def gateway_inv_def core_def anchored_def tables_ok_def counters_ok_def peer_index_ok_def
        active_spec_def attempts_ok_def limits_ok_def hm_ok_Nil registry_ok_default hm_count_def fun_eq_iff)
qed

lemma init_sys_inv: "gateway_init y \<Longrightarrow> sys_inv env y"
  by (auto simp: gateway_init_def sys_inv_def gateway_build_inv)

abbreviation gateway_reach :: "peer_env \<Rightarrow> gateway_sys \<Rightarrow> bool" where
  "gateway_reach env \<equiv> reach gateway_init (gateway_step env)"

interpretation gateway: inductive_invariant gateway_init "gateway_step env" "sys_inv env" for env
  by unfold_locales (auto simp: init_sys_inv intro: step_sys_inv)

lemma run_reach:
  assumes "gateway_run env cs y = Some (acts, z)" "gateway_reach env y"
  shows "gateway_reach env z"
  using assms
proof (induction cs arbitrary: y acts)
  case (Cons c cs)
  then obtain a y1 rest where "gateway_step env y c y1" "gateway_run env cs y1 = Some (rest, z)"
    by (auto simp: gateway_step_def split: if_splits option.splits)
  then show ?case using Cons reach.reach_step by metis
qed simp

end
