(* ===== verification/Gateway_Sample.thy ===== *)
theory Gateway_Sample
  imports Gateway_System "HOL-Library.Code_Target_Nat"
begin

text \<open>
  A concrete run of a gateway: two sessions are admitted, one publishes a destination, the other dials
  it, the offer is accepted. Its states are the inputs of the witnesses of the gateway's properties.
\<close>

section \<open>A sample run\<close>

definition sample_env :: peer_env where
  "sample_env = \<lparr>carries = (\<lambda>k. open_identity_new (peer_gateway_id k) 900 (key_stream_id k)), local_session = (\<lambda>i. i < 100)\<rparr>"

definition sample_limits :: gateway_limits where
  "sample_limits = \<lparr>control_rate_per_second = 10, control_burst = 10, session_control_rate_per_second = 10,
     session_control_burst = 10, max_sessions = 4, max_bindings = 4, max_pending_offers = 4,
     max_remote_dial_attempts = 2, max_live_pipes = 4, offer_timeout = 100\<rparr>"

definition sample_verified :: "action \<Rightarrow> verified_authorization" where
  "sample_verified a = \<lparr>verified_destination = sample_destination, verified_action = a, verified_expires_at = 1000\<rparr>"

definition sample_start :: gateway_sys where
  "sample_start = \<lparr>state_core = gateway_build sample_limits (Some 77) 0, verifying = []\<rparr>"

definition sample_calls :: "gateway_call list" where
  "sample_calls =
     [Admit [1] 10 20 0, Admit [2] 11 21 0,
      Control 2 (ControlPublish 1 sample_destination) 0, Commit [50] 2 (sample_verified ActionPublish) 1,
      Control 1 (ControlDial 7 sample_destination 1) 1]"

definition sample_pid :: pipe_id where
  "sample_pid = pipe_id_new 1 7"

definition sample_pipe :: "pipe_phase \<Rightarrow> pipe_entry" where
  "sample_pipe ph = \<lparr>dialer = Sdk 1, acceptor = Sdk 2, pipe_binding_id = 50, pipe_open_identity = None, phase = ph,
     offered_at = 2, open_started_at = Some 1, dialer_finished = False, acceptor_finished = False\<rparr>"

definition sample_core :: "(destination, u64) hashmap \<Rightarrow> (pipe_id, pipe_entry) hashmap \<Rightarrow> nat \<Rightarrow> nat \<Rightarrow> gateway_state" where
  "sample_core cursors ps pending live =
     \<lparr>sessions = [(1, \<lparr>entry_sender = 10, entry_cancellation = 20, highest_connection_id = Some 7,
                   entry_control_rate = \<lparr>per_second = 10, capacity = 10000000000, credit = 9000000000, updated_at = 1\<rparr>\<rparr>),
                  (2, \<lparr>entry_sender = 11, entry_cancellation = 21, highest_connection_id = None,
                   entry_control_rate = \<lparr>per_second = 10, capacity = 10000000000, credit = 9000000000, updated_at = 0\<rparr>\<rparr>)],
      local_registry =
        \<lparr>by_id = [(50, \<lparr>bnd_id = 50, bnd_destination = sample_destination, bnd_session_id = 2\<rparr>)],
         by_destination = [(sample_destination, [50])], by_session = [(2, [50])], next_selection = cursors\<rparr>,
      pipes = ps, peer_pipes = [], active_peer_opens = [], remote_open_attempts = [], pending_offer_count = pending,
      live_pipe_count = live, originated_pipe_count = live, draining = False, gateway_id_of = Some 77, limits = sample_limits,
      control_rate = \<lparr>per_second = 10, capacity = 10000000000, credit = 8000000010, updated_at = 1\<rparr>, cancelled = []\<rparr>"

definition sample_dialing :: gateway_sys where
  "sample_dialing = \<lparr>state_core = sample_core [] [] 0 0, verifying = [(1, ControlDial 7 sample_destination 1)]\<rparr>"

definition sample_offered :: gateway_sys where
  "sample_offered = \<lparr>state_core = sample_core [(sample_destination, 1)] [(sample_pid, sample_pipe Offered)] 1 0, verifying = []\<rparr>"

definition sample_open :: gateway_sys where
  "sample_open = \<lparr>state_core = sample_core [(sample_destination, 1)] [(sample_pid, sample_pipe Opened)] 0 1, verifying = []\<rparr>"

definition sample_commit :: gateway_call where
  "sample_commit = Commit [] 1 (sample_verified ActionDial) 2"

lemma sample_run: "map_option snd (gateway_run sample_env sample_calls sample_start) = Some sample_dialing"
  by code_simp

lemma sample_dialing_reach: "gateway_reach sample_env sample_dialing"
proof -
  have "gateway_reach sample_env sample_start"
    by (rule reach.reach_start) (auto simp: gateway_init_def sample_start_def)
  then show ?thesis using run_reach sample_run by (auto simp: map_option_eq_Some)
qed

lemma sample_commit_step: "map_option snd (gateway_call_step sample_commit sample_dialing) = Some sample_offered"
  by code_simp

lemma sample_commits: "gateway_step sample_env sample_dialing sample_commit sample_offered"
  using sample_commit_step by (auto simp: gateway_step_def sample_commit_def map_option_eq_Some)

lemma sample_offered_reach: "gateway_reach sample_env sample_offered"
  using reach.reach_step [OF sample_dialing_reach sample_commits] .

lemma sample_open_step: "gateway_call_step (FrameIn 2 (FrameOfferAccepted sample_pid) 3) sample_offered =
    Some (send_to (state_core sample_open) 1 (FrameOpened sample_pid), sample_open)"
  by code_simp

lemma sample_accepts: "gateway_step sample_env sample_offered (FrameIn 2 (FrameOfferAccepted sample_pid) 3) sample_open"
proof -
  have "call_enabled sample_env sample_offered (FrameIn 2 (FrameOfferAccepted sample_pid) 3)"
    by (simp add: sample_offered_def)
  then show ?thesis using sample_open_step by (auto simp: gateway_step_def)
qed

lemma sample_open_reach: "gateway_reach sample_env sample_open"
  using reach.reach_step [OF sample_offered_reach sample_accepts] .

definition sample_draining :: gateway_sys where
  "sample_draining = sample_open\<lparr>state_core := (state_core sample_open)\<lparr>draining := True\<rparr>\<rparr>"

lemma sample_draining_reach: "gateway_reach sample_env sample_draining"
proof (rule reach.reach_step [OF sample_open_reach])
  have "\<not> draining (state_core sample_open)" by (simp add: sample_open_def sample_core_def)
  then show "gateway_step sample_env sample_open Drain sample_draining"
    by (simp add: gateway_step_def on_core_def begin_draining_def sample_draining_def)
qed

end
