(* ===== verification/Gateway_Properties.thy ===== *)
theory Gateway_Properties
  imports Gateway_Sample
begin

text \<open>
  What the reachable states of a gateway guarantee: accounting, ownership, relaying, authorization,
  draining and cleanup. Every statement rests on the invariant of the interpretation \<open>gateway\<close>.
\<close>

lemma hm_count_card:
  assumes "hm_ok m"
  shows "hm_count P m = card {k. \<exists>v. hm_get m k = Some v \<and> P v}"
proof -
  have d: "distinct (map fst (filter (\<lambda>e. P (snd e)) m))"
    using assms by (simp add: hm_ok_def distinct_map_filter)
  have "{k. \<exists>v. hm_get m k = Some v \<and> P v} = set (map fst (filter (\<lambda>e. P (snd e)) m))"
    using assms by (force simp: hm_get_in_set)
  then show ?thesis using distinct_card [OF d] by (simp add: hm_count_def)
qed

lemma reach_core:
  assumes "gateway_reach env y"
  shows "gateway_inv env (state_core y)" "core env (state_core y)" "anchored env (state_core y)"
  using gateway.reach_inv [OF assms] by (auto simp: sys_inv_def gateway_inv_def)

section \<open>Accounting\<close>

text \<open>
  C9. The gateway's accounting is exact. In every reachable state the reported counts are the numbers of
  offered pipes, open pipes, locally dialed open pipes, remote open attempts, sessions and bindings
  the tables hold, so that no counter ever underflows, and each stays within its configured limit.
\<close>
theorem gateway_accounting:
  assumes "gateway_reach env y" and "s = state_core y"
  shows "snapshot_pending_offers (snapshot s) = card {p. \<exists>e. hm_get (pipes s) p = Some e \<and> phase e = Offered} \<and>
    snapshot_live_pipes (snapshot s) = card {p. \<exists>e. hm_get (pipes s) p = Some e \<and> phase e = Opened} \<and>
    snapshot_originated_pipes (snapshot s) =
      card {p. \<exists>e. hm_get (pipes s) p = Some e \<and> phase e = Opened \<and> sdk_session (dialer e) \<noteq> None} \<and>
    snapshot_remote_open_attempts (snapshot s) = card (dom (hm_get (remote_open_attempts s))) \<and>
    snapshot_sessions (snapshot s) = card (dom (hm_get (sessions s))) \<and>
    snapshot_bindings (snapshot s) = card (dom (bnds (local_registry s))) \<and>
    snapshot_pending_offers (snapshot s) + snapshot_remote_open_attempts (snapshot s) \<le> max_pending_offers (limits s) \<and>
    snapshot_remote_open_attempts (snapshot s) \<le> max_remote_dial_attempts (limits s) \<and>
    snapshot_live_pipes (snapshot s) \<le> max_live_pipes (limits s) \<and>
    snapshot_sessions (snapshot s) \<le> max_sessions (limits s) \<and>
    snapshot_bindings (snapshot s) \<le> max_bindings (limits s)"
proof -
  note I = reach_core [OF assms(1), folded assms(2)]
  note tabs = coreD(1) [OF I(2), unfolded tables_ok_def] and reg = registry_okD(1) [OF anchoredD(1) [OF I(3)]]
  have orig: "originated e \<longleftrightarrow> sdk_session (dialer e) \<noteq> None" for e
    by (cases "dialer e") (simp_all add: originated_def)
  show ?thesis
    using coreD(2,7) [OF I(2)] anchoredD(8,9) [OF I(3)] tabs reg
    by (simp add: snapshot_def snapshot_from_parts_def counters_ok_def limits_ok_def hm_count_card card_dom_hm
        binding_count_of_def orig)
qed

theorem gateway_accounting_witness:
  "snapshot_live_pipes (snapshot (state_core sample_open)) =
     card {p. \<exists>e. hm_get (pipes (state_core sample_open)) p = Some e \<and> phase e = Opened} \<and>
   snapshot_live_pipes (snapshot (state_core sample_open)) = 1"
  using gateway_accounting [OF sample_open_reach refl]
  by (simp add: snapshot_def snapshot_from_parts_def sample_open_def sample_core_def)

section \<open>Ownership\<close>

text \<open>
  C4. Pipes belong to live endpoints. In every reachable state each pipe joins two different endpoints, at
  least one of them a session of this gateway; each such session is live; a local dialer is the
  session its identifier names; an offer is backed by a current binding of the session it was made
  to; a binding belongs to a live session; and the index by stream key holds exactly the peer pipes.
\<close>
theorem gateway_ownership:
  assumes "gateway_reach env y" and "s = state_core y"
  shows "(\<forall>p e. hm_get (pipes s) p = Some e \<longrightarrow>
      dialer e \<noteq> acceptor e \<and> (sdk_session (dialer e) \<noteq> None \<or> sdk_session (acceptor e) \<noteq> None) \<and>
      (\<forall>i. Sdk i \<in> {dialer e, acceptor e} \<longrightarrow> hm_contains (sessions s) i) \<and>
      (\<forall>i. dialer e = Sdk i \<longrightarrow> i = origin_session_id p) \<and>
      (phase e = Offered \<longrightarrow> (\<exists>b. bnds (local_registry s) (pipe_binding_id e) = Some b \<and> acceptor e = Sdk (bnd_session_id b)))) \<and>
    (\<forall>i b. bnds (local_registry s) i = Some b \<longrightarrow> hm_contains (sessions s) (bnd_session_id b)) \<and>
    (\<forall>k p. hm_get (peer_pipes s) k = Some p \<longleftrightarrow>
       (\<exists>e. hm_get (pipes s) p = Some e \<and> Peer k \<in> {dialer e, acceptor e}))"
proof -
  note I = reach_core [OF assms(1), folded assms(2)]
  note A = anchoredD [OF I(3)]
  have P: "dialer e \<noteq> acceptor e \<and> (sdk_session (dialer e) \<noteq> None \<or> sdk_session (acceptor e) \<noteq> None) \<and>
      (\<forall>i. Sdk i \<in> {dialer e, acceptor e} \<longrightarrow> hm_contains (sessions s) i) \<and>
      (\<forall>i. dialer e = Sdk i \<longrightarrow> i = origin_session_id p) \<and>
      (phase e = Offered \<longrightarrow> (\<exists>b. bnds (local_registry s) (pipe_binding_id e) = Some b \<and> acceptor e = Sdk (bnd_session_id b)))"
    if e: "hm_get (pipes s) p = Some e" for p e
  proof -
    have d: "hm_contains (sessions s) (origin_session_id p)" if "dialer e = Sdk i" for i
      using A(4) [OF e that] by (auto simp: dialed_by_def)
    show ?thesis using coreD(3) [OF I(2) e] d A(5,6) [OF e]
      by (cases "dialer e"; cases "acceptor e") (auto simp: pipe_ok_def)
  qed
  have K: "pipe_peer_key e = Some k \<longleftrightarrow> Peer k \<in> {dialer e, acceptor e}" if e: "hm_get (pipes s) p = Some e" for p e k
    using coreD(3) [OF I(2) e] by (cases "dialer e"; cases "acceptor e") (auto simp: pipe_ok_def pipe_peer_key_def)
  have "hm_get (peer_pipes s) k = Some p \<longleftrightarrow> (\<exists>e. hm_get (pipes s) p = Some e \<and> Peer k \<in> {dialer e, acceptor e})" for k p
    using coreD(4) [OF I(2)] K by (auto simp: peer_index_ok_def)
  then show ?thesis using P A(3) by blast
qed

theorem gateway_ownership_witness:
  "hm_get (pipes (state_core sample_offered)) sample_pid = Some (sample_pipe Offered) \<and>
   (\<exists>b. bnds (local_registry (state_core sample_offered)) 50 = Some b \<and> bnd_session_id b = 2)"
proof -
  have p: "hm_get (pipes (state_core sample_offered)) sample_pid = Some (sample_pipe Offered)"
    by (simp add: sample_offered_def sample_core_def)
  have "phase (sample_pipe Offered) = Offered \<longrightarrow> (\<exists>b. bnds (local_registry (state_core sample_offered))
      (pipe_binding_id (sample_pipe Offered)) = Some b \<and> acceptor (sample_pipe Offered) = Sdk (bnd_session_id b))"
    using gateway_ownership [OF sample_offered_reach refl] p by blast
  then show ?thesis using p by (auto simp: sample_pipe_def)
qed

section \<open>Relaying\<close>

text \<open>What an endpoint of an open pipe can say, as a frame of its session or as an event of its peer stream.\<close>

datatype pipe_signal = SigData bytes | SigFin | SigClose | SigReset error_code string

fun signal_frame :: "pipe_id \<Rightarrow> pipe_signal \<Rightarrow> frame" where
  "signal_frame p (SigData bs) = FrameData p bs"
| "signal_frame p SigFin = FrameFin p"
| "signal_frame p SigClose = FrameClose p"
| "signal_frame p (SigReset code message) = FrameReset p code message"

fun signal_event :: "peer_stream_key \<Rightarrow> pipe_signal \<Rightarrow> peer_event" where
  "signal_event k (SigData bs) = EventData k bs"
| "signal_event k SigFin = EventFin k"
| "signal_event k SigClose = EventClose k"
| "signal_event k (SigReset code message) = EventReset k code message"

fun signal_call :: "pipe_endpoint \<Rightarrow> pipe_id \<Rightarrow> pipe_signal \<Rightarrow> instant \<Rightarrow> gateway_call" where
  "signal_call (Sdk i) p sig now = FrameIn i (signal_frame p sig) now"
| "signal_call (Peer k) p sig now = PeerEventIn now (signal_event k sig)"

text \<open>The signal an action delivers and to whom; SDK frames name their pipe, peer frames their stream.\<close>

fun signal_to :: "gateway_action \<Rightarrow> (pipe_endpoint \<times> pipe_id option \<times> pipe_signal) option" where
  "signal_to (SendSdkFrame d) =
     (case delivery_frame d of
        FrameData q bs \<Rightarrow> Some (Sdk (delivery_target d), Some q, SigData bs)
      | FrameFin q \<Rightarrow> Some (Sdk (delivery_target d), Some q, SigFin)
      | FrameClose q \<Rightarrow> Some (Sdk (delivery_target d), Some q, SigClose)
      | FrameReset q code message \<Rightarrow> Some (Sdk (delivery_target d), Some q, SigReset code message)
      | _ \<Rightarrow> None)"
| "signal_to (SendPeerFrame (PeerData k bs)) = Some (Peer k, None, SigData bs)"
| "signal_to (SendPeerFrame (PeerFin k)) = Some (Peer k, None, SigFin)"
| "signal_to (SendPeerFrame (PeerClose k)) = Some (Peer k, None, SigClose)"
| "signal_to (SendPeerFrame (PeerReset k code message)) = Some (Peer k, None, SigReset code message)"
| "signal_to _ = None"

definition addressed :: "pipe_endpoint \<Rightarrow> pipe_id \<Rightarrow> pipe_signal \<Rightarrow> (pipe_endpoint \<times> pipe_id option \<times> pipe_signal) option" where
  "addressed e p sig = Some (e, (case e of Sdk _ \<Rightarrow> Some p | Peer _ \<Rightarrow> None), sig)"

definition reachable_end :: "gateway_state \<Rightarrow> pipe_endpoint \<Rightarrow> bool" where
  "reachable_end s e \<longleftrightarrow> (\<forall>i. e = Sdk i \<longrightarrow> hm_contains (sessions s) i)"

lemma endpoint_signals:
  assumes "reachable_end s e"
  shows "map signal_to (endpoint_data s e p bs) = [addressed e p (SigData bs)]"
    "map signal_to (endpoint_fin s e p) = [addressed e p SigFin]"
    "map signal_to (endpoint_close s e p) = [addressed e p SigClose]"
    "map signal_to (endpoint_reset s e p code message) = [addressed e p (SigReset code message)]"
  using assms by (cases e; auto simp: reachable_end_def endpoint_data_def endpoint_fin_def endpoint_close_def endpoint_reset_def
      send_to_def to_session_def addressed_def)+

fun relay_signal :: "pipe_endpoint \<Rightarrow> pipe_id \<Rightarrow> pipe_signal \<Rightarrow> gateway_state \<Rightarrow> gateway_action list transition" where
  "relay_signal e p (SigData bs) s = relay_data e p bs s"
| "relay_signal e p SigFin s = relay_fin e p s"
| "relay_signal e p SigClose s = relay_close e p s"
| "relay_signal e p (SigReset code message) s = relay_reset e p code message s"

lemma signal_call_relays:
  assumes "hm_get (pipes (state_core y)) p = Some pipe" "phase pipe = Opened" "e \<in> {dialer pipe, acceptor pipe}"
    and "reachable_end (state_core y) e" "\<And>k. e = Peer k \<Longrightarrow> hm_get (peer_pipes (state_core y)) k = Some p"
  shows "gateway_call_step (signal_call e p sig now) y = on_core y (relay_signal e p sig (state_core y))"
  using assms
  by (cases e; cases sig)
    (auto simp: handle_frame_def apply_frame_def pipe_data_def pipe_fin_def pipe_close_def pipe_reset_def sdk_endpoint_def
      ensure_sdk_owner_def on_core_def ok_actions_def reachable_end_def peer_data_def peer_fin_def peer_close_def peer_reset_def)

definition finish :: "pipe_endpoint \<Rightarrow> pipe_entry \<Rightarrow> pipe_entry" where
  "finish e pipe = (if dialer pipe = e then pipe\<lparr>dialer_finished := True\<rparr> else pipe\<lparr>acceptor_finished := True\<rparr>)"

lemma removed_pipes:
  "hm_get (pipes (snd (remove_pipe p s))) = (hm_get (pipes s))(p := None)"
  "sessions (snd (remove_pipe p s)) = sessions s"
  using remove_pipe_snd [of s p] by (simp_all add: hm_get_remove_fun same_rest_def)

lemma reachable_removed [simp]:
  "reachable_end (snd (remove_pipe p s)) e = reachable_end s e"
  "reachable_end (s\<lparr>pipes := ps\<rparr>) e = reachable_end s e"
  by (simp_all add: reachable_end_def removed_pipes)

lemma protocol_reset_exact:
  assumes "hm_get (pipes s) p = Some pipe" "reachable_end s (dialer pipe)" "reachable_end s (acceptor pipe)"
  shows "map signal_to (fst (protocol_reset p message s)) =
      [addressed (dialer pipe) p (SigReset ProtocolError message), addressed (acceptor pipe) p (SigReset ProtocolError message)]"
    "hm_get (pipes (snd (protocol_reset p message s))) = (hm_get (pipes s))(p := None)"
proof -
  obtain t where t: "remove_pipe p s = (Some pipe, t)" using assms(1) remove_pipe_frame [of p s] by (cases "remove_pipe p s") auto
  then have "reachable_end t e = reachable_end s e" for e using reachable_removed(1) [of p s e] by simp
  then show "map signal_to (fst (protocol_reset p message s)) =
      [addressed (dialer pipe) p (SigReset ProtocolError message), addressed (acceptor pipe) p (SigReset ProtocolError message)]"
    using assms(2,3) endpoint_signals(4) [of t] by (simp add: protocol_reset_def t)
  show "hm_get (pipes (snd (protocol_reset p message s))) = (hm_get (pipes s))(p := None)"
    using removed_pipes(1) [of p s] by (simp add: protocol_reset_def t)
qed

lemma relay_signal_exact:
  assumes pipe: "hm_get (pipes s) p = Some pipe" "phase pipe = Opened" "dialer pipe \<noteq> acceptor pipe"
    and side: "pipe_side pipe e = Some (other, fin)" "pipe_side pipe other = Some (e, ofin)"
    and ends: "reachable_end s (dialer pipe)" "reachable_end s (acceptor pipe)"
    and r: "relay_signal e p sig s = (acts, t)"
  shows "(case sig of
      SigData bs \<Rightarrow> if fin
        then (\<forall>target \<in> {dialer pipe, acceptor pipe}. \<exists>message. addressed target p (SigReset ProtocolError message) \<in> set (map signal_to acts)) \<and>
             hm_get (pipes t) = (hm_get (pipes s))(p := None)
        else map signal_to acts = [addressed other p (SigData bs)] \<and> t = s
    | SigFin \<Rightarrow> if fin then acts = [] \<and> t = s
        else map signal_to acts = [addressed other p SigFin] \<and>
             hm_get (pipes t) = (hm_get (pipes s))(p := if ofin then None else Some (finish e pipe))
    | _ \<Rightarrow> map signal_to acts = [addressed other p sig] \<and> hm_get (pipes t) = (hm_get (pipes s))(p := None))"
proof -
  have live: "reachable_end s other" using side(2) ends by (auto simp: pipe_side_def split: if_splits)
  have o: "(if dialer pipe = e then acceptor_finished pipe else dialer_finished pipe) = ofin"
    using side pipe(3) by (auto simp: pipe_side_def split: if_splits)
  show ?thesis
  proof (cases sig)
    case (SigData bs)
    then show ?thesis
      using r pipe side(1) live protocol_reset_exact [OF pipe(1) ends, of "''DATA is not valid in the current Pipe state''"]
      by (auto simp: relay_data_def endpoint_signals split: if_splits)
  next
    case SigFin
    then show ?thesis
      using r pipe side(1) live o
      by (auto simp: relay_fin_def Let_def endpoint_signals removed_pipes finish_def hm_get_insert_fun split: if_splits)
  next
    case SigClose
    then show ?thesis using r pipe side(1) live by (auto simp: relay_close_def Let_def endpoint_signals removed_pipes)
  next
    case (SigReset code message)
    then show ?thesis using r pipe side(1) live by (auto simp: relay_reset_def Let_def endpoint_signals removed_pipes)
  qed
qed

text \<open>
  C6. Relaying is exact. When an endpoint of an open pipe of a reachable gateway sends data, FIN, CLOSE or
  RESET, by a frame of its session or an event of its peer stream, exactly that signal goes to the
  other endpoint and to nobody else, and always reaches a live session. Data leaves the state
  unchanged; FIN closes the sender's half, and the pipe is gone once both halves are closed; CLOSE
  and RESET remove it. A repeated FIN is ignored, and data after FIN resets both ends.
\<close>
theorem pipe_relay_exact:
  assumes "gateway_reach env y" and "s = state_core y" and "hm_get (pipes s) p = Some pipe" and "phase pipe = Opened"
    and "pipe_side pipe e = Some (other, fin)" and "pipe_side pipe other = Some (e, ofin)"
    and "gateway_call_step (signal_call e p sig now) y = Some (acts, z)"
  shows "(case sig of
      SigData bs \<Rightarrow> if fin
        then (\<forall>target \<in> {dialer pipe, acceptor pipe}. \<exists>message. addressed target p (SigReset ProtocolError message) \<in> set (map signal_to acts)) \<and>
             hm_get (pipes (state_core z)) = (hm_get (pipes s))(p := None)
        else map signal_to acts = [addressed other p (SigData bs)] \<and> state_core z = s
    | SigFin \<Rightarrow> if fin then acts = [] \<and> state_core z = s
        else map signal_to acts = [addressed other p SigFin] \<and>
             hm_get (pipes (state_core z)) = (hm_get (pipes s))(p := if ofin then None else Some (finish e pipe))
    | _ \<Rightarrow> map signal_to acts = [addressed other p sig] \<and> hm_get (pipes (state_core z)) = (hm_get (pipes s))(p := None))"
proof -
  note I = reach_core [OF assms(1), folded assms(2)]
  note A = anchoredD [OF I(3)] and pipe = assms(3)
  have d: "reachable_end s (dialer pipe)"
    using coreD(3) [OF I(2) pipe] A(4) [OF pipe]
    by (auto simp: reachable_end_def pipe_ok_def dialed_by_def split: pipe_endpoint.splits)
  have a: "reachable_end s (acceptor pipe)" using A(5) [OF pipe] by (auto simp: reachable_end_def)
  have ne: "dialer pipe \<noteq> acceptor pipe" using coreD(3) [OF I(2) pipe] by (auto simp: pipe_ok_def split: pipe_endpoint.splits)
  have e: "e \<in> {dialer pipe, acceptor pipe}" using assms(5) by (auto simp: pipe_side_def split: if_splits)
  have k: "hm_get (peer_pipes s) k = Some p" if "e = Peer k" for k
  proof -
    have "pipe_peer_key pipe = Some k"
      using e that coreD(3) [OF I(2) pipe] by (auto simp: pipe_peer_key_def pipe_ok_def split: pipe_endpoint.splits)
    then show ?thesis using coreD(4) [OF I(2)] pipe by (auto simp: peer_index_ok_def)
  qed
  have "gateway_call_step (signal_call e p sig now) y = on_core y (relay_signal e p sig s)"
    unfolding assms(2) by (rule signal_call_relays) (use pipe e d a k assms(2,4) in auto)
  then have "relay_signal e p sig s = (acts, state_core z)" using assms(7) by (auto simp: on_core_def)
  then show ?thesis using relay_signal_exact [OF pipe assms(4) ne assms(5,6) d a] by blast
qed

theorem pipe_relay_exact_witness:
  "\<exists>acts z. gateway_call_step (signal_call (Sdk 1) sample_pid (SigData ''hi'') 5) sample_open = Some (acts, z) \<and>
     map signal_to acts = [addressed (Sdk 2) sample_pid (SigData ''hi'')] \<and> state_core z = state_core sample_open"
proof -
  have p: "hm_get (pipes (state_core sample_open)) sample_pid = Some (sample_pipe Opened)"
    by (simp add: sample_open_def sample_core_def)
  obtain acts z where step: "gateway_call_step (signal_call (Sdk 1) sample_pid (SigData ''hi'') 5) sample_open = Some (acts, z)"
    by (cases "handle_frame 1 (FrameData sample_pid ''hi'') 5 (state_core sample_open)"; cases "fst (handle_frame 1 (FrameData sample_pid ''hi'') 5 (state_core sample_open))") auto
  have "map signal_to acts = [addressed (Sdk 2) sample_pid (SigData ''hi'')] \<and> state_core z = state_core sample_open"
    using pipe_relay_exact [OF sample_open_reach refl p _ _ _ step, of "Sdk 2" False False]
    by (simp add: sample_pipe_def pipe_side_def)
  then show ?thesis using step by (intro exI [of _ acts] exI [of _ z] conjI) simp_all
qed

section \<open>Isolation\<close>

text \<open>Nothing changes that does not belong to session \<open>i\<close>: pipes, bindings and attempts of others.\<close>

definition isolated :: "session_id \<Rightarrow> gateway_state \<Rightarrow> gateway_state \<Rightarrow> bool" where
  "isolated i s t \<longleftrightarrow>
     (\<forall>q e. \<not> touches i e \<longrightarrow> hm_get (pipes t) q = Some e \<longleftrightarrow> hm_get (pipes s) q = Some e) \<and>
     (\<forall>b bd. bnd_session_id bd \<noteq> i \<longrightarrow> bnds (local_registry t) b = Some bd \<longleftrightarrow> bnds (local_registry s) b = Some bd) \<and>
     (\<forall>oi a. origin_session_id (attempt_pipe_id a) \<noteq> i \<longrightarrow>
        hm_get (remote_open_attempts t) oi = Some a \<longleftrightarrow> hm_get (remote_open_attempts s) oi = Some a) \<and>
     sessions t = sessions s"

lemma isolated_refl [simp]: "isolated i s s"
  by (simp add: isolated_def)

lemma isolated_trans: "isolated i s t \<Longrightarrow> isolated i t u \<Longrightarrow> isolated i s u"
  by (simp add: isolated_def)

named_theorems isolating \<open>operations that act on one session's pipes only\<close>

lemma isolated_remove [isolating]:
  assumes "\<And>e. hm_get (pipes s) p = Some e \<Longrightarrow> touches i e"
  shows "isolated i s (snd (remove_pipe p s))"
  using remove_pipe_snd [of s p] assms by (auto simp: isolated_def same_rest_def table_simps)

lemma isolated_removed [isolating]:
  assumes "remove_pipe p s = (r, t)" "\<And>e. hm_get (pipes s) p = Some e \<Longrightarrow> touches i e"
  shows "isolated i s t"
  using isolated_remove [of s p i] assms by simp

lemma isolated_update:
  assumes "hm_get (pipes s) p = Some e" "touches i e" "touches i e'"
  shows "isolated i s (s\<lparr>pipes := hm_insert p e' (pipes s)\<rparr>)"
  using assms by (auto simp: isolated_def table_simps)

lemma isolated_protocol_reset [isolating]:
  "(\<And>e. hm_get (pipes s) p = Some e \<Longrightarrow> touches i e) \<Longrightarrow> isolated i s (snd (protocol_reset p m s))"
  by (auto simp: protocol_reset_def split: prod.split option.split intro: isolated_removed)

lemma touches_finished [simp]:
  "touches i (e\<lparr>dialer_finished := b\<rparr>) = touches i e" "touches i (e\<lparr>acceptor_finished := b\<rparr>) = touches i e"
  by (simp_all add: touches_def)

lemma isolated_relay [isolating]:
  assumes "\<And>e. hm_get (pipes s) p = Some e \<Longrightarrow> touches i e"
  shows "isolated i s (snd (relay_data sender p bs s))" "isolated i s (snd (relay_close sender p s))"
    "isolated i s (snd (relay_reset sender p c m s))" "isolated i s (snd (relay_fin sender p s))"
proof -
  show "isolated i s (snd (relay_data sender p bs s))" "isolated i s (snd (relay_close sender p s))"
    "isolated i s (snd (relay_reset sender p c m s))"
    using assms by (auto simp: relay_data_def relay_close_def relay_reset_def Let_def split: option.split intro: isolating)
  have reset: "isolated i s (snd (protocol_reset p m s))" for m by (rule isolated_protocol_reset) (rule assms)
  have "isolated i s (snd (remove_pipe p (s\<lparr>pipes := hm_insert p e' (pipes s)\<rparr>)))"
    if "hm_get (pipes s) p = Some e" "touches i e'" for e e'
    using that(2)
    by (intro isolated_trans [OF isolated_update [OF that(1) assms [OF that(1)] that(2)] isolated_remove]) (simp add: table_simps)
  then show "isolated i s (snd (relay_fin sender p s))"
    using assms isolated_update [of s p] reset by (auto simp: relay_fin_def Let_def split: option.split)
qed

lemma isolated_pipe_frames [isolating]:
  "isolated i s (snd (pipe_data i p bs s))" "isolated i s (snd (pipe_fin i p s))"
  "isolated i s (snd (pipe_close i p s))" "isolated i s (snd (pipe_reset i p c m s))"
  by (auto simp: pipe_data_def pipe_fin_def pipe_close_def pipe_reset_def sdk_endpoint_def ensure_sdk_owner_def touches_def
      split: option.split intro: isolating)

lemma isolated_offer_answers [isolating]:
  "isolated i s (snd (offer_accepted i p s))" "isolated i s (snd (offer_rejected i p c m s))"
proof -
  have "isolated i s t" if "hm_get (pipes s) p = Some e" "acceptor e = Sdk i" "promote_offer p s = (r, t)" for e r t
    using that by (auto simp: promote_offer_def Let_def touches_def split: if_splits intro!: isolated_update) (auto simp: isolated_def touches_def table_simps)
  then show "isolated i s (snd (offer_accepted i p s))"
    by (auto simp: offer_accepted_def ensure_sdk_acceptor_def Let_def touches_def split: option.split prod.split intro: isolating)
  show "isolated i s (snd (offer_rejected i p c m s))"
    by (auto simp: offer_rejected_def ensure_sdk_acceptor_def Let_def touches_def split: option.split prod.split intro: isolating)
qed

lemma isolated_cancel [isolating]:
  assumes "core env s"
  shows "isolated i s (snd (cancel_pipe i p s))"
proof -
  have "isolated i s t" if "take_remote_attempt (open_identity_new g i c) s = (r, t)" for g c r t
    using take_remote_attempt_frame [OF that] coreD(6) [OF assms]
    by (auto simp: isolated_def same_rest_def attempts_ok_def table_simps)
  then have "isolated i s (snd (cancel_remote_attempt i p s))"
    by (auto simp: cancel_remote_attempt_def Let_def split: option.split prod.split)
  then show ?thesis
    by (auto simp: cancel_pipe_def touches_def split: option.split prod.split intro: isolating)
qed

lemma isolated_unpublish [isolating]:
  assumes inv: "gateway_inv env s"
  shows "isolated i s (snd (unpublish i request b s))"
proof -
  have anch: "anchored env s" and core: "core env s" using inv by (auto simp: gateway_inv_def)
  obtain gone r where rem: "remove_owned i b (local_registry s) = (gone, r)" by fastforce
  note R = remove_owned_ok [OF anchoredD(1) [OF anch] rem]
  show ?thesis
  proof (cases gone)
    case None
    then show ?thesis using R rem by (simp add: unpublish_def Let_def)
  next
    case (Some bnd)
    let ?s = "s\<lparr>local_registry := r\<rparr>"
    let ?pids = "map fst (filter (\<lambda>(pid, pipe). pipe_binding_id pipe = b \<and> phase pipe = Offered) (pipes s))"
    have t: "snd (unpublish i request b s) = forget_pipes ?pids ?s"
      using rem Some loop_states(1) [of _ _ _ ?pids ?s]
      by (simp add: unpublish_def Let_def cancel_pending_binding_def case_prod_unfold)
    have own: "bnds (local_registry s) b = Some bnd" "bnd_session_id bnd = i"
      using rem Some by (auto simp: remove_owned_def registry_remove_def Let_def split: option.splits if_splits)
    have mine: "touches i e" if p: "p \<in> set ?pids" "hm_get (pipes s) p = Some e" for p e
    proof -
      have ok: "hm_ok (pipes s)" using coreD(1) [OF core] by (simp add: tables_ok_def)
      have e: "pipe_binding_id e = b" "phase e = Offered"
        using p hm_get_filtered [OF ok, of p "\<lambda>_ pipe. pipe_binding_id pipe = b \<and> phase pipe = Offered"] by auto
      obtain a where a: "acceptor e = Sdk a"
        using coreD(3) [OF core p(2)] e(2) by (auto simp: pipe_ok_def split: pipe_endpoint.splits)
      then show ?thesis using anchoredD(6) [OF anch p(2) a e(2)] own e(1) by (auto simp: touches_def)
    qed
    have "by_id r = hm_remove b (by_id (local_registry s))" using R Some by simp
    then show ?thesis unfolding t using forget_pipes_frame [of ?s ?pids] mine own
      by (auto simp: isolated_def same_rest_def table_simps)
  qed
qed



section \<open>Cleanup\<close>

text \<open>The dialer of an offer learns that it failed; what the removal of session \<open>i\<close> tells the other end of a pipe.\<close>

definition failure_told :: "error_code \<Rightarrow> pipe_id \<Rightarrow> pipe_entry \<Rightarrow> gateway_action list \<Rightarrow> bool" where
  "failure_told code p e acts \<longleftrightarrow>
     (case dialer e of
        Sdk d \<Rightarrow> \<exists>dl message. SendSdkFrame dl \<in> set acts \<and> delivery_target dl = d \<and>
          delivery_frame dl = FrameDialFailed (pipe_connection_id p) code MaybeObserved message
      | Peer k \<Rightarrow> \<exists>message. SendPeerFrame (PeerFailed k code MaybeObserved message) \<in> set acts)"

definition told :: "session_id \<Rightarrow> pipe_id \<Rightarrow> pipe_entry \<Rightarrow> gateway_action list \<Rightarrow> bool" where
  "told i p e acts \<longleftrightarrow>
     (if acceptor e = Sdk i \<and> phase e = Offered then failure_told Unavailable p e acts
      else \<exists>code message. addressed (if dialer e = Sdk i then acceptor e else dialer e) p (SigReset code message) \<in> set (map signal_to acts))"

lemma failure_told_mono: "failure_told code p e acts \<Longrightarrow> set acts \<subseteq> set acts' \<Longrightarrow> failure_told code p e acts'"
  unfolding failure_told_def by (auto split: pipe_endpoint.splits)

lemma told_mono: "told i p e acts \<Longrightarrow> set acts \<subseteq> set acts' \<Longrightarrow> told i p e acts'"
  unfolding told_def using failure_told_mono [of Unavailable p e acts acts'] by (auto split: if_splits)

lemma dialer_failure_tells:
  assumes "reachable_end s (dialer e)"
  shows "failure_told code p e (dialer_failure s e p code MaybeObserved message)"
  using assms
  by (cases "dialer e") (auto simp: failure_told_def dialer_failure_def open_failed_def send_to_def to_session_def reachable_end_def)

lemma reset_owned_tells:
  assumes "distinct pids" "p \<in> set pids" "hm_get (pipes s) p = Some e" "touches i e" "dialer e \<noteq> acceptor e"
    and "\<And>j. j \<noteq> i \<Longrightarrow> Sdk j \<in> {dialer e, acceptor e} \<Longrightarrow> hm_contains (sessions s) j"
  shows "told i p e (fst (reset_owned i pids s))"
  using assms
proof (induction pids arbitrary: s)
  case (Cons q pids)
  obtain r t where rem: "remove_pipe q s = (r, t)" by fastforce
  note R = remove_pipe_frame [OF rem]
  have sess: "sessions t = sessions s" using R by (simp add: same_rest_def)
  show ?case
  proof (cases "q = p")
    case True
    then have r: "r = Some e" using R Cons.prems(3) by simp
    define other where "other = (if dialer e = Sdk i then acceptor e else dialer e)"
    have live: "reachable_end t other"
      using Cons.prems(4,5,6) by (auto simp: reachable_end_def other_def touches_def sess)
    define here where "here = (if dialer e \<noteq> Sdk i \<and> phase e = Offered
       then dialer_failure t e p Unavailable MaybeObserved ''selected RelaySession disconnected during OFFER''
       else endpoint_reset t other p (if dialer e = Sdk i \<and> endpoint_peer_key other \<noteq> None then Cancelled else Unavailable)
              ''counterpart session disconnected'')"
    have "told i p e here"
    proof (cases "dialer e \<noteq> Sdk i \<and> phase e = Offered")
      case True
      then have "acceptor e = Sdk i" "other = dialer e" using Cons.prems(4) by (auto simp: touches_def other_def)
      then show ?thesis using True live dialer_failure_tells [of t e] by (simp add: told_def here_def)
    next
      case False
      then have "\<not> (acceptor e = Sdk i \<and> phase e = Offered)" using Cons.prems(5) by auto
      moreover obtain code where "here = endpoint_reset t other p code ''counterpart session disconnected''"
        by (simp only: here_def if_not_P [OF False])
      then have "addressed other p (SigReset code ''counterpart session disconnected'') \<in> set (map signal_to here)"
        using endpoint_signals(4) [OF live] by simp
      ultimately show ?thesis unfolding told_def other_def [symmetric] by (simp only: if_False) blast
    qed
    moreover have "set here \<subseteq> set (fst (reset_owned i (q # pids) s))"
      using rem r True by (auto simp: Let_def case_prod_unfold here_def other_def)
    ultimately show ?thesis by (rule told_mono)
  next
    case False
    then have "told i p e (fst (reset_owned i pids t))"
      using Cons.prems R by (intro Cons.IH) (auto simp: sess table_simps)
    moreover have "set (fst (reset_owned i pids t)) \<subseteq> set (fst (reset_owned i (q # pids) s))"
      using rem by (cases r) (auto simp: Let_def case_prod_unfold)
    ultimately show ?thesis by (rule told_mono)
  qed
qed simp

lemma drop_attempts_tells:
  assumes "distinct ois" "oi \<in> set ois" "hm_get (remote_open_attempts s) oi = Some a"
  shows "case attempt_phase a of
      Resolving \<Rightarrow> True
    | StartingPeer b \<Rightarrow> CancelPeerOpen oi \<in> set (fst (drop_attempts ois s))
    | AwaitingPeer k b \<Rightarrow> SendPeerFrame (PeerReset k Cancelled ''RelaySession disconnected'') \<in> set (fst (drop_attempts ois s))"
  using assms
proof (induction ois arbitrary: s)
  case (Cons x ois)
  obtain r t where tk: "take_remote_attempt x s = (r, t)" by fastforce
  note F = take_remote_attempt_frame [OF tk]
  show ?case
  proof (cases "x = oi")
    case True
    then have "r = Some a" using F Cons.prems(3) by simp
    then show ?thesis using tk True by (auto simp: Let_def case_prod_unfold split: remote_open_phase.split)
  next
    case False
    then have "hm_get (remote_open_attempts t) oi = Some a" using F Cons.prems(3) by (simp add: table_simps)
    then show ?thesis using Cons.IH [of t] Cons.prems(1,2) False tk
      by (cases r) (auto simp: Let_def case_prod_unfold split: remote_open_phase.split)
  qed
qed simp

lemma remove_session_tells:
  assumes inv: "gateway_inv env s" and live: "hm_contains (sessions s) i"
  defines "acts \<equiv> fst (remove_session i s)"
  shows "\<And>p e. hm_get (pipes s) p = Some e \<Longrightarrow> touches i e \<Longrightarrow> told i p e acts"
    "\<And>oi a. hm_get (remote_open_attempts s) oi = Some a \<Longrightarrow> origin_session_id (attempt_pipe_id a) = i \<Longrightarrow>
       case attempt_phase a of
         Resolving \<Rightarrow> True
       | StartingPeer b \<Rightarrow> CancelPeerOpen oi \<in> set acts
       | AwaitingPeer k b \<Rightarrow> SendPeerFrame (PeerReset k Cancelled ''RelaySession disconnected'') \<in> set acts"
    "\<exists>entry. hm_get (sessions s) i = Some entry \<and> entry_cancellation entry \<in> set (cancelled (snd (remove_session i s)))"
proof -
  have core: "core env s" and anch: "anchored env s" using inv by (auto simp: gateway_inv_def)
  note tabs = coreD(1) [OF core, unfolded tables_ok_def] and A = anchoredD [OF anch]
  obtain entry where entry: "hm_get (sessions s) i = Some entry" using live by blast
  define r where "r = snd (registry_remove_session i (local_registry s))"
  define s2 where "s2 = s\<lparr>sessions := hm_remove i (sessions s), cancelled := entry_cancellation entry # cancelled s, local_registry := r\<rparr>"
  define pending where "pending = map fst (filter (\<lambda>(oi, a). origin_session_id (attempt_pipe_id a) = i) (remote_open_attempts s))"
  define s3 where "s3 = drop_all pending s2"
  have sub: "set (fst (drop_attempts pending s2)) \<subseteq> set acts" "set (fst (reset_owned i (owned_pipes i s3) s3)) \<subseteq> set acts"
    and t: "snd (remove_session i s) = forget_pipes (owned_pipes i s3) s3"
    using entry by (simp_all add: acts_def remove_session_def Let_def case_prod_unfold drop_attempts_state loop_states(3)
        pending_def s2_def s3_def r_def subset_iff)
  note D = drop_all_frame [of s2 pending, folded s3_def]
  have p3: "pipes s3 = pipes s" "sessions s3 = hm_remove i (sessions s)" using D by (simp_all add: s2_def same_rest_def)
  show "told i p e acts" if p: "hm_get (pipes s) p = Some e" "touches i e" for p e
  proof (rule told_mono [OF _ sub(2)], rule reset_owned_tells)
    show "distinct (owned_pipes i s3)" using tabs by (simp add: owned_pipes_def p3 hm_ok_def distinct_map_filter)
    show "p \<in> set (owned_pipes i s3)"
      using p hm_get_filtered [of "pipes s" p "\<lambda>_ e. dialer e = Sdk i \<or> acceptor e = Sdk i"] tabs
      by (simp add: owned_pipes_def p3 touches_def)
    show "dialer e \<noteq> acceptor e" using coreD(3) [OF core p(1)] by (auto simp: pipe_ok_def split: pipe_endpoint.splits)
    show "hm_contains (sessions s3) j" if "j \<noteq> i" "Sdk j \<in> {dialer e, acceptor e}" for j
    proof -
      have "hm_contains (sessions s) j"
        using that(2) A(4,5) [OF p(1)] coreD(3) [OF core p(1)]
        by (auto simp: dialed_by_def pipe_ok_def split: pipe_endpoint.splits)
      then show ?thesis using that(1) by (simp add: p3 table_simps)
    qed
  qed (use p in \<open>simp_all add: p3\<close>)
  show "case attempt_phase a of Resolving \<Rightarrow> True | StartingPeer b \<Rightarrow> CancelPeerOpen oi \<in> set acts
       | AwaitingPeer k b \<Rightarrow> SendPeerFrame (PeerReset k Cancelled ''RelaySession disconnected'') \<in> set acts"
    if a: "hm_get (remote_open_attempts s) oi = Some a" "origin_session_id (attempt_pipe_id a) = i" for oi a
  proof -
    have "distinct pending" using tabs by (simp add: pending_def hm_ok_def distinct_map_filter)
    moreover have "oi \<in> set pending"
      using a tabs hm_get_filtered [of "remote_open_attempts s" oi "\<lambda>_ a. origin_session_id (attempt_pipe_id a) = i"] by (simp add: pending_def)
    ultimately show ?thesis using drop_attempts_tells [of pending oi s2 a] a(1) sub(1)
      by (auto simp: s2_def split: remote_open_phase.splits)
  qed
  have "same_rest s2 (snd (remove_session i s))"
    using D forget_pipes_frame [of s3 "owned_pipes i s3"] same_rest_trans unfolding t by blast
  then show "\<exists>entry. hm_get (sessions s) i = Some entry \<and> entry_cancellation entry \<in> set (cancelled (snd (remove_session i s)))"
    using entry by (simp add: same_rest_def s2_def)
qed

text \<open>
  C7. A session leaves nothing behind. When a live session of a reachable gateway is cleaned up, its task is
  cancelled and the session, its bindings, its pipes and its remote open attempts are gone, while
  other sessions and pipes stay as they were; and the other end of each of its pipes is told, by a
  reset or by the failure of its dial, and each open under way at a peer is cancelled or reset.
\<close>
theorem session_cleanup:
  assumes "gateway_reach env y" and "s = state_core y" and "hm_contains (sessions s) i"
    and "gateway_call_step (Cleanup i) y = Some (acts, z)" and "t = state_core z"
  shows "(\<forall>j. hm_get (sessions t) j = (if j = i then None else hm_get (sessions s) j)) \<and>
    (\<forall>b bd. bnds (local_registry t) b = Some bd \<longleftrightarrow> bnds (local_registry s) b = Some bd \<and> bnd_session_id bd \<noteq> i) \<and>
    (\<forall>p e. hm_get (pipes t) p = Some e \<longleftrightarrow> hm_get (pipes s) p = Some e \<and> \<not> touches i e) \<and>
    (\<forall>oi a. hm_get (remote_open_attempts t) oi = Some a \<longleftrightarrow>
       hm_get (remote_open_attempts s) oi = Some a \<and> origin_session_id (attempt_pipe_id a) \<noteq> i) \<and>
    (\<forall>p e. hm_get (pipes s) p = Some e \<and> touches i e \<longrightarrow> told i p e acts) \<and>
    (\<forall>oi a. hm_get (remote_open_attempts s) oi = Some a \<and> origin_session_id (attempt_pipe_id a) = i \<longrightarrow>
       (case attempt_phase a of
          Resolving \<Rightarrow> True
        | StartingPeer b \<Rightarrow> CancelPeerOpen oi \<in> set acts
        | AwaitingPeer k b \<Rightarrow> SendPeerFrame (PeerReset k Cancelled ''RelaySession disconnected'') \<in> set acts)) \<and>
    (\<exists>entry. hm_get (sessions s) i = Some entry \<and> entry_cancellation entry \<in> set (cancelled t))"
proof -
  note I = reach_core [OF assms(1), folded assms(2)]
  have t: "t = snd (remove_session i s)" "acts = fst (remove_session i s)" using assms(2,4,5) by (auto simp: on_core_def)
  note F = remove_session_frame [OF I(1) assms(3), folded t] and T = remove_session_tells [OF I(1) assms(3), folded t]
  show ?thesis
    by (intro conjI allI impI)
      (auto simp: F(1,7,8,9) table_simps intro: T(1) T(2) simp del: not_None_eq split: if_splits intro!: T(3))
qed

theorem session_cleanup_witness:
  "\<exists>acts z. gateway_call_step (Cleanup 2) sample_open = Some (acts, z) \<and> told 2 sample_pid (sample_pipe Opened) acts \<and>
     hm_get (sessions (state_core z)) 2 = None"
proof -
  obtain acts z where step: "gateway_call_step (Cleanup 2) sample_open = Some (acts, z)" by (auto simp: on_core_def)
  have live: "hm_contains (sessions (state_core sample_open)) 2" by (simp add: sample_open_def sample_core_def)
  have p: "hm_get (pipes (state_core sample_open)) sample_pid = Some (sample_pipe Opened)" "touches 2 (sample_pipe Opened)"
    by (simp_all add: sample_open_def sample_core_def touches_def sample_pipe_def)
  note C = session_cleanup [OF sample_open_reach refl live step refl]
  have "hm_get (sessions (state_core z)) 2 = None" using C by simp
  moreover have "told 2 sample_pid (sample_pipe Opened) acts" using C p by blast
  ultimately show ?thesis using step by (intro exI [of _ acts] exI [of _ z] conjI) simp_all
qed

section \<open>Expiry\<close>

lemma expire_pipes_listeners:
  assumes "distinct pids"
  shows "set (fst (expire_pipes pids s)) = {a. \<exists>p \<in> set pids. \<exists>e. hm_get (pipes s) p = Some e \<and> acceptor e = Sdk a}"
  using assms
proof (induction pids arbitrary: s)
  case (Cons q pids)
  obtain r t where rem: "remove_pipe q s = (r, t)" by fastforce
  note R = remove_pipe_frame [OF rem]
  have "hm_get (pipes t) p = hm_get (pipes s) p" if "p \<in> set pids" for p
    using that Cons.prems R by (auto simp: table_simps)
  then have IH: "set (fst (expire_pipes pids t)) = {a. \<exists>p \<in> set pids. \<exists>e. hm_get (pipes s) p = Some e \<and> acceptor e = Sdk a}"
    using Cons.IH [of t] Cons.prems by auto
  show ?case
  proof (cases r)
    case None
    then show ?thesis using IH rem R by auto
  next
    case (Some e)
    then have "set (fst (expire_pipes (q # pids) s)) = set (fst (expire_pipes pids t)) \<union> {a. acceptor e = Sdk a}"
      using rem by (cases "acceptor e") (auto simp: Let_def case_prod_unfold)
    then show ?thesis using IH R Some by auto
  qed
qed simp

lemma expire_pipes_tells:
  assumes "distinct pids" "p \<in> set pids" "hm_get (pipes s) p = Some e" "reachable_end s (dialer e)"
  shows "failure_told DeadlineExceeded p e (fst (snd (expire_pipes pids s)))"
  using assms
proof (induction pids arbitrary: s)
  case (Cons q pids)
  obtain r t where rem: "remove_pipe q s = (r, t)" by fastforce
  note R = remove_pipe_frame [OF rem]
  have live: "reachable_end t (dialer e)" using Cons.prems(4) R by (simp add: reachable_end_def same_rest_def)
  show ?case
  proof (cases "q = p")
    case True
    then have "r = Some e" using R Cons.prems(3) by simp
    then show ?thesis using rem True
      by (intro failure_told_mono [OF dialer_failure_tells [OF live]]) (auto simp: Let_def case_prod_unfold)
  next
    case False
    then have "failure_told DeadlineExceeded p e (fst (snd (expire_pipes pids t)))"
      using Cons.prems R live by (intro Cons.IH) (auto simp: table_simps)
    then show ?thesis by (rule failure_told_mono) (use rem in \<open>cases r; auto simp: Let_def case_prod_unfold\<close>)
  qed
qed simp

lemma remove_sessions_frame:
  assumes "gateway_inv env s"
  shows "hm_get (sessions (snd (remove_sessions ss s))) i = (if i \<in> set ss then None else hm_get (sessions s) i) \<and>
    (hm_get (pipes (snd (remove_sessions ss s))) p = Some e \<longrightarrow> hm_get (pipes s) p = Some e) \<and>
    limits (snd (remove_sessions ss s)) = limits s"
  using assms
proof (induction ss arbitrary: s)
  case (Cons j ss)
  let ?s = "snd (remove_session j s)"
  have "hm_get (sessions ?s) i = (if i = j then None else hm_get (sessions s) i) \<and>
      (hm_get (pipes ?s) p = Some e \<longrightarrow> hm_get (pipes s) p = Some e) \<and> limits ?s = limits s"
    using remove_session_frame(1,2,8) [OF Cons.prems, of j] remove_session_absent [of s j]
    by (cases "hm_contains (sessions s) j") (auto simp: table_simps)
  then show ?case using Cons.IH [OF remove_session_inv [OF Cons.prems, of j]]
    by (cases "i = j") (simp_all add: Let_def case_prod_unfold)
qed simp

text \<open>
  C13. Offers expire on time. After an expiry run at time \<open>now\<close> no offer is left whose age has reached the
  configured timeout; the dialer of every expired offer is told \<open>DeadlineExceeded\<close> with an uncertain
  observation; exactly the sessions that left an offer unanswered are removed; no pipe is added or
  changed.
\<close>
theorem offers_expire:
  assumes "gateway_reach env y" and "s = state_core y"
    and "gateway_call_step (Expire now) y = Some (acts, z)" and "t = state_core z"
  shows "(\<forall>p e. hm_get (pipes t) p = Some e \<longrightarrow> hm_get (pipes s) p = Some e \<and> \<not> offer_expired (limits t) now e) \<and>
    (\<forall>p e. hm_get (pipes s) p = Some e \<and> offer_expired (limits s) now e \<longrightarrow> failure_told DeadlineExceeded p e acts) \<and>
    (\<forall>i. hm_get (sessions t) i =
       (if \<exists>p e. hm_get (pipes s) p = Some e \<and> offer_expired (limits s) now e \<and> acceptor e = Sdk i then None
        else hm_get (sessions s) i))"
proof -
  note I = reach_core [OF assms(1), folded assms(2)]
  have ok: "hm_ok (pipes s)" using coreD(1) [OF I(2)] by (simp add: tables_ok_def)
  define pids where "pids = map fst (filter (\<lambda>(p, e). offer_expired (limits s) now e) (pipes s))"
  define u where "u = snd (snd (expire_pipes pids s))"
  define ls where "ls = fst (expire_pipes pids s)"
  have t: "t = snd (remove_sessions ls u)" "set (fst (snd (expire_pipes pids s))) \<subseteq> set acts"
    using assms(2-4) by (auto simp: on_core_def expire_offers_def Let_def case_prod_unfold u_def ls_def pids_def)
  have pids: "distinct pids" "p \<in> set pids \<longleftrightarrow> (\<exists>e. hm_get (pipes s) p = Some e \<and> offer_expired (limits s) now e)" for p
    using ok hm_get_filtered [OF ok, of p "\<lambda>_ e. offer_expired (limits s) now e"]
    by (simp_all add: pids_def hm_ok_def distinct_map_filter)
  note F = forget_pipes_frame [of s pids, folded loop_states(2), folded u_def]
  have inv: "gateway_inv env u" unfolding u_def by (rule settles_inv [OF settles_expire_pipes I(1)])
  note R = remove_sessions_frame [OF inv, of ls, folded t(1)]
  have lim: "limits t = limits s" using R F by (simp add: same_rest_def)
  have one: "hm_get (pipes s) p = Some e \<and> \<not> offer_expired (limits t) now e" if e: "hm_get (pipes t) p = Some e" for p e
  proof -
    have "hm_get (pipes u) p = Some e" using R e by blast
    then have "hm_get (pipes s) p = Some e" "p \<notin> set pids" using F by (auto split: if_splits)
    then show ?thesis using pids(2) lim by auto
  qed
  have two: "failure_told DeadlineExceeded p e acts" if e: "hm_get (pipes s) p = Some e" "offer_expired (limits s) now e" for p e
  proof -
    have "reachable_end s (dialer e)"
      using anchoredD(4) [OF I(3) e(1)] coreD(3) [OF I(2) e(1)]
      by (auto simp: reachable_end_def dialed_by_def pipe_ok_def split: pipe_endpoint.splits)
    then show ?thesis using e pids by (intro failure_told_mono [OF expire_pipes_tells t(2)]) auto
  qed
  have ls: "i \<in> set ls \<longleftrightarrow> (\<exists>p e. hm_get (pipes s) p = Some e \<and> offer_expired (limits s) now e \<and> acceptor e = Sdk i)" for i
    unfolding ls_def expire_pipes_listeners [OF pids(1)] using pids(2) by force
  have "sessions u = sessions s" using F by (simp add: same_rest_def)
  then have "hm_get (sessions t) i = (if i \<in> set ls then None else hm_get (sessions s) i)" for i using R by simp
  then show ?thesis using one two unfolding ls by blast
qed

theorem offers_expire_witness:
  "\<exists>acts z. gateway_call_step (Expire 200) sample_offered = Some (acts, z) \<and>
     failure_told DeadlineExceeded sample_pid (sample_pipe Offered) acts \<and> hm_get (sessions (state_core z)) 2 = None"
proof -
  obtain acts z where step: "gateway_call_step (Expire 200) sample_offered = Some (acts, z)" by (auto simp: on_core_def)
  have p: "hm_get (pipes (state_core sample_offered)) sample_pid = Some (sample_pipe Offered)"
      "offer_expired (limits (state_core sample_offered)) 200 (sample_pipe Offered)" "acceptor (sample_pipe Offered) = Sdk 2"
    by (simp_all add: sample_offered_def sample_core_def sample_pipe_def offer_expired_def saturating_duration_since_def sample_limits_def)
  note C = offers_expire [OF sample_offered_reach refl step refl]
  have "failure_told DeadlineExceeded sample_pid (sample_pipe Offered) acts" using C p by blast
  moreover have "hm_get (sessions (state_core z)) 2 = None" using C p by auto
  ultimately show ?thesis using step by (intro exI [of _ acts] exI [of _ z] conjI) simp_all
qed

end
