(* ===== verification/Gateway_Gates.thy ===== *)
theory Gateway_Gates
  imports Gateway_Sample
begin

text \<open>
  What lets something into the gateway: bindings and pipes appear only through an authorized operation
  or a peer OPEN, pipes open only when their acceptor or peer agreed, and nothing is admitted once the
  gateway drains.
\<close>

section \<open>Bindings\<close>

definition fewer_bindings :: "gateway_state \<Rightarrow> gateway_state \<Rightarrow> bool" where
  "fewer_bindings s t \<longleftrightarrow> (\<forall>i b. bnds (local_registry t) i = Some b \<longrightarrow> bnds (local_registry s) i = Some b)"

lemma fewer_bindings_refl [simp]: "fewer_bindings s s"
  by (simp add: fewer_bindings_def)

lemma fewer_bindings_trans: "fewer_bindings s t \<Longrightarrow> fewer_bindings t u \<Longrightarrow> fewer_bindings s u"
  by (simp add: fewer_bindings_def)

lemma fewer_bindings_same: "local_registry t = local_registry s \<Longrightarrow> fewer_bindings s t"
  by (simp add: fewer_bindings_def)

lemma fewer_bindings_settles: "settles env s t \<Longrightarrow> core env s \<Longrightarrow> fewer_bindings s t"
  by (rule fewer_bindings_same) (auto simp: settles_def shrinks_def same_rest_def)

lemma fewer_bindings_registry:
  "(\<And>i b. bnds r i = Some b \<Longrightarrow> bnds (local_registry s) i = Some b) \<Longrightarrow> fewer_bindings s (s\<lparr>local_registry := r\<rparr>)"
  by (simp add: fewer_bindings_def)

lemma remove_owned_fewer:
  assumes "registry_ok r" "bnds (snd (remove_owned i b r)) j = Some x"
  shows "bnds r j = Some x"
  using remove_owned_ok [OF assms(1), of i b "fst (remove_owned i b r)" "snd (remove_owned i b r)"] assms(2)
  by (auto simp: table_simps split: option.splits if_splits)

lemma insert_registry: "local_registry (insert_offer p e s) = local_registry s" "local_registry (insert_open p e s) = local_registry s"
  using insert_offer_frame [of p e s] insert_open_frame [of p e s] by (simp_all add: same_rest_def)

lemma fewer_bindings_offer:
  assumes "registry_ok (local_registry s)"
  shows "fewer_bindings s (snd (offer_local_at p b now st s))"
  using remove_owned_fewer [OF assms]
  by (auto simp: offer_local_at_def Let_def insert_registry fewer_bindings_def)

lemma fewer_bindings_dial:
  assumes "registry_ok (local_registry s)"
  shows "fewer_bindings s (snd (dial session c d now st s))"
proof -
  obtain sel r where sel: "select_excluding d session (local_registry s) = (sel, r)" by fastforce
  note S = select_excluding_ok [OF assms sel]
  have "fewer_bindings s (snd (offer_local_at p b now st (s\<lparr>local_registry := r\<rparr>)))" for p b st
    using fewer_bindings_offer [of "s\<lparr>local_registry := r\<rparr>" p b now st] S by (simp add: fewer_bindings_def)
  moreover have "fewer_bindings s (s\<lparr>local_registry := r\<rparr>)" "fewer_bindings s (s\<lparr>local_registry := r, remote_open_attempts := x\<rparr>)" for x
    using S by (simp_all add: fewer_bindings_def)
  ultimately show ?thesis using sel by (auto simp: dial_def Let_def split: option.split)
qed

lemma fewer_bindings_receive: "fewer_bindings s (snd (receive_peer_open_at k oi d relay b now s))"
  by (auto simp: receive_peer_open_at_def Let_def insert_registry fewer_bindings_def split: option.split)

lemma taken_registry: "local_registry (snd (take_remote_attempt oi s)) = local_registry s"
  by (simp add: take_remote_attempt_def split: option.split)

lemma fewer_bindings_opened: "fewer_bindings s (snd (peer_opened_at k oi now s))"
  using taken_registry [of oi s]
  by (cases "take_remote_attempt oi s")
    (auto simp: peer_opened_at_def Let_def insert_registry fewer_bindings_def split: option.split attempt_match.split)

lemma fewer_bindings_resolved:
  assumes "registry_ok (local_registry s)"
  shows "fewer_bindings s (snd (route_resolved oi bs now s))"
proof -
  let ?t = "snd (take_remote_attempt oi s)"
  have t: "local_registry ?t = local_registry s" by (rule taken_registry)
  have "fewer_bindings s (snd (offer_local_at p b now st ?t))" for p b st
    using fewer_bindings_offer [of ?t p b now st] t assms by (simp add: fewer_bindings_def)
  moreover have "fewer_bindings s ?t" using t by (simp add: fewer_bindings_def)
  moreover have "fewer_bindings s (snd (fail_remote_attempt oi c ob m s))" for c ob m
    using t by (auto simp: fail_remote_attempt_def fewer_bindings_def split: prod.split option.split)
  moreover have "fewer_bindings s (s\<lparr>remote_open_attempts := x\<rparr>)" for x by (simp add: fewer_bindings_def)
  ultimately show ?thesis by (auto simp: route_resolved_def Let_def split: option.split)
qed

lemma fewer_bindings_remove_session:
  assumes "gateway_inv env s"
  shows "fewer_bindings s (snd (remove_session session s))"
  using remove_session_frame(7) [OF assms, of session] remove_session_absent [of s session]
  by (cases "hm_contains (sessions s) session") (auto simp: fewer_bindings_def)

lemma fewer_bindings_remove_sessions:
  "gateway_inv env s \<Longrightarrow> fewer_bindings s (snd (remove_sessions ss s))"
  by (induction ss arbitrary: s)
    (auto simp: Let_def case_prod_unfold intro: fewer_bindings_trans fewer_bindings_remove_session remove_session_inv)

lemma fewer_bindings_expire:
  assumes "gateway_inv env s"
  shows "fewer_bindings s (snd (expire_offers now s))"
proof -
  have "fewer_bindings s (snd (snd (expire_pipes pids s)))" for pids
    using assms fewer_bindings_settles [OF settles_expire_pipes, of env s pids] by (simp add: gateway_inv_def)
  then show ?thesis
    using fewer_bindings_trans fewer_bindings_remove_sessions [OF settles_inv [OF settles_expire_pipes assms]]
    by (simp add: expire_offers_def Let_def case_prod_unfold) blast
qed

lemma fewer_bindings_unpublish:
  assumes "gateway_inv env s"
  shows "fewer_bindings s (snd (unpublish i request b s))"
proof -
  have reg: "registry_ok (local_registry s)" using assms anchoredD(1) by (auto simp: gateway_inv_def)
  let ?s = "s\<lparr>local_registry := snd (remove_owned i b (local_registry s))\<rparr>"
  have one: "fewer_bindings s ?s" using remove_owned_fewer [OF reg] by (simp add: fewer_bindings_def)
  moreover have "fewer_bindings ?s (snd (cancel_pending_binding b ?s))"
    using assms fewer_bindings_settles [OF settles_cancel_pending_binding, of env ?s b] by (simp add: gateway_inv_def core_registry)
  ultimately have "fewer_bindings s (snd (cancel_pending_binding b ?s))" by (rule fewer_bindings_trans)
  then show ?thesis using one by (simp add: unpublish_def Let_def case_prod_unfold)
qed

lemma fewer_bindings_frame:
  assumes "gateway_inv env s"
  shows "fewer_bindings s (snd (apply_frame i f s))"
proof -
  have core: "core env s" using assms by (simp add: gateway_inv_def)
  show ?thesis
    by (cases f) (simp_all add: apply_frame_def fewer_bindings_unpublish [OF assms]
        fewer_bindings_settles [OF _ core] settling)
qed

lemma fewer_bindings_event:
  assumes "core env s"
  shows "fewer_bindings s (snd (handle_peer_event now e s))"
  by (cases e) (simp_all add: fewer_bindings_receive fewer_bindings_opened fewer_bindings_settles [OF _ assms] settling case_prod_unfold)

lemma step_bindings:
  assumes inv: "sys_inv env y" and step: "gateway_step env y c z"
    and notc: "\<And>draws i v now r d. c = Commit draws i v now \<Longrightarrow> hm_get (verifying y) i \<noteq> Some (ControlPublish r d)"
  shows "fewer_bindings (state_core y) (state_core z)"
proof -
  have gi: "gateway_inv env (state_core y)" and core: "core env (state_core y)" and reg: "registry_ok (local_registry (state_core y))"
    using inv anchoredD(1) by (auto simp: sys_inv_def gateway_inv_def)
  obtain acts where en: "call_enabled env y c" and z: "gateway_call_step c y = Some (acts, z)"
    using step by (auto simp: gateway_step_def)
  note S = fewer_bindings_settles [OF _ core]
  show ?thesis
  proof (cases c)
    case (Admit draws w token now)
    then obtain r t where add: "add_session draws w token now (state_core y) = Some (r, t)" "state_core z = t"
      using z by (auto split: option.splits)
    show ?thesis unfolding add(2) using add(1) by (cases rule: add_session_cases) (simp_all add: fewer_bindings_def)
  next
    case (Control i op now)
    obtain r t where p: "prepare_authorization i op now (state_core y) = (r, t)" by fastforce
    then have "state_core z = t" using z Control by (auto split: option.splits)
    then show ?thesis using session_onlyD(5) [OF prepare_frame(1) [OF p]] by (simp add: fewer_bindings_def)
  next
    case (Commit draws i v now)
    then obtain op t acts where op: "hm_get (verifying y) i = Some op" "commit_authorized draws i op v now (state_core y) = Some (acts, t)"
        "state_core z = t" using z by (auto split: option.splits)
    then obtain k d st where "op = ControlDial k d st" using notc [OF Commit] by (cases op) auto
    then show ?thesis using op(2) fewer_bindings_dial [OF reg, of i k d now st]
      by (auto simp: op(3) commit_authorized_def apply_control_at_def split: if_splits)
  next
    case (FrameIn i f now)
    then have "state_core z = snd (apply_frame i f (state_core y))"
      using z en by (auto simp: handle_frame_def isl_def split: prod.splits sum.splits) (cases f; simp)+
    then show ?thesis using fewer_bindings_frame [OF gi] by simp
  next
    case Drain
    then show ?thesis using z by (auto simp: on_core_def begin_draining_def fewer_bindings_def split: if_splits)
  next
    case (PeerCommitted oi k)
    then show ?thesis using z en S [OF settles_peer_open_committed] by (auto simp: on_core_def)
  qed (use z in \<open>auto simp: on_core_def S settling fewer_bindings_remove_session [OF gi] fewer_bindings_expire [OF gi]
      fewer_bindings_resolved [OF reg] fewer_bindings_event [OF core] split: option.splits\<close>)
qed

section \<open>Identifiers taken into use\<close>

lemma dial_draining: "draining s \<Longrightarrow> snd (dial i c d now st s) = s"
  by (simp add: dial_def Let_def)

lemma receive_refused:
  "draining s \<or> entry_gateway oi \<noteq> peer_gateway_id k \<Longrightarrow> snd (receive_peer_open_at k oi d relay b now s) = s"
  by (auto simp: receive_peer_open_at_def Let_def)

lemma unused_remove_session:
  assumes inv: "gateway_inv env s" and "unused s p"
  shows "unused (snd (remove_session session s)) p"
proof (cases "hm_contains (sessions s) session")
  case True
  note F = remove_session_frame [OF inv True]
  show ?thesis using assms(2) F(8) [of p] F(9) by (auto simp: unused_def simp flip: not_Some_eq)
qed (use assms in \<open>simp add: remove_session_absent\<close>)

lemma unused_remove_sessions: "gateway_inv env s \<Longrightarrow> unused s p \<Longrightarrow> unused (snd (remove_sessions ss s)) p"
  by (induction ss arbitrary: s) (simp_all add: Let_def case_prod_unfold unused_remove_session remove_session_inv)

lemma unused_expire:
  assumes "gateway_inv env s" "unused s p"
  shows "unused (snd (expire_offers now s)) p"
proof -
  have "grows s (snd (snd (expire_pipes pids s))) {}" for pids
    using assms(1) grows_settles [OF settles_expire_pipes, of env s] by (simp add: gateway_inv_def)
  then have "unused (snd (snd (expire_pipes pids s))) p" for pids using assms(2) by (simp add: grows_def)
  then show ?thesis using unused_remove_sessions [OF settles_inv [OF settles_expire_pipes assms(1)]]
    by (simp add: expire_offers_def Let_def case_prod_unfold)
qed

lemma remove_sessions_fewer:
  "gateway_inv env s \<Longrightarrow> draining (snd (remove_sessions ss s)) = draining s \<and>
   (\<forall>i. hm_contains (sessions (snd (remove_sessions ss s))) i \<longrightarrow> hm_contains (sessions s) i)"
proof (induction ss arbitrary: s)
  case (Cons i ss)
  have "draining (snd (remove_session i s)) = draining s \<and>
      (\<forall>j. hm_contains (sessions (snd (remove_session i s))) j \<longrightarrow> hm_contains (sessions s) j)"
    using remove_session_frame(1,3) [OF Cons.prems, of i] remove_session_absent [of s i]
    by (cases "hm_contains (sessions s) i") (auto simp: table_simps split: if_splits)
  then show ?case using Cons.IH [OF remove_session_inv [OF Cons.prems], of i] by (simp add: Let_def case_prod_unfold)
qed simp

lemma expire_sessions:
  assumes "gateway_inv env s"
  shows "draining (snd (expire_offers now s)) = draining s \<and>
   (\<forall>i. hm_contains (sessions (snd (expire_offers now s))) i \<longrightarrow> hm_contains (sessions s) i)"
proof -
  have "grows s (snd (snd (expire_pipes pids s))) {}" for pids
    using assms grows_settles [OF settles_expire_pipes, of env s] by (simp add: gateway_inv_def)
  then show ?thesis using remove_sessions_fewer [OF settles_inv [OF settles_expire_pipes assms]]
    by (simp add: expire_offers_def Let_def case_prod_unfold grows_def)
qed

lemma event_grows:
  assumes core: "core env s"
  shows "grows s (snd (handle_peer_event now e s)) UNIV"
  using grows_settles [OF _ core] grows_mono [OF grows_receive subset_UNIV] grows_mono [OF grows_peer_opened [OF core] subset_UNIV]
  by (cases e) (simp_all add: settling case_prod_unfold)

definition dial_committed :: "gateway_sys \<Rightarrow> gateway_call \<Rightarrow> pipe_id \<Rightarrow> bool" where
  "dial_committed y c p \<longleftrightarrow> (\<exists>draws v now d st. c = Commit draws (origin_session_id p) v now \<and>
     hm_get (verifying y) (origin_session_id p) = Some (ControlDial (pipe_connection_id p) d st) \<and>
     authorizes v (ControlDial (pipe_connection_id p) d st) now \<and> hm_contains (sessions (state_core y)) (origin_session_id p))"

definition open_received :: "gateway_call \<Rightarrow> pipe_id \<Rightarrow> bool" where
  "open_received c p \<longleftrightarrow> (\<exists>now k oi d relay b. c = PeerEventIn now (EventIncomingOpen k oi d relay b) \<and> pid_of oi = p \<and>
     entry_gateway oi = peer_gateway_id k)"

lemma commit_unused:
  assumes com: "commit_authorized draws i op v now (state_core y) = Some (acts, t)" and op: "hm_get (verifying y) i = Some op"
    and u: "unused (state_core y) p" "\<not> unused t p"
  shows "dial_committed y (Commit draws i v now) p \<and> \<not> draining (state_core y)"
proof (cases "hm_contains (sessions (state_core y)) i \<and> authorizes v op now")
  case True
  show ?thesis
  proof (cases op)
    case (ControlPublish r d)
    then have "publish draws i r d (state_core y) = Some (acts, t)" using com True by (auto simp: commit_authorized_def apply_control_at_def)
    then show ?thesis using grows_publish u by (auto simp: grows_def)
  next
    case (ControlDial c d st)
    then have t: "t = snd (dial i c d now st (state_core y))" using com True by (auto simp: commit_authorized_def apply_control_at_def)
    then have "p = pipe_id_new i c" using grows_dial [of "state_core y" i c d now st] u by (auto simp: grows_def)
    moreover have "\<not> draining (state_core y)" using dial_draining u t by metis
    ultimately show ?thesis using True op ControlDial by (auto simp: dial_committed_def)
  qed
next
  case False
  then have "t = state_core y" using com by (auto simp: commit_authorized_def split: if_splits)
  then show ?thesis using u by simp
qed

lemma event_unused:
  assumes core: "core env s" and u: "unused s p" "\<not> unused (snd (handle_peer_event now e s)) p"
  shows "open_received (PeerEventIn now e) p \<and> \<not> draining s"
proof -
  have S: "unused t p" if "settles env s t" for t using grows_settles [OF that core, of "{}"] u(1) by (simp add: grows_def)
  show ?thesis
  proof (cases e)
    case (EventIncomingOpen k oi d relay b)
    then have "p = pid_of oi" using u grows_receive [of s k oi d relay b now] by (auto simp: grows_def)
    moreover have "\<not> draining s \<and> entry_gateway oi = peer_gateway_id k"
      using receive_refused [of s oi k d relay b now] u EventIncomingOpen by (metis handle_peer_event.simps(1))
    ultimately show ?thesis using EventIncomingOpen by (auto simp: open_received_def)
  next
    case (EventOpened k oi)
    then show ?thesis using u grows_peer_opened [OF core, of k oi now] by (simp add: grows_def)
  qed (use u S in \<open>auto simp: settling case_prod_unfold\<close>)
qed

lemma step_unused:
  assumes inv: "sys_inv env y" and step: "gateway_step env y c z"
    and u: "unused (state_core y) p" "\<not> unused (state_core z) p"
  shows "(dial_committed y c p \<or> open_received c p) \<and> \<not> draining (state_core y)"
proof -
  have gi: "gateway_inv env (state_core y)" and core: "core env (state_core y)" using inv by (auto simp: sys_inv_def gateway_inv_def)
  obtain acts where en: "call_enabled env y c" and z: "gateway_call_step c y = Some (acts, z)"
    using step by (auto simp: gateway_step_def)
  have S: "unused t p" if "settles env (state_core y) t" for t
    using grows_settles [OF that core, of "{}"] u(1) by (simp add: grows_def)
  show ?thesis
  proof (cases c)
    case (Admit draws w token now)
    then obtain r t where add: "add_session draws w token now (state_core y) = Some (r, t)" "state_core z = t"
      using z by (auto split: option.splits)
    show ?thesis using add(1) by (cases rule: add_session_cases) (use u add(2) in \<open>simp_all add: unused_def\<close>)
  next
    case (Control i op now)
    obtain r t where p: "prepare_authorization i op now (state_core y) = (r, t)" by fastforce
    then have "state_core z = t" using z Control by (auto split: option.splits)
    then show ?thesis using session_onlyD(1) [OF prepare_frame(1) [OF p]] u by simp
  next
    case (Commit draws i v now)
    then obtain op t acts where op: "hm_get (verifying y) i = Some op" "commit_authorized draws i op v now (state_core y) = Some (acts, t)"
        "state_core z = t" using z by (auto split: option.splits)
    then show ?thesis using commit_unused [OF op(2,1) u(1)] u(2) Commit by simp
  next
    case (FrameIn i f now)
    then have "state_core z = snd (apply_frame i f (state_core y))"
      using z en by (auto simp: handle_frame_def isl_def split: prod.splits sum.splits) (cases f; simp)+
    then show ?thesis using apply_frame_inv [OF gi, of i f] u by (simp add: grows_def)
  next
    case (Cleanup i)
    then show ?thesis using z u unused_remove_session [OF gi u(1)] by (auto simp: on_core_def)
  next
    case (Expire now)
    then show ?thesis using z u unused_expire [OF gi u(1)] by (auto simp: on_core_def)
  next
    case Drain
    then show ?thesis using z u by (auto simp: on_core_def begin_draining_def unused_def split: if_splits)
  next
    case (RouteFound oi bs now)
    then show ?thesis using z u grows_route_resolved [OF core, of oi bs now] by (auto simp: on_core_def grows_def)
  next
    case (PeerCommitted oi k)
    then show ?thesis using z en u S [OF settles_peer_open_committed] by (auto simp: on_core_def)
  next
    case (PeerEventIn now e)
    then show ?thesis using z u event_unused [OF core u(1)] by (auto simp: on_core_def)
  qed (use z u S in \<open>auto simp: on_core_def settling split: option.splits\<close>)
qed

text \<open>
  C8. Nothing enters without authorization. In a reachable gateway a binding appears only when the session
  that owns it commits a publish of that destination whose verified authorization still admits it; a
  pipe or open attempt with a new identifier appears only when its session commits an admitted dial
  with that connection id, or when a peer OPEN arrives whose entry gateway is the authenticated peer.
\<close>
theorem authorization_gate:
  assumes "gateway_reach env y" and "gateway_step env y c z"
  shows "(\<forall>i b. bnds (local_registry (state_core z)) i = Some b \<and> bnds (local_registry (state_core y)) i \<noteq> Some b \<longrightarrow>
      (\<exists>draws v now r. c = Commit draws (bnd_session_id b) v now \<and>
         hm_get (verifying y) (bnd_session_id b) = Some (ControlPublish r (bnd_destination b)) \<and>
         authorizes v (ControlPublish r (bnd_destination b)) now)) \<and>
    (\<forall>p. unused (state_core y) p \<and> \<not> unused (state_core z) p \<longrightarrow> dial_committed y c p \<or> open_received c p)"
proof (intro conjI allI impI)
  have inv: "sys_inv env y" by (rule gateway.reach_inv [OF assms(1)])
  have reg: "registry_ok (local_registry (state_core y))" using inv anchoredD(1) by (auto simp: sys_inv_def gateway_inv_def)
  show "dial_committed y c p \<or> open_received c p" if "unused (state_core y) p \<and> \<not> unused (state_core z) p" for p
    using step_unused [OF inv assms(2)] that by blast
  fix i b
  assume new: "bnds (local_registry (state_core z)) i = Some b \<and> bnds (local_registry (state_core y)) i \<noteq> Some b"
  then have "\<not> fewer_bindings (state_core y) (state_core z)" by (auto simp: fewer_bindings_def)
  then obtain draws j v now r d where c: "c = Commit draws j v now" "hm_get (verifying y) j = Some (ControlPublish r d)"
    using step_bindings [OF inv assms(2)] by blast
  then obtain acts t where com: "commit_authorized draws j (ControlPublish r d) v now (state_core y) = Some (acts, t)" "state_core z = t"
    using assms(2) by (auto simp: gateway_step_def split: option.splits)
  have ne: "t \<noteq> state_core y" using new com(2) by auto
  then have auth: "authorizes v (ControlPublish r d) now" and pub: "publish draws j r d (state_core y) = Some (acts, t)"
    using com(1) by (auto simp: commit_authorized_def apply_control_at_def split: if_splits)
  obtain reg' r' where reg': "registry_register draws j d (local_registry (state_core y)) = Some (reg', r')" "t = (state_core y)\<lparr>local_registry := r'\<rparr>"
    using pub ne by (auto simp: publish_def Let_def split: if_splits option.splits prod.splits registration.splits)
  have "bnd_session_id b = j \<and> bnd_destination b = d"
    using registry_register_ok [OF reg reg'(1)] new com(2) reg'(2)
    by (auto simp: table_simps split: registration.splits if_splits)
  then show "\<exists>draws v now r. c = Commit draws (bnd_session_id b) v now \<and>
         hm_get (verifying y) (bnd_session_id b) = Some (ControlPublish r (bnd_destination b)) \<and>
         authorizes v (ControlPublish r (bnd_destination b)) now"
    using c auth by blast
qed

lemma sample_unused: "unused (state_core sample_dialing) sample_pid" "\<not> unused (state_core sample_offered) sample_pid"
  by (simp_all add: unused_def sample_dialing_def sample_offered_def sample_core_def)

theorem authorization_gate_witness:
  "gateway_step sample_env sample_dialing sample_commit sample_offered \<and> dial_committed sample_dialing sample_commit sample_pid"
proof -
  have "\<not> open_received sample_commit sample_pid" by (simp add: open_received_def sample_commit_def)
  then show ?thesis
    using authorization_gate [OF sample_dialing_reach sample_commits] sample_unused sample_commits by blast
qed

section \<open>Draining\<close>

lemma drained_unused:
  assumes "core env s"
  shows "is_drained s \<longleftrightarrow> (\<forall>p. unused s p)"
proof -
  have none: "m = [] \<longleftrightarrow> (\<forall>k. hm_get m k = None)" for m :: "('k, 'v) hashmap" by (cases m) auto
  have phase: "phase e = Offered \<or> phase e = Opened" for e by (cases "phase e") auto
  have "hm_count (\<lambda>e. phase e = Offered) m = 0 \<and> hm_count (\<lambda>e. phase e = Opened) m = 0 \<longleftrightarrow> m = []" for m :: "(pipe_id, pipe_entry) hashmap"
    using phase by (cases m) (auto simp: hm_count_def)
  then have "is_drained s \<longleftrightarrow> pipes s = [] \<and> remote_open_attempts s = []"
    using coreD(2) [OF assms] by (auto simp: is_drained_def counters_ok_def)
  then show ?thesis unfolding none [of "pipes s"] none [of "remote_open_attempts s"] unused_def by blast
qed

lemma step_draining:
  assumes inv: "sys_inv env y" and step: "gateway_step env y c z" and dr: "draining (state_core y)"
  shows "draining (state_core z) \<and> (\<forall>i. hm_contains (sessions (state_core z)) i \<longrightarrow> hm_contains (sessions (state_core y)) i) \<and>
    (\<forall>i. hm_contains (verifying z) i \<longrightarrow> hm_contains (verifying y) i)"
proof -
  have gi: "gateway_inv env (state_core y)" and core: "core env (state_core y)" using inv by (auto simp: sys_inv_def gateway_inv_def)
  obtain acts where en: "call_enabled env y c" and z: "gateway_call_step c y = Some (acts, z)"
    using step by (auto simp: gateway_step_def)
  have G: ?thesis if "grows (state_core y) (state_core z) N" "verifying z = verifying y" for N
    using that dr by (simp add: grows_def)
  note S = G [OF grows_settles [OF _ core]]
  show ?thesis
  proof (cases c)
    case (Admit draws w token now)
    then obtain r t where add: "add_session draws w token now (state_core y) = Some (r, t)" "state_core z = t" "verifying z = verifying y"
      using z by (auto split: option.splits)
    show ?thesis using add(1) by (cases rule: add_session_cases) (use dr add(2,3) in simp_all)
  next
    case (Control i op now)
    obtain r t where p: "prepare_authorization i op now (state_core y) = (r, t)" by fastforce
    then have "state_core z = t" "verifying z = verifying y"
      using z Control prepare_frame(3) [OF p] dr by (auto split: option.splits)
    then show ?thesis using session_onlyD [OF prepare_frame(1) [OF p]] dr by (metis)
  next
    case (Commit draws i v now)
    then obtain op t acts where op: "hm_get (verifying y) i = Some op" "commit_authorized draws i op v now (state_core y) = Some (acts, t)"
        "state_core z = t" "verifying z = hm_remove i (verifying y)" using z by (auto split: option.splits)
    have "op_reserved (state_core y) i op" using inv op(1) by (auto simp: sys_inv_def)
    then have "grows (state_core y) t {p. origin_session_id p = i}" using commit_inv(2) [OF gi _ op(2)] by blast
    then show ?thesis using op(3,4) dr by (auto simp: grows_def table_simps split: if_splits)
  next
    case (FrameIn i f now)
    then have "state_core z = snd (apply_frame i f (state_core y))" "verifying z = verifying y"
      using z en by (auto simp: handle_frame_def isl_def split: prod.splits sum.splits) (cases f; simp)+
    then show ?thesis using G [of "{}"] apply_frame_inv [OF gi, of i f] by simp
  next
    case (Cleanup i)
    then show ?thesis using z dr remove_session_frame(1,3) [OF gi, of i] remove_session_absent [of "state_core y" i]
      by (cases "hm_contains (sessions (state_core y)) i") (auto simp: on_core_def table_simps split: if_splits)
  next
    case (Expire now)
    then show ?thesis using z dr expire_sessions [OF gi, of now] by (auto simp: on_core_def)
  next
    case (RouteFound oi bs now)
    then show ?thesis using z G [of "{}"] grows_route_resolved [OF core, of oi bs now] by (auto simp: on_core_def)
  next
    case (PeerEventIn now e)
    then show ?thesis using z G [of UNIV] event_grows [OF core, of now e] by (auto simp: on_core_def)
  next
    case (PeerCommitted oi k)
    then show ?thesis using z en S settles_peer_open_committed [of env k oi "state_core y"] by (auto simp: on_core_def)
  qed (use z dr S in \<open>auto simp: on_core_def settling begin_draining_def table_simps split: option.splits if_splits\<close>)
qed

text \<open>
  C12. Draining admits nothing. Once a reachable gateway drains it keeps draining; no later step admits a
  session, a binding, an operation for verification, or a pipe or remote open with a new identifier,
  so that the work left can only end; and a gateway that is drained stays drained.
\<close>
theorem draining_admits_nothing:
  assumes "gateway_reach env y" and "draining (state_core y)" and "gateway_step env y c z"
  shows "draining (state_core z) \<and>
    (\<forall>i. hm_contains (sessions (state_core z)) i \<longrightarrow> hm_contains (sessions (state_core y)) i) \<and>
    (\<forall>i. hm_contains (verifying z) i \<longrightarrow> hm_contains (verifying y) i) \<and>
    (\<forall>i b. bnds (local_registry (state_core z)) i = Some b \<longrightarrow> bnds (local_registry (state_core y)) i = Some b) \<and>
    (\<forall>p. unused (state_core y) p \<longrightarrow> unused (state_core z) p) \<and>
    (is_drained (state_core y) \<longrightarrow> is_drained (state_core z))"
proof -
  have inv: "sys_inv env y" by (rule gateway.reach_inv [OF assms(1)])
  have invz: "core env (state_core z)" "core env (state_core y)"
    using step_sys_inv [OF inv assms(3)] inv by (simp_all add: sys_inv_def gateway_inv_def)
  have u: "unused (state_core z) p" if "unused (state_core y) p" for p
    using step_unused [OF inv assms(3) that] assms(2) by blast
  have pub: "t = state_core y" if "commit_authorized draws i (ControlPublish r d) v now (state_core y) = Some (acts, t)" for draws i r d v now acts t
    using that assms(2) by (auto simp: commit_authorized_def apply_control_at_def publish_def split: if_splits)
  have "fewer_bindings (state_core y) (state_core z)"
  proof (cases "\<exists>draws i v now r d. c = Commit draws i v now \<and> hm_get (verifying y) i = Some (ControlPublish r d)")
    case True
    then have "state_core z = state_core y" using assms(3) pub by (auto simp: gateway_step_def split: option.splits)
    then show ?thesis by simp
  next
    case False
    then show ?thesis by (intro step_bindings [OF inv assms(3)]) blast
  qed
  moreover have "is_drained (state_core z)" if "is_drained (state_core y)"
    using that drained_unused [OF invz(1)] drained_unused [OF invz(2)] u by blast
  ultimately show ?thesis using step_draining [OF inv assms(3,2)] u by (simp add: fewer_bindings_def)
qed

theorem draining_admits_nothing_witness:
  "\<exists>z. gateway_step sample_env sample_draining (FrameIn 1 (FrameClose sample_pid) 9) z \<and> draining (state_core z) \<and>
     draining (state_core sample_draining) \<and> \<not> is_drained (state_core sample_draining)"
proof -
  obtain z where z: "gateway_step sample_env sample_draining (FrameIn 1 (FrameClose sample_pid) 9) z"
    by (cases "handle_frame 1 (FrameClose sample_pid) 9 (state_core sample_draining)";
        cases "fst (handle_frame 1 (FrameClose sample_pid) 9 (state_core sample_draining))")
      (auto simp: gateway_step_def sample_draining_def sample_open_def)
  moreover have d: "draining (state_core sample_draining)" "\<not> is_drained (state_core sample_draining)"
    by (simp_all add: sample_draining_def sample_open_def sample_core_def is_drained_def)
  ultimately show ?thesis using draining_admits_nothing [OF sample_draining_reach d(1) z] by blast
qed

end
