(* ===== verification/Gateway_Effects.thy ===== *)
theory Gateway_Effects
  imports Gateway_Sample
begin

text \<open>
  The effect loop (\<open>gateway/effects.rs\<close>, \<open>state/delivery.rs\<close>): the coalescing of terminal frames after a
  transport loss, and \<open>execute_all\<close>, which carries out the actions of a transition and feeds failed
  deliveries back into the state core. The channels, the control slots and the peer runtime are
  parameters: their answer to the n-th action of the loop.
\<close>

section \<open>Coalescing\<close>

fun frames_to :: "session_id \<Rightarrow> gateway_action \<Rightarrow> frame list" where
  "frames_to i (SendSdkFrame d) = (if delivery_target d = i then [delivery_frame d] else [])"
| "frames_to i (SendSdkTerminalBatch b) = (if batch_target b = i then batch_frames b else [])"
| "frames_to i _ = []"

fun is_sdk_send :: "gateway_action \<Rightarrow> bool" where
  "is_sdk_send (SendSdkFrame _) = True"
| "is_sdk_send (SendSdkTerminalBatch _) = True"
| "is_sdk_send _ = False"

abbreviation sent_to :: "session_id \<Rightarrow> gateway_action list \<Rightarrow> frame list" where
  "sent_to i acts \<equiv> concat (map (frames_to i) acts)"

text \<open>An indexed position holds the last action that says anything to its session.\<close>

definition batching_ok :: "batching \<Rightarrow> bool" where
  "batching_ok acc \<longleftrightarrow> (\<forall>i k. hm_get (fst acc) i = Some k \<longrightarrow> k < length (snd acc) \<and>
     (\<exists>b. snd acc ! k = SendSdkTerminalBatch b \<and> batch_target b = i) \<and>
     (\<forall>j. k < j \<and> j < length (snd acc) \<longrightarrow> frames_to i (snd acc ! j) = []))"

lemma concat_map_update:
  assumes "k < length xs" "\<And>j. k < j \<Longrightarrow> j < length xs \<Longrightarrow> f (xs ! j) = []"
  shows "concat (map f (xs[k := y])) = concat (map f (take k xs)) @ f y"
    "concat (map f xs) = concat (map f (take k xs)) @ f (xs ! k)"
proof -
  have tail: "concat (map f (drop (Suc k) xs)) = []" using assms(2) by (auto simp: in_set_conv_nth)
  show "concat (map f (xs[k := y])) = concat (map f (take k xs)) @ f y"
    using tail by (simp add: upd_conv_take_nth_drop [OF assms(1)])
  show "concat (map f xs) = concat (map f (take k xs)) @ f (xs ! k)"
    using tail by (subst id_take_nth_drop [OF assms(1)]) simp
qed

lemma batching_append:
  assumes "batching_ok (ix, out)" "\<And>i k. hm_get ix' i = Some k \<Longrightarrow> hm_get ix i = Some k \<and> frames_to i a = []"
  shows "batching_ok (ix', out @ [a])"
  using assms by (fastforce simp: batching_ok_def nth_append less_Suc_eq)

lemma batch_step_other:
  assumes "batching_ok (ix, out)" "\<not> is_sdk_send act"
  shows "batch_step act (ix, out) = (ix, out @ [act]) \<and> batching_ok (ix, out @ [act])"
  using assms by (cases act) (auto simp: batch_step_def intro!: batching_append)

lemma batch_step_frame:
  assumes ok: "batching_ok (ix, out)" and step: "batch_step (SendSdkFrame d) (ix, out) = (ix', out')"
  shows "batching_ok (ix', out') \<and> sent_to i out' = sent_to i out @ frames_to i (SendSdkFrame d) \<and>
    filter (\<lambda>a. \<not> is_sdk_send a) out' = filter (\<lambda>a. \<not> is_sdk_send a) out"
proof (cases "hm_get ix (delivery_target d)")
  case None
  show ?thesis
  proof (cases "is_transport_terminal_frame (delivery_frame d)")
    case True
    let ?b = "\<lparr>batch_target = delivery_target d, batch_frames = [delivery_frame d], batch_sender = delivery_sender d,
      batch_cancellation = delivery_cancellation d\<rparr>"
    have s: "ix' = hm_insert (delivery_target d) (length out) ix" "out' = out @ [SendSdkTerminalBatch ?b]"
      using step None True by (simp_all add: batch_step_def into_terminal_batch_def)
    have "batching_ok (ix', out')" using ok None unfolding batching_ok_def s
      by (fastforce simp: table_simps nth_append less_Suc_eq split: if_splits)
    then show ?thesis by (simp add: s)
  next
    case False
    then have s: "ix' = ix" "out' = out @ [SendSdkFrame d]" using step None by (simp_all add: batch_step_def into_terminal_batch_def)
    have "batching_ok (ix', out')" unfolding s by (rule batching_append [OF ok]) (use None in auto)
    then show ?thesis by (simp add: s)
  qed
next
  case (Some k)
  obtain b where k: "k < length out" "out ! k = SendSdkTerminalBatch b" "batch_target b = delivery_target d"
      "\<And>j. k < j \<Longrightarrow> j < length out \<Longrightarrow> frames_to (delivery_target d) (out ! j) = []"
    using ok Some by (force simp: batching_ok_def)
  show ?thesis
  proof (cases "is_transport_terminal_frame (delivery_frame d)")
    case True
    let ?a = "SendSdkTerminalBatch (b\<lparr>batch_frames := batch_frames b @ [delivery_frame d]\<rparr>)"
    have s: "ix' = ix" "out' = out[k := ?a]" using step Some True k by (simp_all add: batch_step_def batch_push_def)
    have keep: "frames_to j (out[k := ?a] ! n) = frames_to j (out ! n)" if "j \<noteq> delivery_target d" "n < length out" for j n
      using that k by (cases "n = k") auto
    have "sent_to i out' = sent_to i out @ frames_to i (SendSdkFrame d)"
    proof (cases "i = delivery_target d")
      case True
      then show ?thesis using concat_map_update(1) [OF k(1), of "frames_to i" ?a] concat_map_update(2) [OF k(1), of "frames_to i"] k by (simp add: s)
    next
      case False
      then have "map (frames_to i) out' = map (frames_to i) out" using keep by (intro nth_equalityI) (simp_all add: s)
      then show ?thesis using False by simp
    qed
    moreover have "batching_ok (ix', out')"
      unfolding batching_ok_def
    proof (intro allI impI)
      fix j n assume n: "hm_get (fst (ix', out')) j = Some n"
      then obtain c where c: "n < length out" "out ! n = SendSdkTerminalBatch c" "batch_target c = j"
          "\<And>m. n < m \<Longrightarrow> m < length out \<Longrightarrow> frames_to j (out ! m) = []"
        using ok by (force simp: batching_ok_def s)
      have "frames_to j (out' ! m) = []" if "n < m" "m < length out" for m
      proof (cases "j = delivery_target d")
        case True
        then have "n = k" using n Some by (simp add: s)
        then show ?thesis using c(4) [OF that] that by (simp add: s)
      qed (use c(4) [OF that] that keep in \<open>simp add: s\<close>)
      moreover have "\<exists>b. out' ! n = SendSdkTerminalBatch b \<and> batch_target b = j"
        using c k by (cases "n = k") (auto simp: s)
      ultimately show "n < length (snd (ix', out')) \<and> (\<exists>b. snd (ix', out') ! n = SendSdkTerminalBatch b \<and> batch_target b = j) \<and>
          (\<forall>m. n < m \<and> m < length (snd (ix', out')) \<longrightarrow> frames_to j (snd (ix', out') ! m) = [])"
        using c(1) by (simp add: s)
    qed
    moreover have "filter (\<lambda>a. \<not> is_sdk_send a) out' = filter (\<lambda>a. \<not> is_sdk_send a) out"
      using k(2) by (simp add: s upd_conv_take_nth_drop [OF k(1)]) (subst (3) id_take_nth_drop [OF k(1)], simp)
    ultimately show ?thesis by blast
  next
    case False
    then have s: "ix' = hm_remove (delivery_target d) ix" "out' = out @ [SendSdkFrame d]"
      using step Some k by (simp_all add: batch_step_def batch_push_def)
    have "batching_ok (ix', out')" unfolding s
      by (rule batching_append [OF ok]) (auto simp: table_simps split: if_splits)
    then show ?thesis by (simp add: s)
  qed
qed

definition unbatched :: "gateway_action list \<Rightarrow> bool" where
  "unbatched acts \<longleftrightarrow> (\<forall>b. SendSdkTerminalBatch b \<notin> set acts)"

lemma batch_fold:
  assumes "batching_ok acc" "unbatched acts"
  shows "sent_to i (snd (fold batch_step acts acc)) = sent_to i (snd acc) @ sent_to i acts \<and>
    filter (\<lambda>a. \<not> is_sdk_send a) (snd (fold batch_step acts acc)) = filter (\<lambda>a. \<not> is_sdk_send a) (snd acc) @ filter (\<lambda>a. \<not> is_sdk_send a) acts"
  using assms
proof (induction acts arbitrary: acc)
  case (Cons a acts)
  obtain ix out where acc: "acc = (ix, out)" by fastforce
  obtain ix' out' where step: "batch_step a (ix, out) = (ix', out')" by fastforce
  have rest: "unbatched acts" and a: "\<And>b. a \<noteq> SendSdkTerminalBatch b" using Cons.prems(2) by (auto simp: unbatched_def)
  have "batching_ok (ix', out') \<and> sent_to i out' = sent_to i out @ frames_to i a \<and>
      filter (\<lambda>a. \<not> is_sdk_send a) out' = filter (\<lambda>a. \<not> is_sdk_send a) out @ filter (\<lambda>a. \<not> is_sdk_send a) [a]"
  proof (cases "is_sdk_send a")
    case True
    then obtain d where "a = SendSdkFrame d" using a by (cases a) auto
    then show ?thesis using batch_step_frame [of ix out d ix' out' i] step Cons.prems(1) acc by simp
  next
    case False
    then have "frames_to i a = []" by (cases a) auto
    then show ?thesis using batch_step_other [of ix out a] step Cons.prems(1) acc False by auto
  qed
  then show ?case using Cons.IH [of "(ix', out')"] rest by (simp add: acc step)
qed simp

lemma lose_streams_unbatched: "unbatched (fst (lose_streams ls s))"
proof (induction ls arbitrary: s)
  case (Cons l ls)
  have to: "SendSdkTerminalBatch b \<notin> set (send_to t j f)" for b t j f by (simp add: send_to_def split: option.split)
  have "unbatched (fst (peer_transport_lost_stream k oi ob t))" for k oi ob t
    by (auto simp: unbatched_def peer_transport_lost_stream_def fail_remote_attempt_def open_failed_def to split: option.splits prod.splits)
  then show ?case using Cons.IH by (auto simp: unbatched_def Let_def case_prod_unfold)
qed (simp add: unbatched_def)

text \<open>
  C14. Coalescing loses and reorders nothing. When a peer transport is lost, each session is sent exactly the
  frames the state core decided on, in their order, however they were grouped into terminal batches;
  what is not for a session keeps its order.
\<close>
theorem transport_loss_lossless:
  "snd (handle_peer_event now (EventTransportLost g tid ls) s) = snd (lose_streams ls s) \<and>
   sent_to i (fst (handle_peer_event now (EventTransportLost g tid ls) s)) = sent_to i (fst (lose_streams ls s)) \<and>
   filter (\<lambda>a. \<not> is_sdk_send a) (fst (handle_peer_event now (EventTransportLost g tid ls) s)) =
     filter (\<lambda>a. \<not> is_sdk_send a) (fst (lose_streams ls s))"
proof -
  have "batching_ok ([], [])" by (simp add: batching_ok_def)
  from batch_fold [OF this lose_streams_unbatched, of i ls s] show ?thesis
    by (simp add: case_prod_unfold batch_transport_lost_terminal_frames_def)
qed

section \<open>Carrying out actions\<close>

datatype delivery_failure = OfferQueueFull session_id pipe_id | SessionUnavailable session_id

text \<open>A delivery that fails for good cancels the session's token.\<close>

definition deliver :: "send_result \<Rightarrow> delivery \<Rightarrow> gateway_state \<Rightarrow> delivery_failure option transition" where
  "deliver result d s =
     (case result of
        Sent \<Rightarrow> (None, s)
      | _ \<Rightarrow> (case (result, delivery_frame d) of
                (QueueFull, FrameOffer p _ _) \<Rightarrow> (Some (OfferQueueFull (delivery_target d) p), s)
              | _ \<Rightarrow> (Some (SessionUnavailable (delivery_target d)), s\<lparr>cancelled := delivery_cancellation d # cancelled s\<rparr>)))"

definition deliver_batch :: "send_result \<Rightarrow> terminal_batch_delivery \<Rightarrow> gateway_state \<Rightarrow> delivery_failure option transition" where
  "deliver_batch result b s =
     (if result = Sent then (None, s)
      else (Some (SessionUnavailable (batch_target b)), s\<lparr>cancelled := batch_cancellation b # cancelled s\<rparr>))"

text \<open>
  The answers of the runtime to the n-th action: of the session's bounded channel, whether a control slot
  is free, the error of a peer frame that did not commit and whether the RESET sent in its place did.
  \<open>distributed\<close> says that the Gateway has its control effects and its peer handle: both come from one runtime.
\<close>

record runtime =
  distributed :: bool
  channel :: "nat \<Rightarrow> send_result"
  control_permit :: "nat \<Rightarrow> bool"
  peer_commit :: "nat \<Rightarrow> (error_code \<times> string) option"
  reset_commit :: "nat \<Rightarrow> bool"

text \<open>What the loop asks of the peer runtime, and what it keeps besides its queue.\<close>

datatype peer_call = SendToPeer peer_delivery | CloseTransport peer_stream_key

record execution =
  cleaned :: "session_id list"
  peer_calls :: "peer_call list"

fun reject_control_effect :: "gateway_action \<Rightarrow> string \<Rightarrow> gateway_state \<Rightarrow> gateway_action list transition" where
  "reject_control_effect (ResolveRoute oi _) message s = route_failed oi ResourceExhausted message s"
| "reject_control_effect (OpenPeer oi _ _ _ _ _) message s = peer_open_commit_failed oi ResourceExhausted NotObserved message s"
| "reject_control_effect _ message s = ([], s)"

definition spawn_control_effect :: "runtime \<Rightarrow> nat \<Rightarrow> gateway_action \<Rightarrow> gateway_state \<Rightarrow> gateway_action list transition" where
  "spawn_control_effect rt n act s =
     (if \<not> distributed rt then reject_control_effect act ''distributed control runtime is disabled'' s
      else if \<not> control_permit rt n then reject_control_effect act ''Gateway control effect limit reached'' s
      else ([], s))"

fun delivery_key :: "peer_delivery \<Rightarrow> peer_stream_key" where
  "delivery_key (PeerOpened k) = k"
| "delivery_key (PeerFailed k _ _ _) = k"
| "delivery_key (PeerData k _) = k"
| "delivery_key (PeerFin k) = k"
| "delivery_key (PeerClose k) = k"
| "delivery_key (PeerReset k _ _) = k"

fun recover_stream :: "peer_delivery \<Rightarrow> bool" where
  "recover_stream (PeerOpened _) = True"
| "recover_stream (PeerData _ _) = True"
| "recover_stream (PeerFin _) = True"
| "recover_stream _ = False"

fun close_transport_on_failure :: "peer_delivery \<Rightarrow> bool" where
  "close_transport_on_failure (PeerReset _ _ _) = True"
| "close_transport_on_failure _ = False"

definition cleanup_unsent_peer_delivery ::
  "peer_delivery \<Rightarrow> error_code \<Rightarrow> string \<Rightarrow> gateway_state \<Rightarrow> gateway_action list transition" where
  "cleanup_unsent_peer_delivery d code message s = (if recover_stream d then peer_reset (delivery_key d) code message s else ([], s))"

definition send_peer_delivery ::
  "runtime \<Rightarrow> nat \<Rightarrow> peer_delivery \<Rightarrow> gateway_state \<Rightarrow> (gateway_action list \<times> peer_call list) transition" where
  "send_peer_delivery rt n d s =
     (let key = delivery_key d in
      if \<not> distributed rt then
        (case cleanup_unsent_peer_delivery d Internal ''Gateway peer relay is not configured'' s of (acts, t) \<Rightarrow> ((acts, []), t))
      else (case peer_commit rt n of
          None \<Rightarrow> (([], [SendToPeer d]), s)
        | Some (code, message) \<Rightarrow>
            if close_transport_on_failure d then (([], [SendToPeer d, CloseTransport key]), s)
            else if \<not> recover_stream d then (([], [SendToPeer d]), s)
            else (case peer_reset key code message s of (acts, t) \<Rightarrow>
              ((acts, [SendToPeer d, SendToPeer (PeerReset key code message)] @ (if reset_commit rt n then [] else [CloseTransport key])), t))))"

text \<open>One iteration: the actions it adds, what the loop keeps, and the state.\<close>

definition recover :: "delivery_failure option \<Rightarrow> execution \<Rightarrow> gateway_state \<Rightarrow> gateway_action list \<times> execution \<times> gateway_state" where
  "recover failure ex s =
     (case failure of
        None \<Rightarrow> ([], ex, s)
      | Some (OfferQueueFull i p) \<Rightarrow> (case offer_delivery_rejected i p s of (acts, t) \<Rightarrow> (acts, ex, t))
      | Some (SessionUnavailable i) \<Rightarrow>
          if i \<in> set (cleaned ex) then ([], ex, s)
          else (case remove_session i s of (acts, t) \<Rightarrow> (acts, ex\<lparr>cleaned := i # cleaned ex\<rparr>, t)))"

definition execute_one ::
  "runtime \<Rightarrow> nat \<Rightarrow> gateway_action \<Rightarrow> execution \<Rightarrow> gateway_state \<Rightarrow> gateway_action list \<times> execution \<times> gateway_state" where
  "execute_one rt n act ex s =
     (case act of
        SendSdkFrame d \<Rightarrow> (case deliver (channel rt n) d s of (failure, s1) \<Rightarrow> recover failure ex s1)
      | SendSdkTerminalBatch b \<Rightarrow> (case deliver_batch (channel rt n) b s of (failure, s1) \<Rightarrow> recover failure ex s1)
      | PublishRegistration _ _ \<Rightarrow> ([], ex, s)
      | SendPeerFrame d \<Rightarrow>
          (case send_peer_delivery rt n d s of ((acts, calls), t) \<Rightarrow> (acts, ex\<lparr>peer_calls := peer_calls ex @ calls\<rparr>, t))
      | _ \<Rightarrow> (case spawn_control_effect rt n act s of (acts, t) \<Rightarrow> (acts, ex, t)))"

text \<open>What can still fail: an iteration that adds an action removes a session, a pipe or an attempt.\<close>

definition potential :: "gateway_state \<Rightarrow> nat" where
  "potential s = length (sessions s) + length (pipes s) + length (remote_open_attempts s)"

definition consumes :: "gateway_state \<Rightarrow> gateway_action list \<Rightarrow> gateway_state \<Rightarrow> bool" where
  "consumes s acts t \<longleftrightarrow> potential t < potential s \<or> acts = [] \<and> potential t = potential s"

lemma length_remove_present: "hm_get m k = Some v \<Longrightarrow> length (hm_remove k m) < length m"
  by (induction m) (auto split: if_splits intro: le_imp_less_Suc length_delete_le)

lemma potential_remove_pipe:
  assumes "remove_pipe p s = (r, t)"
  shows "potential t \<le> potential s" "r \<noteq> None \<Longrightarrow> potential t < potential s"
  using remove_pipe_frame [OF assms] length_delete_le [of p "pipes s"] length_remove_present [of "pipes s" p]
  by (auto simp: potential_def same_rest_def)

lemma potential_remove_pipe_snd: "potential (snd (remove_pipe p s)) \<le> potential s"
  using potential_remove_pipe(1) [of p s "fst (remove_pipe p s)"] by simp

lemma potential_take:
  assumes "take_remote_attempt oi s = (r, t)"
  shows "potential t \<le> potential s" "r \<noteq> None \<Longrightarrow> potential t < potential s"
  using take_remote_attempt_frame [OF assms] length_delete_le [of oi "remote_open_attempts s"]
    length_remove_present [of "remote_open_attempts s" oi]
  by (auto simp: potential_def same_rest_def)

lemma potential_loops:
  "potential (forget_pipes pids s) \<le> potential s" "potential (drop_all ois s) \<le> potential s"
proof -
  show "potential (forget_pipes pids s) \<le> potential s"
  proof (induction pids arbitrary: s)
    case (Cons p pids)
    then show ?case using potential_remove_pipe_snd [of p s] order_trans by (simp, blast)
  qed simp
  show "potential (drop_all ois s) \<le> potential s"
  proof (induction ois arbitrary: s)
    case (Cons oi ois)
    have "potential (snd (take_remote_attempt oi s)) \<le> potential s"
      using potential_take(1) [of oi s "fst (take_remote_attempt oi s)"] by simp
    then show ?case using Cons order_trans by (simp, blast)
  qed simp
qed

lemma nothing_removed:
  "remove_pipe p s = (None, t) \<Longrightarrow> t = s" "take_remote_attempt oi s = (None, t) \<Longrightarrow> t = s"
  by (auto simp: remove_pipe_def take_remote_attempt_def Let_def split: option.splits pipe_phase.splits)

lemma consumes_refl [simp]: "consumes s [] s"
  by (simp add: consumes_def)

lemma consumes_removed:
  "remove_pipe p s = (Some e, t) \<Longrightarrow> consumes s acts t" "remove_pipe p s = (None, t) \<Longrightarrow> consumes s [] t"
  "take_remote_attempt oi s = (Some a, t) \<Longrightarrow> consumes s acts t" "take_remote_attempt oi s = (None, t) \<Longrightarrow> consumes s [] t"
  using potential_remove_pipe(2) [of p s "Some e" t] potential_take(2) [of oi s "Some a" t] nothing_removed(1) [of p s t]
    nothing_removed(2) [of oi s t]
  by (auto simp: consumes_def)

lemma consumes_offer_rejected: "offer_delivery_rejected i p s = (acts, t) \<Longrightarrow> consumes s acts t"
  by (auto simp: offer_delivery_rejected_def split: if_splits prod.splits option.splits intro: consumes_removed)

lemma consumes_route_failed: "route_failed oi c m s = (acts, t) \<Longrightarrow> consumes s acts t"
  by (auto simp: route_failed_def fail_remote_attempt_def split: prod.splits option.splits attempt_match.splits intro: consumes_removed)

lemma consumes_commit_failed: "peer_open_commit_failed oi c ob m s = (acts, t) \<Longrightarrow> consumes s acts t"
  by (auto simp: peer_open_commit_failed_def fail_remote_attempt_def split: prod.splits option.splits attempt_match.splits intro: consumes_removed)

lemma consumes_snd_remove:
  assumes "hm_get (pipes s) p = Some e"
  shows "consumes s acts (snd (remove_pipe p s))"
proof -
  obtain r t where r: "remove_pipe p s = (r, t)" by fastforce
  then have "r = Some e" using remove_pipe_frame [OF r] assms by simp
  then show ?thesis using consumes_removed(1) r by simp
qed

lemma consumes_peer_reset: "peer_reset k c m s = (acts, t) \<Longrightarrow> consumes s acts t"
  by (auto simp: peer_reset_def relay_reset_def protocol_reset_def Let_def split: if_splits prod.splits option.splits
      intro: consumes_removed consumes_snd_remove)

lemma consumes_remove_session:
  assumes "remove_session i s = (acts, t)"
  shows "consumes s acts t"
proof (cases "hm_get (sessions s) i")
  case None
  then show ?thesis using assms by (simp add: remove_session_def)
next
  case (Some entry)
  define s2 where "s2 = s\<lparr>sessions := hm_remove i (sessions s), cancelled := entry_cancellation entry # cancelled s,
    local_registry := snd (registry_remove_session i (local_registry s))\<rparr>"
  define pending where "pending = map fst (filter (\<lambda>(oi, a). origin_session_id (attempt_pipe_id a) = i) (remote_open_attempts s))"
  define s3 where "s3 = drop_all pending s2"
  have "t = forget_pipes (owned_pipes i s3) s3"
    using assms Some
    by (auto simp: remove_session_def Let_def case_prod_unfold drop_attempts_state loop_states(3) pending_def s2_def s3_def)
  then have "potential t \<le> potential s3" using potential_loops(1) by simp
  also have "potential s3 \<le> potential s2" using potential_loops(2) by (simp add: s3_def)
  also have "potential s2 < potential s" using length_remove_present [OF Some] by (simp add: potential_def s2_def)
  finally show ?thesis by (simp add: consumes_def)
qed

lemma potential_cancelled [simp]: "potential (s\<lparr>cancelled := l\<rparr>) = potential s"
  by (simp add: potential_def)

lemma consumes_cancelled: "consumes (s\<lparr>cancelled := l\<rparr>) acts t = consumes s acts t"
  by (simp add: consumes_def)

lemma consumes_recover: "recover failure ex s = (acts, ex', t) \<Longrightarrow> consumes s acts t"
  by (auto simp: recover_def split: option.splits delivery_failure.splits if_splits prod.splits
      intro: consumes_offer_rejected consumes_remove_session)

lemma execute_one_consumes:
  assumes "execute_one rt n act ex s = (acts, ex', t)"
  shows "consumes s acts t"
proof -
  have d: "consumes s acts t" if "deliver x dl s = (f, u)" "recover f ex u = (acts, ex', t)" for x dl f u
    using consumes_recover [OF that(2)] that(1)
    by (auto simp: deliver_def consumes_cancelled split: send_result.splits frame.splits)
  have b: "consumes s acts t" if "deliver_batch x bt s = (f, u)" "recover f ex u = (acts, ex', t)" for x bt f u
    using consumes_recover [OF that(2)] that(1) by (auto simp: deliver_batch_def consumes_cancelled split: if_splits)
  have p: "consumes s acts t" if "send_peer_delivery rt n dl s = ((acts, calls), t)" for dl calls
    using that by (auto simp: send_peer_delivery_def cleanup_unsent_peer_delivery_def Let_def
        split: if_splits option.splits prod.splits intro: consumes_peer_reset)
  have c: "consumes s acts t" if "spawn_control_effect rt n act s = (acts, t)"
    using that by (cases act) (auto simp: spawn_control_effect_def split: if_splits intro: consumes_route_failed consumes_commit_failed)
  show ?thesis
    using assms d b p c by (cases act) (auto simp: execute_one_def split: prod.splits)
qed

text \<open>The loop of \<open>execute_all\<close>, starting at the n-th action with a queue and the sessions cleaned so far.\<close>

function execute_all ::
  "runtime \<Rightarrow> nat \<Rightarrow> gateway_action list \<Rightarrow> execution \<Rightarrow> gateway_state \<Rightarrow> execution \<times> gateway_state" where
  "execute_all rt n [] ex s = (ex, s)"
| "execute_all rt n (act # pending) ex s =
     (case execute_one rt n act ex s of (acts, ex', t) \<Rightarrow> execute_all rt (Suc n) (pending @ acts) ex' t)"
  by pat_completeness auto

termination
  by (relation "measures [\<lambda>(rt, n, pending, ex, s). potential s, \<lambda>(rt, n, pending, ex, s). length pending]")
    (auto simp: consumes_def dest!: sym [THEN execute_one_consumes])

lemma recover_inv:
  assumes "gateway_inv env s" "recover failure ex s = (acts, ex', t)"
  shows "gateway_inv env t"
  using assms settles_inv [OF settles_offer_delivery_rejected assms(1)] remove_session_inv [OF assms(1)]
  by (auto simp: recover_def split: option.splits delivery_failure.splits if_splits prod.splits) (metis snd_conv)+

lemma cancelled_inv [simp]: "gateway_inv env (s\<lparr>cancelled := l\<rparr>) = gateway_inv env s"
  by (simp add: gateway_inv_def anchored_def dialed_by_def)

lemma execute_one_inv:
  assumes inv: "gateway_inv env s" and one: "execute_one rt n act ex s = (acts, ex', t)"
  shows "gateway_inv env t"
proof -
  have d: "gateway_inv env t" if "deliver x dl s = (f, u)" "recover f ex u = (acts, ex', t)" for x dl f u
    using that inv by (intro recover_inv [OF _ that(2)]) (auto simp: deliver_def split: send_result.splits frame.splits)
  have b: "gateway_inv env t" if "deliver_batch x bt s = (f, u)" "recover f ex u = (acts, ex', t)" for x bt f u
    using that inv by (intro recover_inv [OF _ that(2)]) (auto simp: deliver_batch_def split: if_splits)
  note S = settles_inv [OF _ inv]
  have "gateway_inv env (snd (send_peer_delivery rt n dl s))" for dl
    using inv S [OF settles_peer_reset] by (auto simp: send_peer_delivery_def cleanup_unsent_peer_delivery_def Let_def case_prod_unfold split: option.split)
  then have p: "gateway_inv env t" if "send_peer_delivery rt n dl s = ((acts, calls), t)" for dl calls using that by (metis snd_conv)
  have "gateway_inv env (snd (spawn_control_effect rt n act s))"
    using inv S [OF settles_route_failed] S [OF settles_peer_open_commit_failed]
    by (cases act) (auto simp: spawn_control_effect_def)
  then have c: "gateway_inv env t" if "spawn_control_effect rt n act s = (acts, t)" using that by (metis snd_conv)
  show ?thesis using one inv d b p c by (cases act) (auto simp: execute_one_def split: prod.splits)
qed

lemma execute_all_inv: "gateway_inv env s \<Longrightarrow> gateway_inv env (snd (execute_all rt n acts ex s))"
  by (induction rt n acts ex s rule: execute_all.induct) (auto split: prod.splits dest: execute_one_inv)

text \<open>The loop only removes: sessions and pipes it leaves were there before, and no cleaned session is live.\<close>

definition only_removes :: "gateway_state \<Rightarrow> gateway_state \<Rightarrow> bool" where
  "only_removes s t \<longleftrightarrow> (\<forall>i. hm_contains (sessions t) i \<longrightarrow> hm_get (sessions t) i = hm_get (sessions s) i) \<and>
     (\<forall>p e. hm_get (pipes t) p = Some e \<longrightarrow> hm_get (pipes s) p = Some e)"

lemma only_removes_refl [simp]: "only_removes s s" "only_removes s (s\<lparr>cancelled := l\<rparr>)"
  by (simp_all add: only_removes_def)

lemma only_removes_trans: "only_removes s t \<Longrightarrow> only_removes t u \<Longrightarrow> only_removes s u"
  by (fastforce simp: only_removes_def)

lemma only_removes_pipe: "remove_pipe p s = (r, t) \<Longrightarrow> only_removes s t"
  using remove_pipe_frame [of p s r t] by (auto simp: only_removes_def same_rest_def table_simps split: if_splits)

lemma only_removes_pipe_snd: "only_removes s (snd (remove_pipe p s))"
  by (rule only_removes_pipe [of p s "fst (remove_pipe p s)"]) simp

lemma only_removes_take: "take_remote_attempt oi s = (r, t) \<Longrightarrow> only_removes s t"
  using take_remote_attempt_frame [of oi s r t] by (auto simp: only_removes_def same_rest_def)

lemma only_removes_session:
  assumes "gateway_inv env s"
  shows "only_removes s (snd (remove_session i s))" "\<not> hm_contains (sessions (snd (remove_session i s))) i"
  using remove_session_frame(1,8) [OF assms, of i] remove_session_absent [of s i]
  by (cases "hm_contains (sessions s) i", auto simp: only_removes_def table_simps split: if_splits)+

lemma recover_removes:
  assumes inv: "gateway_inv env s" and gone: "\<And>i. i \<in> set (cleaned ex) \<Longrightarrow> \<not> hm_contains (sessions s) i"
    and r: "recover failure ex s = (acts, ex', t)"
  shows "only_removes s t" "\<And>i. i \<in> set (cleaned ex') \<Longrightarrow> \<not> hm_contains (sessions t) i" "set (cleaned ex) \<subseteq> set (cleaned ex')"
    "\<And>i. failure = Some (SessionUnavailable i) \<Longrightarrow> i \<in> set (cleaned ex')"
    "\<And>i p e. failure = Some (OfferQueueFull i p) \<Longrightarrow> hm_get (pipes t) p = Some e \<Longrightarrow> \<not> (phase e = Offered \<and> acceptor e = Sdk i)"
proof -
  consider "failure = None" | i p where "failure = Some (OfferQueueFull i p)" | i where "failure = Some (SessionUnavailable i)"
    by (cases failure; metis delivery_failure.exhaust)
  then have "only_removes s t \<and> (\<forall>i \<in> set (cleaned ex'). \<not> hm_contains (sessions t) i) \<and> set (cleaned ex) \<subseteq> set (cleaned ex') \<and>
    (\<forall>i. failure = Some (SessionUnavailable i) \<longrightarrow> i \<in> set (cleaned ex')) \<and>
    (\<forall>i p e. failure = Some (OfferQueueFull i p) \<and> hm_get (pipes t) p = Some e \<longrightarrow> \<not> (phase e = Offered \<and> acceptor e = Sdk i))"
  proof cases
    case 1
    then show ?thesis using r gone by (auto simp: recover_def)
  next
    case (2 i p)
    then have t: "offer_delivery_rejected i p s = (acts, t)" "ex' = ex" using r by (auto simp: recover_def split: prod.splits)
    then have rem: "only_removes s t"
      by (auto simp: offer_delivery_rejected_def split: if_splits prod.splits option.splits intro: only_removes_pipe)
    moreover have "\<not> (phase e = Offered \<and> acceptor e = Sdk i)" if "hm_get (pipes t) p = Some e" for e
      using that t(1) by (auto simp: offer_delivery_rejected_def table_simps dest!: remove_pipe_frame split: if_splits prod.splits option.splits)
    ultimately show ?thesis using 2 t(2) gone by (fastforce simp: only_removes_def)
  next
    case (3 i)
    show ?thesis
    proof (cases "i \<in> set (cleaned ex)")
      case True
      then show ?thesis using 3 r gone by (auto simp: recover_def)
    next
      case False
      then have t: "t = snd (remove_session i s)" "ex' = ex\<lparr>cleaned := i # cleaned ex\<rparr>" using 3 r by (auto simp: recover_def split: prod.splits)
      show ?thesis using only_removes_session [OF inv, of i] gone 3 unfolding t by (fastforce simp: only_removes_def)
    qed
  qed
  then show "only_removes s t" "\<And>i. i \<in> set (cleaned ex') \<Longrightarrow> \<not> hm_contains (sessions t) i" "set (cleaned ex) \<subseteq> set (cleaned ex')"
    "\<And>i. failure = Some (SessionUnavailable i) \<Longrightarrow> i \<in> set (cleaned ex')"
    "\<And>i p e. failure = Some (OfferQueueFull i p) \<Longrightarrow> hm_get (pipes t) p = Some e \<Longrightarrow> \<not> (phase e = Offered \<and> acceptor e = Sdk i)"
    by blast+
qed

text \<open>
  What the n-th action leaves behind: a frame reached its session's queue, or the session is gone; an OFFER
  that found the queue full leaves the session but not the offer.
\<close>

fun delivered_or_gone :: "runtime \<Rightarrow> nat \<Rightarrow> gateway_action \<Rightarrow> gateway_state \<Rightarrow> bool" where
  "delivered_or_gone rt n (SendSdkFrame d) t \<longleftrightarrow>
     channel rt n = Sent \<or>
     (case (channel rt n, delivery_frame d) of
        (QueueFull, FrameOffer p _ _) \<Rightarrow>
          (case hm_get (pipes t) p of None \<Rightarrow> True | Some e \<Rightarrow> \<not> (phase e = Offered \<and> acceptor e = Sdk (delivery_target d)))
      | _ \<Rightarrow> \<not> hm_contains (sessions t) (delivery_target d))"
| "delivered_or_gone rt n (SendSdkTerminalBatch b) t \<longleftrightarrow> channel rt n = Sent \<or> \<not> hm_contains (sessions t) (batch_target b)"
| "delivered_or_gone rt n _ t \<longleftrightarrow> True"

lemma delivered_mono:
  assumes "only_removes s t" "delivered_or_gone rt n act s"
  shows "delivered_or_gone rt n act t"
proof (cases act)
  case (SendSdkFrame d)
  then show ?thesis using assms
    by (cases "channel rt n"; cases "delivery_frame d")
      (fastforce simp: only_removes_def split: option.splits)+
qed (use assms in \<open>auto simp: only_removes_def\<close>)

definition swept :: "execution \<Rightarrow> gateway_state \<Rightarrow> bool" where
  "swept ex s \<longleftrightarrow> (\<forall>i \<in> set (cleaned ex). \<not> hm_contains (sessions s) i)"

lemma deliver_recover:
  assumes "gateway_inv env s" "swept ex s" "deliver (channel rt n) d s = (failure, s1)" "recover failure ex s1 = (acts, ex', t)"
  shows "only_removes s t \<and> swept ex' t \<and> delivered_or_gone rt n (SendSdkFrame d) t"
proof -
  have s1: "gateway_inv env s1" "swept ex s1" "only_removes s s1"
    using assms(1-3) by (auto simp: deliver_def swept_def split: send_result.splits frame.splits)
  have gone: "i \<in> set (cleaned ex) \<Longrightarrow> \<not> hm_contains (sessions s1) i" for i using s1(2) by (simp add: swept_def)
  note r = recover_removes [OF s1(1) gone assms(4)]
  have "delivered_or_gone rt n (SendSdkFrame d) t"
    using assms(3) r(2,4,5) by (auto simp: deliver_def split: send_result.splits frame.splits option.splits)
  then show ?thesis using only_removes_trans [OF s1(3) r(1)] r(2) by (simp add: swept_def)
qed

lemma batch_recover:
  assumes "gateway_inv env s" "swept ex s" "deliver_batch (channel rt n) b s = (failure, s1)" "recover failure ex s1 = (acts, ex', t)"
  shows "only_removes s t \<and> swept ex' t \<and> delivered_or_gone rt n (SendSdkTerminalBatch b) t"
proof -
  have s1: "gateway_inv env s1" "swept ex s1" "only_removes s s1"
    using assms(1-3) by (auto simp: deliver_batch_def swept_def split: if_splits)
  have gone: "i \<in> set (cleaned ex) \<Longrightarrow> \<not> hm_contains (sessions s1) i" for i using s1(2) by (simp add: swept_def)
  note r = recover_removes [OF s1(1) gone assms(4)]
  have "delivered_or_gone rt n (SendSdkTerminalBatch b) t"
    using assms(3) r(2,4) by (auto simp: deliver_batch_def split: if_splits)
  then show ?thesis using only_removes_trans [OF s1(3) r(1)] r(2) by (simp add: swept_def)
qed

lemma only_removes_peer_reset: "peer_reset k c m s = (acts, t) \<Longrightarrow> only_removes s t"
  by (auto simp: peer_reset_def relay_reset_def protocol_reset_def Let_def split: if_splits prod.splits option.splits
      intro: only_removes_pipe only_removes_take only_removes_pipe_snd)

lemma swept_removes: "only_removes s t \<Longrightarrow> swept ex s \<Longrightarrow> cleaned ex' = cleaned ex \<Longrightarrow> swept ex' t"
  by (fastforce simp: only_removes_def swept_def)

lemma spawn_removes: "spawn_control_effect rt n act s = (acts, t) \<Longrightarrow> only_removes s t"
  by (cases act) (auto simp: spawn_control_effect_def route_failed_def peer_open_commit_failed_def fail_remote_attempt_def
      split: if_splits prod.splits option.splits attempt_match.splits intro: only_removes_take)

lemma peer_delivery_removes: "send_peer_delivery rt n d s = ((acts, calls), t) \<Longrightarrow> only_removes s t"
  by (auto simp: send_peer_delivery_def cleanup_unsent_peer_delivery_def Let_def
      split: if_splits option.splits prod.splits intro: only_removes_peer_reset)

lemma execute_one_removes:
  assumes "gateway_inv env s" "swept ex s" "execute_one rt n act ex s = (acts, ex', t)"
  shows "only_removes s t \<and> swept ex' t \<and> delivered_or_gone rt n act t"
proof (cases act)
  case (SendSdkFrame d)
  then show ?thesis using assms(3) deliver_recover [OF assms(1,2)] by (auto simp: execute_one_def split: prod.splits)
next
  case (SendSdkTerminalBatch b)
  then show ?thesis using assms(3) batch_recover [OF assms(1,2)] by (auto simp: execute_one_def split: prod.splits)
next
  case (SendPeerFrame d)
  then show ?thesis using assms(3) swept_removes [OF peer_delivery_removes assms(2)]
    by (auto simp: execute_one_def split: prod.splits dest: peer_delivery_removes)
qed (use assms in \<open>auto simp: execute_one_def split: prod.splits dest: spawn_removes intro: swept_removes [OF spawn_removes assms(2)]\<close>)

lemma execute_all_removes:
  assumes "gateway_inv env s" "swept ex s" "execute_all rt n acts ex s = (ex', t)"
  shows "only_removes s t \<and> swept ex' t \<and> (\<forall>k < length acts. delivered_or_gone rt (n + k) (acts ! k) t)"
  using assms
proof (induction rt n acts ex s arbitrary: ex' t rule: execute_all.induct)
  case (2 rt n act pending ex s)
  obtain more ex1 s1 where one: "execute_one rt n act ex s = (more, ex1, s1)" by (metis prod_cases3)
  note this_step = execute_one_removes [OF 2(2,3) one]
  have rest: "only_removes s1 t \<and> swept ex' t \<and>
      (\<forall>k < length (pending @ more). delivered_or_gone rt (Suc n + k) ((pending @ more) ! k) t)"
    using 2(1) [OF one [symmetric] refl execute_one_inv [OF 2(2) one]] this_step 2(4) one by simp
  have "delivered_or_gone rt (n + k) ((act # pending) ! k) t" if "k < length (act # pending)" for k
  proof (cases k)
    case 0
    then show ?thesis using delivered_mono [of s1 t rt n act] this_step rest by simp
  next
    case (Suc j)
    then show ?thesis using rest [THEN conjunct2, THEN conjunct2, rule_format, of j] that by (simp add: nth_append)
  qed
  then show ?case using this_step rest only_removes_trans by blast
qed auto

text \<open>Only the sessions the loop cleans up lose their entry.\<close>

definition keeps_others :: "execution \<Rightarrow> execution \<Rightarrow> gateway_state \<Rightarrow> gateway_state \<Rightarrow> bool" where
  "keeps_others ex ex' s t \<longleftrightarrow> set (cleaned ex) \<subseteq> set (cleaned ex') \<and>
     (\<forall>i. i \<notin> set (cleaned ex') \<longrightarrow> hm_get (sessions t) i = hm_get (sessions s) i)"

lemma settles_sessions: "gateway_inv env s \<Longrightarrow> settles env s t \<Longrightarrow> sessions t = sessions s"
  by (simp add: gateway_inv_def settles_def shrinks_def same_rest_def)

lemma recover_keeps:
  assumes inv: "gateway_inv env s" and r: "recover failure ex s = (acts, ex', t)"
  shows "keeps_others ex ex' s t"
proof -
  have o: "sessions t = sessions s" if "offer_delivery_rejected i p s = (acts, t)" for i p
    using settles_sessions [OF inv settles_offer_delivery_rejected, of i p] that by simp
  have "hm_get (sessions t) j = hm_get (sessions s) j" if "remove_session i s = (acts, t)" "j \<noteq> i" for i j
    using remove_session_frame(1) [OF inv, of i] remove_session_absent [of s i] that
    by (cases "hm_contains (sessions s) i") (auto simp: table_simps)
  then show ?thesis using r o
    by (auto simp: recover_def keeps_others_def split: option.splits delivery_failure.splits if_splits prod.splits)
qed

lemma execute_one_keeps:
  assumes inv: "gateway_inv env s" and one: "execute_one rt n act ex s = (acts, ex', t)"
  shows "keeps_others ex ex' s t"
proof -
  note S = settles_sessions [OF inv]
  have d: "keeps_others ex ex' s t" if "deliver x dl s = (f, u)" "recover f ex u = (acts, ex', t)" for x dl f u
  proof -
    have "gateway_inv env u \<and> sessions u = sessions s"
      using that(1) inv by (auto simp: deliver_def split: send_result.splits frame.splits)
    then show ?thesis using recover_keeps [OF _ that(2)] by (fastforce simp: keeps_others_def)
  qed
  have b: "keeps_others ex ex' s t" if "deliver_batch x bt s = (f, u)" "recover f ex u = (acts, ex', t)" for x bt f u
  proof -
    have "gateway_inv env u \<and> sessions u = sessions s" using that(1) inv by (auto simp: deliver_batch_def split: if_splits)
    then show ?thesis using recover_keeps [OF _ that(2)] by (fastforce simp: keeps_others_def)
  qed
  have "sessions (snd (send_peer_delivery rt n dl s)) = sessions s" for dl
    using S [OF settles_peer_reset] by (auto simp: send_peer_delivery_def cleanup_unsent_peer_delivery_def Let_def case_prod_unfold split: option.split)
  then have p: "sessions t = sessions s" if "send_peer_delivery rt n dl s = ((acts, calls), t)" for dl calls using that by (metis snd_conv)
  have "sessions (snd (spawn_control_effect rt n act s)) = sessions s"
    using S [OF settles_route_failed] S [OF settles_peer_open_commit_failed]
    by (cases act) (auto simp: spawn_control_effect_def)
  then have c: "sessions t = sessions s" if "spawn_control_effect rt n act s = (acts, t)" using that by (metis snd_conv)
  show ?thesis
  proof (cases "is_sdk_send act")
    case True
    then show ?thesis using one d b by (cases act) (auto simp: execute_one_def split: prod.splits)
  next
    case False
    then have "sessions t = sessions s \<and> cleaned ex' = cleaned ex"
      using one p c by (cases act) (auto simp: execute_one_def split: prod.splits)
    then show ?thesis by (simp add: keeps_others_def)
  qed
qed

lemma execute_all_keeps:
  "gateway_inv env s \<Longrightarrow> execute_all rt n acts ex s = (ex', t) \<Longrightarrow> keeps_others ex ex' s t"
proof (induction rt n acts ex s arbitrary: ex' t rule: execute_all.induct)
  case (2 rt n act pending ex s)
  obtain more ex1 s1 where one: "execute_one rt n act ex s = (more, ex1, s1)" by (metis prod_cases3)
  have "keeps_others ex1 ex' s1 t"
    using 2(1) [OF one [symmetric] refl execute_one_inv [OF 2(2) one]] 2(3) one by simp
  then show ?case using execute_one_keeps [OF 2(2) one] unfolding keeps_others_def by (metis subset_iff)
qed (simp add: keeps_others_def)


definition sample_runtime :: runtime where
  "sample_runtime = \<lparr>distributed = True, channel = (\<lambda>n. if n = 0 then QueueClosed else Sent), control_permit = (\<lambda>n. True),
     peer_commit = (\<lambda>n. None), reset_commit = (\<lambda>n. True)\<rparr>"

definition sample_delivery :: delivery where
  "sample_delivery = \<lparr>delivery_target = 2, delivery_frame = FrameData sample_pid ''hi'', delivery_sender = 11, delivery_cancellation = 21\<rparr>"


end
