(* ===== verification/Routing_Lifecycle.thy ===== *)
theory Routing_Lifecycle
  imports Route_Refinement
begin

text \<open>
  The gateway's side of a registration (\<open>relaygate-gateway-routing/src/lifecycle.rs\<close>): what one session
  wants published at one shard, the lease it believes it holds, the operation in flight and when to try
  again. Operations answer tickets: a result counts only for the ticket that is pending. The error codes of
  the RouteTable transport (\<open>relaygate-route-table-transport/src/error.rs\<close>) come first.
\<close>

section \<open>Transport errors\<close>

datatype transport_code =
    TcInvalidArgument | TcUnauthenticated | TcPermissionDenied | TcNotFound | TcFailedPrecondition
  | TcUnavailable | TcDeadlineExceeded | TcResourceExhausted | TcProtocolError | TcInternal

fun transport_code_of :: "route_table_error \<Rightarrow> transport_code" where
  "transport_code_of (RouteInvalidArgument _) = TcInvalidArgument"
| "transport_code_of RoutePermissionDenied = TcPermissionDenied"
| "transport_code_of RouteNotFound = TcNotFound"
| "transport_code_of (RouteFailedPrecondition _) = TcFailedPrecondition"
| "transport_code_of RouteDeadlineOverflow = TcInternal"

section \<open>Tickets and leases\<close>

datatype registration_action =
    DoRegister (action_key: registration_key)
  | DoUpdate (action_key: registration_key) lease_id registration_revision binding_map
  | DoKeepAlive (action_key: registration_key) lease_id
  | DoDeregister (action_key: registration_key) lease_id

fun action_lease_id :: "registration_action \<Rightarrow> lease_id option" where
  "action_lease_id (DoRegister _) = None"
| "action_lease_id (DoUpdate _ lease _ _) = Some lease"
| "action_lease_id (DoKeepAlive _ lease) = Some lease"
| "action_lease_id (DoDeregister _ lease) = Some lease"

record operation_ticket =
  attempt_id :: u64
  ticket_version :: u64
  ticket_action :: registration_action

record lease_state =
  held_id :: lease_id
  held_revision :: "registration_revision option"
  keep_alive_at :: instant
  held_expires_at :: instant

datatype registration_phase = Registering | Leased | Synced | Unsynced | Deregistering | Removed | Terminal

record lifecycle =
  lc_key :: registration_key
  desired_version :: u64
  lc_snapshot :: "binding_map option"
  lc_lease :: "lease_state option"
  synced_version :: "u64 option"
  lc_pending :: "operation_ticket option"
  next_attempt_id :: u64
  lc_terminal :: bool
  precondition_probe_active :: bool
  validate_lease :: bool
  retry_at :: instant
  retry_backoff :: duration
  retry_initial :: duration
  retry_max :: duration

definition lifecycle_new ::
  "registration_key \<Rightarrow> u64 \<Rightarrow> binding_map option \<Rightarrow> instant \<Rightarrow> duration \<Rightarrow> duration \<Rightarrow> lifecycle" where
  "lifecycle_new key version snap now initial maximum =
     \<lparr>lc_key = key, desired_version = version, lc_snapshot = snap, lc_lease = None, synced_version = None,
      lc_pending = None, next_attempt_id = 1, lc_terminal = False, precondition_probe_active = False,
      validate_lease = False, retry_at = now, retry_backoff = initial, retry_initial = initial, retry_max = maximum\<rparr>"

section \<open>The phase of a registration\<close>

definition is_removable :: "lifecycle \<Rightarrow> bool" where
  "is_removable r \<longleftrightarrow> lc_snapshot r = None \<and> lc_lease r = None \<and> lc_pending r = None"

definition lifecycle_phase :: "lifecycle \<Rightarrow> registration_phase" where
  "lifecycle_phase r =
     (if lc_terminal r then Terminal
      else if lc_snapshot r = None then (if is_removable r then Removed else Deregistering)
      else case lc_lease r of
        None \<Rightarrow> Registering
      | Some lease \<Rightarrow>
          if \<not> validate_lease r \<and> synced_version r = Some (desired_version r) then Synced
          else if held_revision lease = None then Leased
          else Unsynced)"

definition is_synced :: "lifecycle \<Rightarrow> bool" where
  "is_synced r \<longleftrightarrow> lifecycle_phase r = Synced"

definition is_desired :: "lifecycle \<Rightarrow> bool" where
  "is_desired r \<longleftrightarrow> lc_snapshot r \<noteq> None"

definition active_lease :: "lifecycle \<Rightarrow> (registration_key \<times> lease_id) option" where
  "active_lease r = map_option (\<lambda>lease. (lc_key r, held_id lease)) (lc_lease r)"

definition next_deadline :: "instant \<Rightarrow> lifecycle \<Rightarrow> instant option" where
  "next_deadline now r =
     (if lc_pending r \<noteq> None \<or> lc_terminal r then None
      else if retry_at r > now then Some (retry_at r)
      else if is_synced r then map_option keep_alive_at (lc_lease r)
      else None)"

section \<open>Publication\<close>

definition lifecycle_publish :: "u64 \<Rightarrow> binding_map option \<Rightarrow> instant \<Rightarrow> lifecycle \<Rightarrow> lifecycle" where
  "lifecycle_publish version snap now r =
     (if version \<le> desired_version r then r
      else let unchanged = (lc_snapshot r = snap);
               was_synced = is_synced r;
               r1 = r\<lparr>desired_version := version, lc_snapshot := snap,
                      synced_version := (if unchanged \<and> was_synced then Some version else None)\<rparr>;
               r2 = (if lc_terminal r1 \<and> lc_snapshot r1 = None
                     then r1\<lparr>lc_lease := None, lc_pending := None, validate_lease := False\<rparr> else r1)
           in if \<not> unchanged then r2\<lparr>retry_at := now, retry_backoff := retry_initial r2\<rparr> else r2)"

section \<open>Starting an operation\<close>

definition next_revision :: "lease_state \<Rightarrow> string + registration_revision" where
  "next_revision lease =
     (case held_revision lease of
        None \<Rightarrow> Inr REVISION_FIRST
      | Some revision \<Rightarrow>
          if revision = - 1 then Inl ''registration revision exhausted''
          else map_err (\<lambda>_. ''registration revision is invalid'') (registration_revision_new (revision + 1)))"

definition next_action :: "instant \<Rightarrow> lifecycle \<Rightarrow> string + registration_action option" where
  "next_action now r =
     (case (lc_snapshot r, lc_lease r) of
        (None, None) \<Rightarrow> Inr None
      | (None, Some lease) \<Rightarrow> Inr (Some (DoDeregister (lc_key r) (held_id lease)))
      | (Some _, None) \<Rightarrow> Inr (Some (DoRegister (lc_key r)))
      | (Some snap, Some lease) \<Rightarrow>
          if validate_lease r then Inr (Some (DoKeepAlive (lc_key r) (held_id lease)))
          else if synced_version r \<noteq> Some (desired_version r) then
            and_then (next_revision lease) (\<lambda>revision. Inr (Some (DoUpdate (lc_key r) (held_id lease) revision snap)))
          else if now \<ge> keep_alive_at lease then Inr (Some (DoKeepAlive (lc_key r) (held_id lease)))
          else Inr None)"

definition begin_next :: "instant \<Rightarrow> lifecycle \<Rightarrow> (string + operation_ticket option) \<times> lifecycle" where
  "begin_next now r =
     (if lc_pending r \<noteq> None \<or> lc_terminal r \<or> now < retry_at r then (Inr None, r)
      else case next_action now r of
        Inl e \<Rightarrow> (Inl e, r)
      | Inr None \<Rightarrow> (Inr None, r)
      | Inr (Some act) \<Rightarrow>
          if next_attempt_id r = - 1 then (Inl ''registration operation attempt identifier exhausted'', r)
          else let ticket = \<lparr>attempt_id = next_attempt_id r, ticket_version = desired_version r, ticket_action = act\<rparr>
               in (Inr (Some ticket), r\<lparr>next_attempt_id := next_attempt_id r + 1, lc_pending := Some ticket\<rparr>))"

section \<open>Taking results\<close>

definition current_lease_id :: "lifecycle \<Rightarrow> lease_id option" where
  "current_lease_id r = map_option held_id (lc_lease r)"

definition take_pending :: "operation_ticket \<Rightarrow> lifecycle \<Rightarrow> bool \<times> lifecycle" where
  "take_pending ticket r =
     (if lc_pending r \<noteq> Some ticket then (False, r)
      else (current_lease_id r = action_lease_id (ticket_action ticket), r\<lparr>lc_pending := None\<rparr>))"

definition take_current :: "operation_ticket \<Rightarrow> lifecycle \<Rightarrow> bool \<times> lifecycle" where
  "take_current ticket r =
     (case take_pending ticket r of (ok, r1) \<Rightarrow> (ok \<and> desired_version r1 = ticket_version ticket, r1))"

definition reset_retry :: "instant \<Rightarrow> lifecycle \<Rightarrow> lifecycle" where
  "reset_retry now r = r\<lparr>retry_at := now, retry_backoff := retry_initial r\<rparr>"

abbreviation NANOS_60_SECONDS :: duration where
  "NANOS_60_SECONDS \<equiv> 60 * 10 ^ 9"

definition lease_expiry :: "instant \<Rightarrow> duration \<Rightarrow> instant" where
  "lease_expiry now expires_in =
     (case instant_checked_add now expires_in of Some t \<Rightarrow> t | None \<Rightarrow> now + NANOS_60_SECONDS)"

definition next_keep_alive :: "instant \<Rightarrow> duration \<Rightarrow> instant" where
  "next_keep_alive now expires_in =
     (let interval = (if expires_in div 2 = 0 then 1 else expires_in div 2)
      in case instant_checked_add now interval of Some t \<Rightarrow> t | None \<Rightarrow> now + NANOS_60_SECONDS)"

definition next_backoff :: "duration \<Rightarrow> duration \<Rightarrow> duration" where
  "next_backoff current maximum = min (current * 2) maximum"

definition register_succeeded :: "operation_ticket \<Rightarrow> registration_ack \<Rightarrow> instant \<Rightarrow> lifecycle \<Rightarrow> lifecycle" where
  "register_succeeded ticket a now r =
     (case take_current ticket r of (ok, r1) \<Rightarrow>
        if \<not> ok \<or> \<not> is_DoRegister (ticket_action ticket) then r1
        else reset_retry now (r1\<lparr>lc_lease := Some \<lparr>held_id = ack_lease_id a, held_revision = ack_revision a,
               keep_alive_at = next_keep_alive now (ack_expires_in a),
               held_expires_at = lease_expiry now (ack_expires_in a)\<rparr>,
             synced_version := None, validate_lease := False\<rparr>))"

definition update_succeeded :: "operation_ticket \<Rightarrow> registration_ack \<Rightarrow> instant \<Rightarrow> lifecycle \<Rightarrow> lifecycle" where
  "update_succeeded ticket a now r =
     (case ticket_action ticket of
        DoUpdate _ lease_id revision _ \<Rightarrow>
          (case take_pending ticket r of (ok, r1) \<Rightarrow>
             if \<not> ok \<or> ack_lease_id a \<noteq> lease_id then r1
             else case lc_lease r1 of
               None \<Rightarrow> r1
             | Some lease \<Rightarrow>
                 if held_id lease \<noteq> lease_id then r1
                 else let lease' = lease\<lparr>held_revision := Some revision,
                            keep_alive_at := next_keep_alive now (ack_expires_in a),
                            held_expires_at := lease_expiry now (ack_expires_in a)\<rparr>;
                          r2 = r1\<lparr>lc_lease := Some lease'\<rparr>;
                          r3 = (if desired_version r2 = ticket_version ticket
                                then r2\<lparr>synced_version := Some (ticket_version ticket)\<rparr> else r2)
                      in reset_retry now (r3\<lparr>precondition_probe_active := False, validate_lease := False\<rparr>))
      | _ \<Rightarrow> r)"

definition keep_alive_succeeded :: "operation_ticket \<Rightarrow> registration_ack \<Rightarrow> instant \<Rightarrow> lifecycle \<Rightarrow> lifecycle" where
  "keep_alive_succeeded ticket a now r =
     (case ticket_action ticket of
        DoKeepAlive _ lease_id \<Rightarrow>
          (case take_current ticket r of (ok, r1) \<Rightarrow>
             if \<not> ok \<or> ack_lease_id a \<noteq> lease_id then r1
             else case lc_lease r1 of
               None \<Rightarrow> r1
             | Some lease \<Rightarrow>
                 if held_id lease \<noteq> lease_id then r1
                 else let lease' = lease\<lparr>keep_alive_at := next_keep_alive now (ack_expires_in a),
                            held_expires_at := lease_expiry now (ack_expires_in a)\<rparr>
                      in reset_retry now (r1\<lparr>lc_lease := Some lease', precondition_probe_active := False, validate_lease := False\<rparr>))
      | _ \<Rightarrow> r)"

definition terminal_failure :: "operation_ticket \<Rightarrow> lifecycle \<Rightarrow> lifecycle" where
  "terminal_failure ticket r =
     (case take_current ticket r of (ok, r1) \<Rightarrow>
        if ok then r1\<lparr>synced_version := None, lc_terminal := True\<rparr> else r1)"

definition precondition_failed :: "operation_ticket \<Rightarrow> instant \<Rightarrow> lifecycle \<Rightarrow> lifecycle" where
  "precondition_failed ticket now r =
     (if is_DoRegister (ticket_action ticket) then terminal_failure ticket r
      else case take_current ticket r of (ok, r1) \<Rightarrow>
        if \<not> ok then r1
        else case action_lease_id (ticket_action ticket) of
          None \<Rightarrow> r1
        | Some expected \<Rightarrow>
            if precondition_probe_active r1 then r1\<lparr>synced_version := None, lc_terminal := True\<rparr>
            else if current_lease_id r1 = Some expected
            then reset_retry now (r1\<lparr>precondition_probe_active := True, lc_lease := None, synced_version := None,
                   validate_lease := False\<rparr>)
            else r1)"

definition transient_failure :: "operation_ticket \<Rightarrow> instant \<Rightarrow> lifecycle \<Rightarrow> lifecycle" where
  "transient_failure ticket now r =
     (case take_current ticket r of (ok, r1) \<Rightarrow>
        if \<not> ok then r1
        else r1\<lparr>synced_version := None, retry_at := now + retry_backoff r1,
                retry_backoff := next_backoff (retry_backoff r1) (retry_max r1)\<rparr>)"

definition connection_lost :: "instant \<Rightarrow> lifecycle \<Rightarrow> lifecycle" where
  "connection_lost now r =
     (let r1 = (if lc_lease r \<noteq> None then r\<lparr>validate_lease := True\<rparr> else r)
      in r1\<lparr>retry_at := now, retry_backoff := retry_initial r1\<rparr>)"

definition mark_terminal :: "lifecycle \<Rightarrow> lifecycle" where
  "mark_terminal r =
     (let r1 = r\<lparr>lc_pending := None, synced_version := None, lc_terminal := True\<rparr>
      in if lc_snapshot r1 = None then r1\<lparr>lc_lease := None, validate_lease := False\<rparr> else r1)"

definition lease_expired :: "instant \<Rightarrow> lifecycle \<Rightarrow> bool" where
  "lease_expired now r \<longleftrightarrow> (case lc_lease r of None \<Rightarrow> True | Some lease \<Rightarrow> now \<ge> held_expires_at lease)"

definition finish_deregister :: "operation_ticket \<Rightarrow> lifecycle \<Rightarrow> lifecycle" where
  "finish_deregister ticket r =
     (case take_current ticket r of (ok, r1) \<Rightarrow>
        if ok \<and> is_DoDeregister (ticket_action ticket)
        then r1\<lparr>lc_lease := None, synced_version := None, validate_lease := False\<rparr> else r1)"

end
