(* ===== verification/Routing_Desired.thy ===== *)
theory Routing_Desired
  imports Routing_Lifecycle Registry
begin

text \<open>
  From the gateway's local bindings to what each shard should hold: the projection of one session onto the
  shards of the directory (\<open>relaygate-gateway-routing/src/projection.rs\<close>), the store of desired
  registrations with its versions (\<open>runtime/desired.rs\<close>), and how a shard's worker catches up with it
  (\<open>reconcile_desired\<close> of \<open>runtime/registration.rs\<close>).
\<close>

section \<open>Errors\<close>

datatype routing_error =
    RoutingInvalidConfig string
  | RoutingInvalidProjection string
  | RoutingShardUnavailable string
  | RoutingWorkerStopped string
  | RoutingTransport transport_code string
  | RoutingWorkerFailed string

fun open_error_code :: "routing_error \<Rightarrow> error_code" where
  "open_error_code (RoutingInvalidConfig _) = Internal"
| "open_error_code (RoutingInvalidProjection _) = Internal"
| "open_error_code (RoutingWorkerFailed _) = Internal"
| "open_error_code (RoutingShardUnavailable _) = Unavailable"
| "open_error_code (RoutingWorkerStopped _) = Unavailable"
| "open_error_code (RoutingTransport code _) =
     (case code of
        TcInvalidArgument \<Rightarrow> InvalidArgument
      | TcUnauthenticated \<Rightarrow> Unauthenticated
      | TcPermissionDenied \<Rightarrow> PermissionDenied
      | TcNotFound \<Rightarrow> NotFound
      | TcFailedPrecondition \<Rightarrow> FailedPrecondition
      | TcUnavailable \<Rightarrow> Unavailable
      | TcDeadlineExceeded \<Rightarrow> DeadlineExceeded
      | TcResourceExhausted \<Rightarrow> ResourceExhausted
      | TcProtocolError \<Rightarrow> ProtocolError
      | TcInternal \<Rightarrow> Internal)"

section \<open>Projection\<close>

record projected_shard_snapshot =
  projected_shard_id :: shard_id
  projected_snapshot :: "binding_map option"

text \<open>
  The loop over the bindings: each goes to the entries of its authority shard. (\<open>authority\<close> is \<open>None\<close> on an
  empty directory only, which \<open>ShardDirectory\<close> excludes.)
\<close>

fun project_bindings ::
  "(bytes \<Rightarrow> bytes) \<Rightarrow> shard_directory \<Rightarrow> gateway_id \<Rightarrow> gateway_locator \<Rightarrow> session_id \<Rightarrow> binding list \<Rightarrow>
   (shard_id, binding_projection list) btreemap \<Rightarrow> routing_error + (shard_id, binding_projection list) btreemap" where
  "project_bindings sha256 dir gid loc session [] by_shard = Inr by_shard"
| "project_bindings sha256 dir gid loc session (b # bs) by_shard =
     (if bnd_session_id b \<noteq> session
      then Inl (RoutingInvalidProjection ''binding belongs to a different RelaySession'')
      else case authority sha256 dir (bnd_destination b) of
        None \<Rightarrow> Inl (RoutingInvalidProjection ''authority shard is absent from directory'')
      | Some rec \<Rightarrow>
          (case map_of by_shard (record_id rec) of
             None \<Rightarrow> Inl (RoutingInvalidProjection ''authority shard is absent from directory'')
           | Some entries \<Rightarrow>
               project_bindings sha256 dir gid loc session bs
                 (bt_insert (record_id rec)
                    (entries @ [binding_projection_new (bnd_destination b) gid session (bnd_id b) loc]) by_shard)))"

text \<open>The error of the route table crate becomes the text of an \<open>InvalidProjection\<close>.\<close>

fun route_error_text :: "route_table_error \<Rightarrow> string" where
  "route_error_text (RouteInvalidArgument m) = ''invalid argument: '' @ m"
| "route_error_text RoutePermissionDenied = ''authenticated Gateway does not own the requested registration''"
| "route_error_text RouteNotFound = ''no live binding exists for the requested Destination''"
| "route_error_text (RouteFailedPrecondition m) = ''operation is not valid for the current RouteTable state: '' @ m"
| "route_error_text RouteDeadlineOverflow = ''RouteTable deadline cannot be represented''"

fun project_shards ::
  "(shard_id, binding_projection list) btreemap \<Rightarrow> routing_error + projected_shard_snapshot list" where
  "project_shards [] = Inr []"
| "project_shards ((sid, entries) # rest) =
     and_then (if entries = [] then Inr None
               else map_sum (\<lambda>e. RoutingInvalidProjection (route_error_text e)) Some (binding_snapshot_new entries))
       (\<lambda>snap. and_then (project_shards rest)
         (\<lambda>out. Inr (\<lparr>projected_shard_id = sid, projected_snapshot = snap\<rparr> # out)))"

definition project_session ::
  "(bytes \<Rightarrow> bytes) \<Rightarrow> shard_directory \<Rightarrow> gateway_id \<Rightarrow> gateway_locator \<Rightarrow> session_id \<Rightarrow> binding list \<Rightarrow>
   routing_error + projected_shard_snapshot list" where
  "project_session sha256 dir gid loc session bs =
     and_then (project_bindings sha256 dir gid loc session bs
         (fold (\<lambda>rec. bt_insert (record_id rec) []) (directory_shards dir) []))
       project_shards"

section \<open>The desired store\<close>

record desired_shard_entry =
  entry_version :: u64
  entry_snapshot :: binding_map

record desired_shard =
  shard_sessions :: "(relay_session_id, desired_shard_entry) hashmap"
  shard_removed :: "(relay_session_id, u64) hashmap"

record desired_store =
  store_version :: u64
  by_shard :: "(shard_id, desired_shard) btreemap"

definition desired_shard_default :: desired_shard where
  "desired_shard_default = \<lparr>shard_sessions = [], shard_removed = []\<rparr>"

definition desired_store_default :: desired_store where
  "desired_store_default = \<lparr>store_version = 0, by_shard = []\<rparr>"

definition shard_of :: "desired_store \<Rightarrow> shard_id \<Rightarrow> desired_shard" where
  "shard_of store sid = (case map_of (by_shard store) sid of Some sh \<Rightarrow> sh | None \<Rightarrow> desired_shard_default)"

definition commit_one :: "relay_session_id \<Rightarrow> u64 \<Rightarrow> projected_shard_snapshot \<Rightarrow> desired_store \<Rightarrow> desired_store" where
  "commit_one session version p store =
     (let sh = shard_of store (projected_shard_id p);
          sh' = (case projected_snapshot p of
             Some snap \<Rightarrow> sh\<lparr>shard_removed := hm_remove session (shard_removed sh),
                            shard_sessions := hm_insert session \<lparr>entry_version = version, entry_snapshot = snap\<rparr> (shard_sessions sh)\<rparr>
           | None \<Rightarrow>
               if hm_contains (shard_sessions sh) session
               then sh\<lparr>shard_sessions := hm_remove session (shard_sessions sh),
                       shard_removed := hm_insert session version (shard_removed sh)\<rparr>
               else sh)
      in store\<lparr>by_shard := bt_insert (projected_shard_id p) sh' (by_shard store)\<rparr>)"

definition store_commit ::
  "relay_session_id \<Rightarrow> projected_shard_snapshot list \<Rightarrow> desired_store \<Rightarrow> (routing_error + u64) \<times> desired_store" where
  "store_commit session projected store =
     (if store_version store = - 1 then (Inl (RoutingWorkerFailed ''routing desired version exhausted''), store)
      else let version = store_version store + 1
           in (Inr version, fold (commit_one session version) projected (store\<lparr>store_version := version\<rparr>)))"

record shard_desired_view =
  view_version :: u64
  view_changed :: "(relay_session_id \<times> u64 \<times> binding_map) list"
  view_removed :: "(relay_session_id \<times> u64) list"

definition shard_view_after :: "shard_id \<Rightarrow> u64 \<Rightarrow> desired_store \<Rightarrow> shard_desired_view option \<times> desired_store" where
  "shard_view_after sid observed store =
     (if store_version store \<le> observed then (None, store)
      else case map_of (by_shard store) sid of
        None \<Rightarrow> (Some \<lparr>view_version = store_version store, view_changed = [], view_removed = []\<rparr>, store)
      | Some sh \<Rightarrow>
          (Some \<lparr>view_version = store_version store,
                 view_changed = map (\<lambda>(session, e). (session, entry_version e, entry_snapshot e))
                   (filter (\<lambda>(_, e). observed < entry_version e) (shard_sessions sh)),
                 view_removed = shard_removed sh\<rparr>,
           store\<lparr>by_shard := bt_insert sid (sh\<lparr>shard_removed := []\<rparr>) (by_shard store)\<rparr>))"

section \<open>Catching up\<close>

type_synonym registrations_map = "(relay_session_id, lifecycle) btreemap"

record worker_scope =
  scope_shard :: shard_id
  scope_gateway :: gateway_id
  scope_retry_initial :: duration
  scope_retry_max :: duration

definition apply_changed ::
  "worker_scope \<Rightarrow> instant \<Rightarrow> relay_session_id \<times> u64 \<times> binding_map \<Rightarrow> registrations_map \<Rightarrow> registrations_map" where
  "apply_changed sc now change rs =
     (case change of (session, version, snap) \<Rightarrow>
        (case map_of rs session of
           Some r \<Rightarrow> bt_insert session (lifecycle_publish version (Some snap) now r) rs
         | None \<Rightarrow> bt_insert session
             (lifecycle_new (RegistrationKey (scope_gateway sc) session (scope_shard sc)) version (Some snap) now
                (scope_retry_initial sc) (scope_retry_max sc)) rs))"

definition apply_removed :: "instant \<Rightarrow> relay_session_id \<times> u64 \<Rightarrow> registrations_map \<Rightarrow> registrations_map" where
  "apply_removed now change rs =
     (case change of (session, version) \<Rightarrow>
        (case map_of rs session of
           Some r \<Rightarrow> bt_insert session (lifecycle_publish version None now r) rs
         | None \<Rightarrow> rs))"

definition reconcile_desired ::
  "worker_scope \<Rightarrow> instant \<Rightarrow> desired_store \<Rightarrow> registrations_map \<Rightarrow> u64 \<Rightarrow> desired_store \<times> registrations_map \<times> u64" where
  "reconcile_desired sc now store rs observed =
     (case shard_view_after (scope_shard sc) observed store of
        (None, store') \<Rightarrow> (store', rs, observed)
      | (Some view, store') \<Rightarrow>
          (store', fold (apply_removed now) (view_removed view) (fold (apply_changed sc now) (view_changed view) rs),
           view_version view))"

end
