(* ===== verification/Routing_Worker.thy ===== *)
theory Routing_Worker
  imports Routing_Desired Rate_Limit
begin

text \<open>
  The worker of one shard (\<open>relaygate-gateway-routing/src/runtime/\<close>): the pass over the registrations that
  prunes, picks the next operation and counts (\<open>registration.rs\<close>), the application of results
  (\<open>operation.rs\<close>), reconnect pacing (\<open>reconnect.rs\<close>), the dependency state (\<open>observation.rs\<close>), the
  handlers of the worker loop (\<open>worker.rs\<close>) and the counts and health the gateway reports (\<open>mod.rs\<close>).
  A connected client is its epoch: the connection itself is I/O.
\<close>

section \<open>Counting\<close>

record registration_counts =
  count_synced :: nat
  count_unsynced :: nat
  count_terminal :: nat

definition counts_default :: registration_counts where
  "counts_default = \<lparr>count_synced = 0, count_unsynced = 0, count_terminal = 0\<rparr>"

definition counts_observe :: "lifecycle \<Rightarrow> registration_counts \<Rightarrow> registration_counts" where
  "counts_observe r c =
     (if \<not> is_desired r then c
      else case lifecycle_phase r of
        Synced \<Rightarrow> c\<lparr>count_synced := count_synced c + 1\<rparr>
      | Terminal \<Rightarrow> c\<lparr>count_unsynced := count_unsynced c + 1, count_terminal := count_terminal c + 1\<rparr>
      | _ \<Rightarrow> c\<lparr>count_unsynced := count_unsynced c + 1\<rparr>)"

definition counts_update :: "registrations_map \<Rightarrow> registration_counts" where
  "counts_update rs = fold counts_observe (filter is_desired (map snd rs)) counts_default"

section \<open>The registration pass\<close>

record registration_pass =
  pass_ticket :: "operation_ticket option"
  pass_deadline :: "instant option"
  pass_counts :: registration_counts

fun min_deadline :: "instant option \<Rightarrow> instant option \<Rightarrow> instant option" where
  "min_deadline (Some current) (Some candidate) = Some (min current candidate)"
| "min_deadline None candidate = candidate"
| "min_deadline current None = current"

text \<open>The closure of \<open>retain\<close>: the pass and the error so far, and what becomes of one registration.\<close>

definition visit_registration ::
  "instant \<Rightarrow> lifecycle \<Rightarrow> registration_pass \<times> string option \<Rightarrow> lifecycle option \<times> registration_pass \<times> string option" where
  "visit_registration now r acc =
     (case acc of (pass, err) \<Rightarrow>
        if is_removable r then (None, pass, err)
        else let (r1, pass1, err1) =
                   (if err = None \<and> pass_ticket pass = None
                    then (case begin_next now r of
                            (Inr ticket, r1) \<Rightarrow> (r1, pass\<lparr>pass_ticket := ticket\<rparr>, err)
                          | (Inl message, r1) \<Rightarrow> (r1, pass, Some message))
                    else (r, pass, err));
                 pass2 = pass1\<lparr>pass_counts := counts_observe r1 (pass_counts pass1)\<rparr>;
                 pass3 = (if pass_ticket pass2 = None
                          then pass2\<lparr>pass_deadline := min_deadline (pass_deadline pass2) (next_deadline now r1)\<rparr>
                          else pass2)
             in (Some r1, pass3, err1))"

fun visit_all ::
  "instant \<Rightarrow> registrations_map \<Rightarrow> registration_pass \<times> string option \<Rightarrow> registrations_map \<times> registration_pass \<times> string option" where
  "visit_all now [] acc = ([], acc)"
| "visit_all now ((session, r) # rs) acc =
     (case visit_registration now r acc of (kept, acc1) \<Rightarrow>
        case visit_all now rs acc1 of (rs', acc2) \<Rightarrow>
          ((case kept of None \<Rightarrow> rs' | Some r1 \<Rightarrow> (session, r1) # rs'), acc2))"

definition prepare_registration_pass :: "instant \<Rightarrow> registrations_map \<Rightarrow> (string + registration_pass) \<times> registrations_map" where
  "prepare_registration_pass now rs =
     (case visit_all now rs (\<lparr>pass_ticket = None, pass_deadline = None, pass_counts = counts_default\<rparr>, None) of
        (rs', pass, Some message) \<Rightarrow> (Inl message, rs')
      | (rs', pass, None) \<Rightarrow>
          (Inr (if pass_ticket pass \<noteq> None then pass\<lparr>pass_deadline := None\<rparr> else pass), rs'))"

definition mark_connection_lost :: "instant \<Rightarrow> registrations_map \<Rightarrow> registrations_map" where
  "mark_connection_lost now = map (map_prod id (connection_lost now))"

definition mark_all_terminal :: "registrations_map \<Rightarrow> registrations_map" where
  "mark_all_terminal = map (map_prod id mark_terminal)"

section \<open>Results\<close>

text \<open>\<open>RegistrationResult\<close> answers the operations that carry an acknowledgement, \<open>DeregisterResult\<close> a deregistration.\<close>

datatype operation_result =
    RegistrationResult "transport_code + registration_ack"
  | DeregisterResult "transport_code + unit"

record operation_completion =
  completion_epoch :: u64
  completion_ticket :: operation_ticket
  completion_result :: operation_result

definition retry_deregister :: "transport_code \<Rightarrow> bool" where
  "retry_deregister code \<longleftrightarrow> code \<in> {TcUnavailable, TcDeadlineExceeded, TcResourceExhausted, TcInternal}"

text \<open>What a completion does to the registration its ticket names, and the error it reports.\<close>

definition registration_rejected :: "transport_code \<Rightarrow> operation_ticket \<Rightarrow> instant \<Rightarrow> lifecycle \<Rightarrow> lifecycle" where
  "registration_rejected code ticket now r =
     (case code of
        TcFailedPrecondition \<Rightarrow> precondition_failed ticket now r
      | TcUnauthenticated \<Rightarrow> terminal_failure ticket r
      | TcPermissionDenied \<Rightarrow> terminal_failure ticket r
      | TcInvalidArgument \<Rightarrow> terminal_failure ticket r
      | TcNotFound \<Rightarrow> terminal_failure ticket r
      | _ \<Rightarrow> transient_failure ticket now r)"

fun complete_operation ::
  "operation_ticket \<Rightarrow> operation_result \<Rightarrow> instant \<Rightarrow> lifecycle \<Rightarrow> transport_code option \<times> lifecycle" where
  "complete_operation ticket (DeregisterResult result) now r =
     (if is_DoDeregister (ticket_action ticket) then
        (case result of
           Inr _ \<Rightarrow> (None, finish_deregister ticket r)
         | Inl code \<Rightarrow>
             (Some code, if retry_deregister code \<and> \<not> lease_expired now r
                         then transient_failure ticket now r else finish_deregister ticket r))
      else (None, mark_terminal r))"
| "complete_operation ticket (RegistrationResult (Inr a)) now r =
     (None, case ticket_action ticket of
        DoRegister _ \<Rightarrow> register_succeeded ticket a now r
      | DoUpdate _ _ _ _ \<Rightarrow> update_succeeded ticket a now r
      | DoKeepAlive _ _ \<Rightarrow> keep_alive_succeeded ticket a now r
      | DoDeregister _ _ \<Rightarrow> mark_terminal r)"
| "complete_operation ticket (RegistrationResult (Inl code)) now r =
     (Some code, registration_rejected code ticket now r)"

definition apply_operation_completion ::
  "operation_completion \<Rightarrow> instant \<Rightarrow> registrations_map \<Rightarrow> transport_code option \<times> registrations_map" where
  "apply_operation_completion c now rs =
     (let session = key_session_id (action_key (ticket_action (completion_ticket c)))
      in case map_of rs session of
        None \<Rightarrow> (None, rs)
      | Some r \<Rightarrow>
          (case complete_operation (completion_ticket c) (completion_result c) now r of
             (err, r') \<Rightarrow> (err, bt_insert session r' rs)))"

definition apply_epoch_scoped_operation_completion ::
  "operation_completion \<Rightarrow> u64 option \<Rightarrow> instant \<Rightarrow> registrations_map \<Rightarrow> transport_code option \<times> registrations_map" where
  "apply_epoch_scoped_operation_completion c current_epoch now rs =
     (if completion_epoch c \<noteq> (case current_epoch of Some e \<Rightarrow> e | None \<Rightarrow> 0) then
        (let session = key_session_id (action_key (ticket_action (completion_ticket c)))
         in case map_of rs session of
           None \<Rightarrow> (None, rs)
         | Some r \<Rightarrow> (None, bt_insert session (transient_failure (completion_ticket c) now r) rs))
      else apply_operation_completion c now rs)"

definition is_connection_error :: "transport_code \<Rightarrow> bool" where
  "is_connection_error code \<longleftrightarrow> code \<in> {TcUnavailable, TcDeadlineExceeded, TcProtocolError, TcInternal}"

definition is_terminal_control_error :: "transport_code \<Rightarrow> bool" where
  "is_terminal_control_error code \<longleftrightarrow> code \<in> {TcUnauthenticated, TcPermissionDenied, TcFailedPrecondition}"

definition should_report_resolve_failure :: "transport_code \<Rightarrow> bool" where
  "should_report_resolve_failure code \<longleftrightarrow> is_connection_error code \<or> is_terminal_control_error code"

section \<open>Reconnect pacing\<close>

unbundle bit_operations_syntax

record reconnect_backoff =
  backoff_initial :: duration
  backoff_current :: duration
  backoff_maximum :: duration
  entropy :: u64

definition reconnect_backoff_new :: "duration \<Rightarrow> duration \<Rightarrow> gateway_id \<Rightarrow> shard_id \<Rightarrow> reconnect_backoff" where
  "reconnect_backoff_new initial maximum gid sid =
     \<lparr>backoff_initial = initial, backoff_current = initial, backoff_maximum = maximum,
      entropy = max 1 (fold (\<lambda>byte h. (h * 1099511628211) XOR of_nat (of_char byte)) (uuid_bytes gid @ sid) 14695981039346656037)\<rparr>"

definition xorshift :: "u64 \<Rightarrow> u64" where
  "xorshift e =
     (let e = e XOR push_bit 13 e;
          e = e XOR drop_bit 7 e
      in e XOR push_bit 17 e)"

definition duration_from_nanos :: "nat \<Rightarrow> duration" where
  "duration_from_nanos nanos =
     (let seconds = min (nanos div 10 ^ 9) (2 ^ 64 - 1);
          subsecond_nanos = (if seconds = 2 ^ 64 - 1 then 999999999 else nanos mod 10 ^ 9)
      in max (seconds * 10 ^ 9 + subsecond_nanos) (10 ^ 6))"

definition next_delay :: "reconnect_backoff \<Rightarrow> duration \<times> reconnect_backoff" where
  "next_delay b =
     (let e = xorshift (entropy b);
          base_nanos = backoff_current b;
          floor_nanos = saturating_mul_u128 base_nanos 2 div 3;
          jitter_nanos = saturating_mul_u128 (base_nanos - floor_nanos) (unat e) div (2 ^ 64 - 1)
      in (duration_from_nanos (floor_nanos + jitter_nanos),
          b\<lparr>entropy := e, backoff_current := min (backoff_current b * 2) (backoff_maximum b)\<rparr>))"

definition backoff_reset :: "reconnect_backoff \<Rightarrow> reconnect_backoff" where
  "backoff_reset b = b\<lparr>backoff_current := backoff_initial b\<rparr>"

section \<open>The dependency state\<close>

datatype dependency_state = DependencyStarting | DependencyReady | DependencyDegraded | DependencyTerminal

record dependency_observation =
  dependency :: dependency_state
  degraded_at :: "instant option"
  connect_attempts :: u64

definition observation_new :: dependency_observation where
  "observation_new = \<lparr>dependency = DependencyStarting, degraded_at = None, connect_attempts = 0\<rparr>"

definition u64_saturating_succ :: "u64 \<Rightarrow> u64" where
  "u64_saturating_succ n = (if n = - 1 then n else n + 1)"

definition observation_degrade :: "instant \<Rightarrow> dependency_observation \<Rightarrow> dependency_observation" where
  "observation_degrade now ob =
     (if dependency ob = DependencyDegraded then ob
      else ob\<lparr>degraded_at := Some now, connect_attempts := 0, dependency := DependencyDegraded\<rparr>)"

definition observation_connect_failed :: "instant \<Rightarrow> dependency_observation \<Rightarrow> dependency_observation" where
  "observation_connect_failed now ob =
     (let ob1 = ob\<lparr>connect_attempts := u64_saturating_succ (connect_attempts ob)\<rparr>
      in if dependency ob1 = DependencyDegraded then ob1
         else (observation_degrade now ob1)\<lparr>connect_attempts := 1\<rparr>)"

definition observation_connection_lost :: "instant \<Rightarrow> dependency_observation \<Rightarrow> dependency_observation" where
  "observation_connection_lost = observation_degrade"

definition observation_ready :: "dependency_observation \<Rightarrow> dependency_observation" where
  "observation_ready ob =
     (let ob1 = ob\<lparr>connect_attempts := u64_saturating_succ (connect_attempts ob)\<rparr>
      in if dependency ob1 = DependencyReady then ob1
         else ob1\<lparr>dependency := DependencyReady, degraded_at := None, connect_attempts := 0\<rparr>)"

definition observation_terminal :: "dependency_observation \<Rightarrow> dependency_observation" where
  "observation_terminal ob =
     (if dependency ob = DependencyTerminal then ob else ob\<lparr>dependency := DependencyTerminal\<rparr>)"

section \<open>The handlers of the worker loop\<close>

datatype client_availability = ClientUnavailable | ClientReady u64 | is_ClientTerminal: ClientTerminal transport_code

record shard_worker =
  worker_of :: worker_scope
  worker_registrations :: registrations_map
  connected :: "u64 option"
  connection_epoch :: u64
  reconnect_at :: instant
  worker_backoff :: reconnect_backoff
  worker_terminal :: bool
  worker_observation :: dependency_observation
  availability :: client_availability
  worker_counts :: registration_counts

definition shard_worker_new :: "worker_scope \<Rightarrow> instant \<Rightarrow> shard_worker" where
  "shard_worker_new sc now =
     \<lparr>worker_of = sc, worker_registrations = [], connected = None, connection_epoch = 0, reconnect_at = now,
      worker_backoff = reconnect_backoff_new (scope_retry_initial sc) (scope_retry_max sc) (scope_gateway sc) (scope_shard sc),
      worker_terminal = False, worker_observation = observation_new, availability = ClientUnavailable,
      worker_counts = counts_default\<rparr>"

definition worker_reconcile :: "instant \<Rightarrow> desired_store \<Rightarrow> u64 \<Rightarrow> shard_worker \<Rightarrow> desired_store \<times> u64 \<times> shard_worker" where
  "worker_reconcile now store observed w =
     (case reconcile_desired (worker_of w) now store (worker_registrations w) observed of
        (store', rs, observed') \<Rightarrow>
          (store', observed', w\<lparr>worker_registrations := rs, worker_counts := counts_update rs\<rparr>))"

definition worker_prune :: "shard_worker \<Rightarrow> shard_worker" where
  "worker_prune w = w\<lparr>worker_registrations := filter (\<lambda>(_, r). \<not> is_removable r) (worker_registrations w)\<rparr>"

definition wants_connect :: "bool \<Rightarrow> instant \<Rightarrow> shard_worker \<Rightarrow> bool" where
  "wants_connect no_connect_in_flight now w \<longleftrightarrow>
     \<not> worker_terminal w \<and> connected w = None \<and> no_connect_in_flight \<and> now \<ge> reconnect_at w"

text \<open>The operation to execute with its epoch, and the next registration deadline.\<close>

definition prepare_registrations ::
  "instant \<Rightarrow> shard_worker \<Rightarrow> (routing_error + (u64 \<times> operation_ticket) option \<times> instant option) \<times> shard_worker" where
  "prepare_registrations now w =
     (if worker_terminal w then (Inr (None, None), worker_prune w)
      else case connected w of
        None \<Rightarrow> (Inr (None, None), worker_prune w)
      | Some epoch \<Rightarrow>
          (case prepare_registration_pass now (worker_registrations w) of
             (Inr pass, rs) \<Rightarrow>
               (Inr (map_option (Pair epoch) (pass_ticket pass), pass_deadline pass),
                w\<lparr>worker_registrations := rs, worker_counts := pass_counts pass\<rparr>)
           | (Inl message, rs) \<Rightarrow>
               (let rs' = mark_all_terminal rs
                in (Inl (RoutingWorkerFailed (''RouteTable shard '' @ scope_shard (worker_of w) @ '' lifecycle failed: '' @ message)),
                    w\<lparr>worker_registrations := rs', worker_counts := counts_update rs'\<rparr>))))"

definition reconnect_deadline :: "bool \<Rightarrow> shard_worker \<Rightarrow> instant option" where
  "reconnect_deadline no_connect_in_flight w =
     (if \<not> worker_terminal w \<and> connected w = None \<and> no_connect_in_flight then Some (reconnect_at w) else None)"

definition enter_terminal :: "transport_code \<Rightarrow> shard_worker \<Rightarrow> shard_worker" where
  "enter_terminal code w =
     (let rs = mark_all_terminal (worker_registrations w)
      in w\<lparr>worker_terminal := True, connected := None, worker_registrations := rs,
           worker_counts := counts_update rs, availability := ClientTerminal code\<rparr>)"

definition worker_connection_lost :: "instant \<Rightarrow> shard_worker \<Rightarrow> shard_worker" where
  "worker_connection_lost now w =
     (let rs = mark_connection_lost now (worker_registrations w);
          (delay, backoff) = next_delay (worker_backoff w)
      in w\<lparr>worker_observation := observation_connection_lost now (worker_observation w), connected := None,
           availability := ClientUnavailable, worker_registrations := rs, worker_counts := counts_update rs,
           reconnect_at := now + delay, worker_backoff := backoff\<rparr>)"

definition on_client_failure :: "u64 \<Rightarrow> transport_code \<Rightarrow> instant \<Rightarrow> shard_worker \<Rightarrow> shard_worker" where
  "on_client_failure epoch code now w =
     (if connected w \<noteq> Some epoch then w
      else if is_terminal_control_error code
      then enter_terminal code (w\<lparr>worker_observation := observation_terminal (worker_observation w)\<rparr>)
      else if is_connection_error code then worker_connection_lost now w
      else w)"

definition on_connect_result :: "transport_code + unit \<Rightarrow> instant \<Rightarrow> shard_worker \<Rightarrow> (routing_error + unit) \<times> shard_worker" where
  "on_connect_result result now w =
     (case result of
        Inr _ \<Rightarrow>
          if connection_epoch w = - 1 then (Inl (RoutingWorkerFailed ''RouteTable connection epoch exhausted''), w)
          else let epoch = connection_epoch w + 1
               in (Inr (), w\<lparr>connection_epoch := epoch, connected := Some epoch, availability := ClientReady epoch,
                     worker_observation := observation_ready (worker_observation w),
                     worker_backoff := backoff_reset (worker_backoff w)\<rparr>)
      | Inl code \<Rightarrow>
          if is_terminal_control_error code
          then (Inr (), enter_terminal code (w\<lparr>worker_observation := observation_terminal (worker_observation w)\<rparr>))
          else let (delay, backoff) = next_delay (worker_backoff w)
               in (Inr (), w\<lparr>worker_observation := observation_connect_failed now (worker_observation w),
                     availability := ClientUnavailable, reconnect_at := now + delay, worker_backoff := backoff\<rparr>))"

definition on_operation_completion :: "operation_completion \<Rightarrow> instant \<Rightarrow> shard_worker \<Rightarrow> shard_worker" where
  "on_operation_completion c now w =
     (let (result, rs) = apply_epoch_scoped_operation_completion c (connected w) now (worker_registrations w);
          w1 = w\<lparr>worker_registrations := rs\<rparr>;
          w2 = (case result of
             None \<Rightarrow> w1
           | Some code \<Rightarrow>
               if is_terminal_control_error code then
                 if is_DoRegister (ticket_action (completion_ticket c))
                 then enter_terminal code (w1\<lparr>worker_observation := observation_terminal (worker_observation w1)\<rparr>)
                 else w1
               else if is_connection_error code then worker_connection_lost now w1
               else w1);
          w3 = worker_prune w2
      in w3\<lparr>worker_counts := counts_update (worker_registrations w3)\<rparr>)"

text \<open>What a clean shutdown asks the connected shard to forget.\<close>

definition best_effort_deregister :: "registrations_map \<Rightarrow> (registration_key \<times> lease_id) list" where
  "best_effort_deregister rs = List.map_filter (active_lease \<circ> snd) rs"

definition worker_shutdown :: "shard_worker \<Rightarrow> (registration_key \<times> lease_id) list \<times> shard_worker" where
  "worker_shutdown w =
     (if connected w = None then [] else best_effort_deregister (worker_registrations w),
      w\<lparr>availability := ClientUnavailable, worker_counts := counts_default\<rparr>)"

section \<open>What the gateway reports\<close>

fun merge_dependency_health :: "route_dependency_health \<Rightarrow> route_dependency_health \<Rightarrow> route_dependency_health" where
  "merge_dependency_health current shard =
     (if current = HealthTerminal \<or> shard = HealthTerminal then HealthTerminal
      else if current = HealthDegraded \<or> shard = HealthDegraded then HealthDegraded
      else HealthReady)"

definition shard_health :: "shard_worker \<Rightarrow> route_dependency_health" where
  "shard_health w =
     (let is_terminal = count_terminal (worker_counts w) > 0 \<or> is_ClientTerminal (availability w);
          unavailable = (availability w = ClientUnavailable)
      in if is_terminal then HealthTerminal
         else if unavailable \<or> count_unsynced (worker_counts w) > 0 then HealthDegraded
         else HealthReady)"

definition current_counts :: "shard_worker list \<Rightarrow> routing_counts" where
  "current_counts ws =
     fold (\<lambda>w counts. \<lparr>counts_synced = counts_synced counts + count_synced (worker_counts w),
             counts_unsynced = counts_unsynced counts + count_unsynced (worker_counts w),
             counts_dependency_health = merge_dependency_health (counts_dependency_health counts) (shard_health w)\<rparr>)
       ws \<lparr>counts_synced = 0, counts_unsynced = 0, counts_dependency_health = HealthReady\<rparr>"

end
