(* ===== verification/Routing_Link.thy ===== *)
theory Routing_Link
  imports Routing_Worker Route_Properties
begin

text \<open>
  One registration, end to end: the lifecycle a gateway keeps for a session and a shard, the shard, and
  an unreliable network between them. Requests once sent may be served at any later time, more than once
  or never; replies may be lost, and an operation may fail locally with any error code; connections drop;
  the shard restarts with empty tables; other gateways use it meanwhile. Lease identifiers are random
  UUIDs: the model assumes that one drawn is never drawn again.
\<close>

section \<open>Requests\<close>

fun request_call :: "generation \<Rightarrow> registration_action \<Rightarrow> shard_call" where
  "request_call gen (DoRegister key) = Register (key_gateway_id key) gen key"
| "request_call gen (DoUpdate key lease revision snap) = Update (key_gateway_id key) gen key lease revision snap"
| "request_call gen (DoKeepAlive key lease) = KeepAlive (key_gateway_id key) gen key lease"
| "request_call gen (DoDeregister key lease) = Deregister (key_gateway_id key) gen key lease"

definition failed_result :: "registration_action \<Rightarrow> transport_code \<Rightarrow> operation_result" where
  "failed_result act code = (if is_DoDeregister act then DeregisterResult (Inl code) else RegistrationResult (Inl code))"

text \<open>How the client reads a reply. The replies to resolution and expiry are not replies to a registration.\<close>

fun reply_result :: "registration_action \<Rightarrow> shard_reply \<Rightarrow> operation_result" where
  "reply_result act (Acked a) = RegistrationResult (Inr a)"
| "reply_result act Deregistered = DeregisterResult (Inr ())"
| "reply_result act (Refused e) = failed_result act (transport_code_of e)"
| "reply_result act _ = failed_result act TcProtocolError"

section \<open>The system\<close>

record link =
  client :: "lifecycle option"
  flight :: "(nat \<times> operation_ticket) option"
  requests :: "(nat \<times> operation_ticket) set"
  replies :: "(nat \<times> operation_result) set"
  serial :: nat
  table :: shard
  drawn :: "lease_id set"

datatype link_event =
    LinkPublish u64 "binding_map option" instant duration duration
  | LinkPrune
  | LinkBegin instant
  | LinkServe nat operation_ticket instant "uuid list"
  | LinkComplete operation_result instant
  | LinkDiscard instant
  | LinkLost instant
  | LinkTerminal
  | LinkElsewhere shard_call instant "uuid list"
  | LinkRestart shard

text \<open>What \<open>reconcile_desired\<close> does for one session.\<close>

fun publish_client ::
  "registration_key \<Rightarrow> u64 \<Rightarrow> binding_map option \<Rightarrow> instant \<Rightarrow> duration \<Rightarrow> duration \<Rightarrow> lifecycle option \<Rightarrow> lifecycle option" where
  "publish_client key version snap now initial maximum (Some r) = Some (lifecycle_publish version snap now r)"
| "publish_client key version (Some snap) now initial maximum None =
     Some (lifecycle_new key version (Some snap) now initial maximum)"
| "publish_client key version None now initial maximum None = None"

fun elsewhere :: "registration_key \<Rightarrow> shard_call \<Rightarrow> bool" where
  "elsewhere key c \<longleftrightarrow> call_ok c \<and> (case call_owner c of None \<Rightarrow> True | Some (ctx, _, key') \<Rightarrow> key' \<noteq> key \<or> ctx \<noteq> key_gateway_id key)"

inductive link_step :: "(bytes \<Rightarrow> bytes) \<Rightarrow> registration_key \<Rightarrow> generation \<Rightarrow> link \<Rightarrow> link_event \<Rightarrow> link \<Rightarrow> bool"
  for sha256 key gen l where
  publish: "(case snap of None \<Rightarrow> True | Some m \<Rightarrow> snapshot_ok m) \<Longrightarrow>
    link_step sha256 key gen l (LinkPublish version snap now initial maximum)
      (l\<lparr>client := publish_client key version snap now initial maximum (client l)\<rparr>)"
| prune: "client l = Some r \<Longrightarrow> is_removable r \<Longrightarrow> link_step sha256 key gen l LinkPrune (l\<lparr>client := None\<rparr>)"
| start: "flight l = None \<Longrightarrow> client l = Some r \<Longrightarrow> begin_next now r = (Inr (Some ticket), r') \<Longrightarrow>
    link_step sha256 key gen l (LinkBegin now)
      (l\<lparr>client := Some r', flight := Some (serial l, ticket), requests := insert (serial l, ticket) (requests l),
         serial := serial l + 1\<rparr>)"
| serve: "(n, ticket) \<in> requests l \<Longrightarrow> set draws \<inter> drawn l = {} \<Longrightarrow>
    shard_step sha256 draws now (request_call gen (ticket_action ticket)) (table l) = Some (reply, s) \<Longrightarrow>
    link_step sha256 key gen l (LinkServe n ticket now draws)
      (l\<lparr>table := s, drawn := drawn l \<union> set draws, replies := insert (n, reply_result (ticket_action ticket) reply) (replies l)\<rparr>)"
| complete: "flight l = Some (n, ticket) \<Longrightarrow>
    (n, result) \<in> replies l \<or> (\<exists>code. result = failed_result (ticket_action ticket) code) \<Longrightarrow>
    link_step sha256 key gen l (LinkComplete result now)
      (l\<lparr>client := map_option (snd \<circ> complete_operation ticket result now) (client l), flight := None\<rparr>)"
| discard: "flight l = Some (n, ticket) \<Longrightarrow>
    link_step sha256 key gen l (LinkDiscard now)
      (l\<lparr>client := map_option (transient_failure ticket now) (client l), flight := None\<rparr>)"
| lost: "link_step sha256 key gen l (LinkLost now) (l\<lparr>client := map_option (connection_lost now) (client l)\<rparr>)"
| give_up: "link_step sha256 key gen l LinkTerminal (l\<lparr>client := map_option mark_terminal (client l)\<rparr>)"
| other: "elsewhere key c \<Longrightarrow> set draws \<inter> drawn l = {} \<Longrightarrow> shard_step sha256 draws now c (table l) = Some (reply, s) \<Longrightarrow>
    link_step sha256 key gen l (LinkElsewhere c now draws) (l\<lparr>table := s, drawn := drawn l \<union> set draws\<rparr>)"
| restart: "shard_init sha256 s \<Longrightarrow> link_step sha256 key gen l (LinkRestart s) (l\<lparr>table := s\<rparr>)"

definition link_init :: "(bytes \<Rightarrow> bytes) \<Rightarrow> link \<Rightarrow> bool" where
  "link_init sha256 l \<longleftrightarrow> client l = None \<and> flight l = None \<and> requests l = {} \<and> replies l = {} \<and> serial l = 0 \<and>
     shard_init sha256 (table l) \<and> drawn l = {}"

section \<open>The invariant\<close>

text \<open>
  \<open>Q\<close> are the requests sent, \<open>R\<close> is the shard's registration of the key. Revisions are compared as
  numbers, with zero for none.
\<close>

fun rv :: "registration_revision option \<Rightarrow> nat" where
  "rv None = 0"
| "rv (Some revision) = unat revision"

definition update_sent :: "(nat \<times> operation_ticket) set \<Rightarrow> lease_id \<Rightarrow> registration_revision \<Rightarrow> binding_map \<Rightarrow> bool" where
  "update_sent Q lease revision snap \<longleftrightarrow> (\<exists>n ticket key. (n, ticket) \<in> Q \<and> ticket_action ticket = DoUpdate key lease revision snap)"

text \<open>Holding \<open>lease\<close> with accepted revision \<open>c\<close> is a sound view of the shard.\<close>

definition lease_ok :: "(nat \<times> operation_ticket) set \<Rightarrow> registration_state option \<Rightarrow> lease_id \<Rightarrow> registration_revision option \<Rightarrow> bool" where
  "lease_ok Q R lease c \<longleftrightarrow>
     (\<forall>revision snap. update_sent Q lease revision snap \<longrightarrow> unat revision \<le> rv c + 1) \<and>
     (\<forall>reg. R = Some reg \<longrightarrow> reg_lease_id reg = lease \<longrightarrow> rv c \<le> rv (reg_revision reg)) \<and>
     (\<forall>reg revision snap. R = Some reg \<longrightarrow> reg_lease_id reg \<noteq> lease \<longrightarrow> \<not> update_sent Q (reg_lease_id reg) revision snap)"

text \<open>The shard holds exactly \<open>snap\<close> at \<open>revision\<close>, if it still knows the lease, and nothing in the network can change that.\<close>

definition settled ::
  "(nat \<times> operation_ticket) set \<Rightarrow> registration_state option \<Rightarrow> lease_id \<Rightarrow> registration_revision \<Rightarrow> binding_map \<Rightarrow> bool" where
  "settled Q R lease revision snap \<longleftrightarrow>
     (\<forall>revision' snap'. update_sent Q lease revision' snap' \<longrightarrow> unat revision' \<le> unat revision) \<and>
     (\<forall>reg. R = Some reg \<longrightarrow> reg_lease_id reg = lease \<longrightarrow> reg_revision reg = Some revision \<and> reg_bindings reg = snap)"

definition table_ok :: "(nat \<times> operation_ticket) set \<Rightarrow> registration_state option \<Rightarrow> bool" where
  "table_ok Q R \<longleftrightarrow> (\<forall>reg. R = Some reg \<longrightarrow>
     (\<forall>revision snap. update_sent Q (reg_lease_id reg) revision snap \<longrightarrow> unat revision \<le> rv (reg_revision reg) + 1) \<and>
     (case reg_revision reg of None \<Rightarrow> reg_bindings reg = []
      | Some revision \<Rightarrow> update_sent Q (reg_lease_id reg) revision (reg_bindings reg)))"

definition client_ok :: "(nat \<times> operation_ticket) set \<Rightarrow> registration_state option \<Rightarrow> registration_key \<Rightarrow> lifecycle \<Rightarrow> bool" where
  "client_ok Q R key r \<longleftrightarrow> lc_key r = key \<and> (\<forall>snap. lc_snapshot r = Some snap \<longrightarrow> snapshot_ok snap) \<and>
     (\<forall>held. lc_lease r = Some held \<longrightarrow> lease_ok Q R (held_id held) (held_revision held)) \<and>
     (synced_version r = Some (desired_version r) \<longrightarrow>
        (\<exists>held revision snap. lc_lease r = Some held \<and> held_revision held = Some revision \<and> lc_snapshot r = Some snap \<and>
           settled Q R (held_id held) revision snap))"

definition flight_ok ::
  "(nat \<times> operation_ticket) set \<Rightarrow> (nat \<times> operation_result) set \<Rightarrow> registration_state option \<Rightarrow> nat \<Rightarrow> operation_ticket \<Rightarrow> bool" where
  "flight_ok Q A R n ticket \<longleftrightarrow> (n, ticket) \<in> Q \<and>
     (\<forall>key a. ticket_action ticket = DoRegister key \<longrightarrow> (n, RegistrationResult (Inr a)) \<in> A \<longrightarrow>
        lease_ok Q R (ack_lease_id a) (ack_revision a)) \<and>
     (\<forall>key lease revision snap. ticket_action ticket = DoUpdate key lease revision snap \<longrightarrow>
        (\<forall>revision' snap'. update_sent Q lease revision' snap' \<longrightarrow> unat revision' \<le> unat revision) \<and>
        (\<forall>a. (n, RegistrationResult (Inr a)) \<in> A \<longrightarrow> settled Q R lease revision snap))"

definition pending_ok :: "(nat \<times> operation_ticket) option \<Rightarrow> lifecycle \<Rightarrow> bool" where
  "pending_ok f r \<longleftrightarrow> (\<forall>ticket. lc_pending r = Some ticket \<longrightarrow> (\<exists>n. f = Some (n, ticket)) \<and> ticket_version ticket \<le> desired_version r \<and>
     (\<forall>key lease revision snap. ticket_action ticket = DoUpdate key lease revision snap \<longrightarrow>
        synced_version r \<noteq> Some (desired_version r) \<and> (ticket_version ticket = desired_version r \<longrightarrow> lc_snapshot r = Some snap)))"

text \<open>Every lease identifier in use has been drawn; serial numbers name requests.\<close>

definition leases_drawn :: "link \<Rightarrow> registration_key \<Rightarrow> bool" where
  "leases_drawn l key \<longleftrightarrow>
     (\<forall>n ticket lease. (n, ticket) \<in> requests l \<longrightarrow> action_lease_id (ticket_action ticket) = Some lease \<longrightarrow> lease \<in> drawn l) \<and>
     (\<forall>n a. (n, RegistrationResult (Inr a)) \<in> replies l \<longrightarrow> ack_lease_id a \<in> drawn l) \<and>
     (\<forall>r held. client l = Some r \<longrightarrow> lc_lease r = Some held \<longrightarrow> held_id held \<in> drawn l) \<and>
     (\<forall>reg. regs (table l) key = Some reg \<longrightarrow> reg_lease_id reg \<in> drawn l)"

definition network_ok :: "link \<Rightarrow> registration_key \<Rightarrow> bool" where
  "network_ok l key \<longleftrightarrow>
     (\<forall>n ticket. (n, ticket) \<in> requests l \<longrightarrow> n < serial l \<and> action_key (ticket_action ticket) = key \<and>
        (\<forall>ticket'. (n, ticket') \<in> requests l \<longrightarrow> ticket' = ticket) \<and>
        (\<forall>key lease revision snap. ticket_action ticket = DoUpdate key lease revision snap \<longrightarrow> snapshot_ok snap)) \<and>
     (\<forall>n result. (n, result) \<in> replies l \<longrightarrow> n < serial l)"

definition link_inv :: "(bytes \<Rightarrow> bytes) \<Rightarrow> registration_key \<Rightarrow> link \<Rightarrow> bool" where
  "link_inv sha256 key l \<longleftrightarrow> shard_inv sha256 (table l) \<and> network_ok l key \<and> leases_drawn l key \<and>
     table_ok (requests l) (regs (table l) key) \<and>
     (\<forall>r. client l = Some r \<longrightarrow> client_ok (requests l) (regs (table l) key) key r \<and> pending_ok (flight l) r) \<and>
     (\<forall>n ticket. flight l = Some (n, ticket) \<longrightarrow> flight_ok (requests l) (replies l) (regs (table l) key) n ticket)"

section \<open>What the shard can do to the registration\<close>

definition table_change ::
  "(nat \<times> operation_ticket) set \<Rightarrow> lease_id set \<Rightarrow> registration_state option \<Rightarrow> registration_state option \<Rightarrow> bool" where
  "table_change Q D R R' \<longleftrightarrow> (\<forall>reg'. R' = Some reg' \<longrightarrow>
     (\<exists>reg. R = Some reg \<and> reg_lease_id reg = reg_lease_id reg' \<and> reg_revision reg = reg_revision reg' \<and> reg_bindings reg = reg_bindings reg') \<or>
     reg_lease_id reg' \<notin> D \<and> reg_revision reg' = None \<and> reg_bindings reg' = [] \<or>
     (\<exists>reg revision. R = Some reg \<and> reg_lease_id reg = reg_lease_id reg' \<and> reg_revision reg' = Some revision \<and>
        rv (reg_revision reg) < unat revision \<and> update_sent Q (reg_lease_id reg') revision (reg_bindings reg')))"

definition sent_drawn :: "(nat \<times> operation_ticket) set \<Rightarrow> lease_id set \<Rightarrow> bool" where
  "sent_drawn Q D \<longleftrightarrow> (\<forall>lease revision snap. update_sent Q lease revision snap \<longrightarrow> lease \<in> D)"

lemma table_changeE:
  assumes "table_change Q D R R'" "R' = Some reg'"
  obtains (same) reg where "R = Some reg" "reg_lease_id reg = reg_lease_id reg'" "reg_revision reg = reg_revision reg'"
      "reg_bindings reg = reg_bindings reg'"
    | (fresh) "reg_lease_id reg' \<notin> D" "reg_revision reg' = None" "reg_bindings reg' = []"
    | (accepted) reg revision where "R = Some reg" "reg_lease_id reg = reg_lease_id reg'" "reg_revision reg' = Some revision"
      "rv (reg_revision reg) < unat revision" "update_sent Q (reg_lease_id reg') revision (reg_bindings reg')"
  using assms unfolding table_change_def by (elim allE [of _ reg']) auto

lemma table_okD:
  assumes "table_ok Q R" "R = Some reg"
  shows "update_sent Q (reg_lease_id reg) revision snap \<Longrightarrow> unat revision \<le> rv (reg_revision reg) + 1"
    "reg_revision reg = None \<Longrightarrow> reg_bindings reg = []"
    "reg_revision reg = Some revision \<Longrightarrow> update_sent Q (reg_lease_id reg) revision (reg_bindings reg)"
  using assms unfolding table_ok_def by (simp_all, metis)

lemma table_okI:
  assumes "\<And>reg revision snap. R = Some reg \<Longrightarrow> update_sent Q (reg_lease_id reg) revision snap \<Longrightarrow> unat revision \<le> rv (reg_revision reg) + 1"
    and "\<And>reg. R = Some reg \<Longrightarrow> reg_revision reg = None \<Longrightarrow> reg_bindings reg = []"
    and "\<And>reg revision. R = Some reg \<Longrightarrow> reg_revision reg = Some revision \<Longrightarrow> update_sent Q (reg_lease_id reg) revision (reg_bindings reg)"
  shows "table_ok Q R"
  unfolding table_ok_def using assms by (simp split: option.split)

lemma table_ok_change:
  assumes ch: "table_change Q D R R'" and d: "sent_drawn Q D" and ok: "table_ok Q R"
  shows "table_ok Q R'"
proof (rule table_okI)
  fix reg' revision snap
  assume r: "R' = Some reg'" and sent: "update_sent Q (reg_lease_id reg') revision snap"
  show "unat revision \<le> rv (reg_revision reg') + 1" using ch r
  proof (cases rule: table_changeE)
    case (same reg)
    then show ?thesis using table_okD(1) [OF ok same(1)] sent by simp
  next
    case fresh
    then show ?thesis using d sent by (simp add: sent_drawn_def) blast
  next
    case (accepted reg revision')
    then show ?thesis using table_okD(1) [OF ok accepted(1), of revision snap] sent by simp
  qed
next
  fix reg' assume r: "R' = Some reg'" and none: "reg_revision reg' = None"
  show "reg_bindings reg' = []" using ch r
    by (cases rule: table_changeE) (use none table_okD(2) [OF ok] in simp_all)
next
  fix reg' revision assume r: "R' = Some reg'" and some: "reg_revision reg' = Some revision"
  show "update_sent Q (reg_lease_id reg') revision (reg_bindings reg')" using ch r
  proof (cases rule: table_changeE)
    case (same reg)
    then show ?thesis using table_okD(3) [OF ok same(1), of revision] some by simp
  qed (use some in simp_all)
qed

lemma lease_okD:
  assumes "lease_ok Q R lease c"
  shows "update_sent Q lease revision snap \<Longrightarrow> unat revision \<le> rv c + 1"
    "R = Some reg \<Longrightarrow> reg_lease_id reg = lease \<Longrightarrow> rv c \<le> rv (reg_revision reg)"
    "R = Some reg \<Longrightarrow> reg_lease_id reg \<noteq> lease \<Longrightarrow> \<not> update_sent Q (reg_lease_id reg) revision snap"
  using assms unfolding lease_ok_def by blast+

lemma lease_okI:
  assumes "\<And>revision snap. update_sent Q lease revision snap \<Longrightarrow> unat revision \<le> rv c + 1"
    and "\<And>reg. R = Some reg \<Longrightarrow> reg_lease_id reg = lease \<Longrightarrow> rv c \<le> rv (reg_revision reg)"
    and "\<And>reg revision snap. R = Some reg \<Longrightarrow> reg_lease_id reg \<noteq> lease \<Longrightarrow> \<not> update_sent Q (reg_lease_id reg) revision snap"
  shows "lease_ok Q R lease c"
  unfolding lease_ok_def using assms by blast

lemma lease_ok_change:
  assumes ch: "table_change Q D R R'" and d: "sent_drawn Q D" "lease \<in> D" and ok: "lease_ok Q R lease c"
  shows "lease_ok Q R' lease c"
proof (rule lease_okI)
  show "unat revision \<le> rv c + 1" if "update_sent Q lease revision snap" for revision snap using lease_okD(1) [OF ok that] .
next
  fix reg' assume r: "R' = Some reg'" and l: "reg_lease_id reg' = lease"
  show "rv c \<le> rv (reg_revision reg')" using ch r
  proof (cases rule: table_changeE)
    case (same reg)
    then show ?thesis using lease_okD(2) [OF ok same(1)] l by simp
  next
    case (accepted reg revision)
    then show ?thesis using lease_okD(2) [OF ok accepted(1)] l by simp
  qed (use d(2) l in simp)
next
  fix reg' revision snap assume r: "R' = Some reg'" and l: "reg_lease_id reg' \<noteq> lease"
  show "\<not> update_sent Q (reg_lease_id reg') revision snap" using ch r
  proof (cases rule: table_changeE)
    case (same reg)
    then show ?thesis using lease_okD(3) [OF ok same(1), of revision snap] l by simp
  next
    case fresh
    then show ?thesis using d(1) unfolding sent_drawn_def by blast
  next
    case (accepted reg revision')
    then show ?thesis using lease_okD(3) [OF ok accepted(1), of revision' "reg_bindings reg'"] l by simp
  qed
qed

lemma settledD:
  assumes "settled Q R lease revision snap"
  shows "update_sent Q lease revision' snap' \<Longrightarrow> unat revision' \<le> unat revision"
    "R = Some reg \<Longrightarrow> reg_lease_id reg = lease \<Longrightarrow> reg_revision reg = Some revision \<and> reg_bindings reg = snap"
  using assms unfolding settled_def by blast+

lemma settledI:
  assumes "\<And>revision' snap'. update_sent Q lease revision' snap' \<Longrightarrow> unat revision' \<le> unat revision"
    and "\<And>reg. R = Some reg \<Longrightarrow> reg_lease_id reg = lease \<Longrightarrow> reg_revision reg = Some revision \<and> reg_bindings reg = snap"
  shows "settled Q R lease revision snap"
  unfolding settled_def using assms by blast

lemma settled_change:
  assumes ch: "table_change Q D R R'" and d: "lease \<in> D" and ok: "settled Q R lease revision snap"
  shows "settled Q R' lease revision snap"
proof (rule settledI)
  show "unat revision' \<le> unat revision" if "update_sent Q lease revision' snap'" for revision' snap' using settledD(1) [OF ok that] .
next
  fix reg' assume r: "R' = Some reg'" and l: "reg_lease_id reg' = lease"
  show "reg_revision reg' = Some revision \<and> reg_bindings reg' = snap" using ch r
  proof (cases rule: table_changeE)
    case (same reg)
    then show ?thesis using settledD(2) [OF ok same(1)] l by simp
  next
    case (accepted reg revision')
    then have "unat revision < unat revision'" "unat revision' \<le> unat revision"
      using settledD(2) [OF ok accepted(1)] settledD(1) [OF ok, of revision' "reg_bindings reg'"] l by simp_all
    then show ?thesis by simp
  qed (use d l in simp)
qed

text \<open>A request changes the registration of another key only by expiry.\<close>

lemma spec_other:
  assumes "route_spec cfg now R c reply R'" "case call_owner c of None \<Rightarrow> True | Some (ctx, _, key') \<Rightarrow> key' \<noteq> key \<or> ctx \<noteq> key_gateway_id key"
  shows "R' key = R key \<or> R' key = live now R key"
  using assms by (cases rule: route_spec.cases) (auto simp: owned_def)

lemma live_cases: "live now R key = R key \<or> live now R key = None"
  by (auto simp: live_def split: option.split)

lemma table_change_shrink: "R' = R \<or> R' = None \<Longrightarrow> table_change Q D R R'"
  by (auto simp: table_change_def)

lemma spec_other_change:
  assumes "route_spec cfg now R c reply R'" "case call_owner c of None \<Rightarrow> True | Some (ctx, _, key') \<Rightarrow> key' \<noteq> key \<or> ctx \<noteq> key_gateway_id key"
  shows "table_change Q D (R key) (R' key)"
  using spec_other [OF assms] live_cases [of now R key] by (intro table_change_shrink) auto

section \<open>Serving a request of the registration\<close>

text \<open>A lease the shard issues is one of those drawn for the request.\<close>

lemma register_draws:
  assumes inv: "shard_inv sha256 s" and step: "shard_step sha256 draws now (Register ctx gen key) s = Some (reply, s')"
    and reg: "regs s' key = Some reg'"
  shows "s' = s \<and> (\<exists>e. reply = Refused e) \<or> live now (regs s) key = Some reg' \<or> reg_lease_id reg' \<in> set draws"
proof -
  obtain s1 where s1: "snd (expire_due now s) = s1" "regs s1 = live now (regs s)" using expire_due_live [OF inv] by metis
  have same: "regs s1 key = Some reg' \<Longrightarrow> live now (regs s) key = Some reg'" by (simp add: s1(2))
  obtain res where r: "register draws ctx gen key now s = Some (res, s')" "reply = fst (reply_of Acked (res, s'))"
    using step by (auto elim!: reply_of.elims)
  show ?thesis
    using r reg same unfolding register_def s1(1) Let_def
    by (auto simp: unique_lease_id_def find_Some_iff insert_expiry_def table_simps Let_def
        split: sum.splits option.splits if_splits)
qed

lemma register_serves:
  assumes inv: "shard_inv sha256 s" and step: "shard_step sha256 draws now (Register ctx gen key) s = Some (reply, s')"
    and fresh: "set draws \<inter> D = {}" and d: "sent_drawn Q D" and ok: "table_ok Q (regs s key)"
  shows "table_change Q D (regs s key) (regs s' key)"
    "reply = Acked a \<Longrightarrow> lease_ok Q (regs s' key) (ack_lease_id a) (ack_revision a)"
    "regs s' key = Some reg' \<Longrightarrow> regs s key = Some reg' \<or> reg_lease_id reg' \<in> set draws"
    "reply = Acked a \<Longrightarrow> \<exists>reg'. regs s' key = Some reg' \<and> ack_lease_id a = reg_lease_id reg'"
proof -
  have spec: "route_spec (config_of sha256 s) now (regs s) (Register ctx gen key) reply (regs s')"
    using shard_step_refines [OF inv _ step] by simp
  note live = live_cases [of now "regs s" key]
  show new: "regs s' key = Some reg' \<Longrightarrow> regs s key = Some reg' \<or> reg_lease_id reg' \<in> set draws" for reg'
    using register_draws [OF inv step] live_Some by metis
  show change: "table_change Q D (regs s key) (regs s' key)"
    using spec
  proof cases
    case (register_fresh deadline lease)
    then have "lease \<in> set draws" using register_draws [OF inv step, of "\<lparr>reg_lease_id = lease, reg_revision = None, reg_deadline = deadline, reg_bindings = []\<rparr>"]
      by auto
    then show ?thesis using fresh register_fresh by (auto simp: table_change_def)
  qed (use live in \<open>auto intro!: table_change_shrink\<close>)
  note ok' = table_ok_change [OF change d ok]
  show known: "\<exists>reg'. regs s' key = Some reg' \<and> ack_lease_id a = reg_lease_id reg'" if "reply = Acked a" for a
    using spec that by cases (auto simp: ack_def registration_ack_new_def)
  show "lease_ok Q (regs s' key) (ack_lease_id a) (ack_revision a)" if a: "reply = Acked a"
  proof -
    obtain reg' where reg': "regs s' key = Some reg'" "ack_lease_id a = reg_lease_id reg'" "ack_revision a = reg_revision reg'"
      using spec a by cases (auto simp: ack_def registration_ack_new_def)
    show ?thesis by (rule lease_okI) (use reg' table_okD(1) [OF ok' reg'(1)] in auto)
  qed
qed

lemma update_serves:
  assumes inv: "shard_inv sha256 s" and step: "shard_step sha256 draws now (Update ctx gen key lease revision snap) s = Some (reply, s')"
    and snap: "snapshot_ok snap" and sent: "update_sent Q lease revision snap" and ok: "table_ok Q (regs s key)"
  shows "table_change Q D (regs s key) (regs s' key)"
    "reply = Acked a \<Longrightarrow> (\<And>revision' snap'. update_sent Q lease revision' snap' \<Longrightarrow> unat revision' \<le> unat revision) \<Longrightarrow>
       settled Q (regs s' key) lease revision snap"
    "reply = Acked a \<Longrightarrow> ack_lease_id a = lease"
    "regs s' key = Some reg' \<Longrightarrow> \<exists>reg. regs s key = Some reg \<and> reg_lease_id reg' = reg_lease_id reg"
proof -
  have spec: "route_spec (config_of sha256 s) now (regs s) (Update ctx gen key lease revision snap) reply (regs s')"
    using shard_step_refines [OF inv _ step] snap by simp
  note live = live_cases [of now "regs s" key]
  show "table_change Q D (regs s key) (regs s' key)"
    using spec
  proof cases
    case (update_accepted r)
    then have "rv (reg_revision r) < unat revision"
      by (cases "reg_revision r") (auto simp: acceptable_def REVISION_FIRST_def word_less_nat_alt)
    then show ?thesis using update_accepted sent by (auto simp: table_change_def live_Some)
  qed (use live in \<open>auto intro!: table_change_shrink\<close>)
  show "settled Q (regs s' key) lease revision snap"
    if a: "reply = Acked a" and top: "\<And>revision' snap'. update_sent Q lease revision' snap' \<Longrightarrow> unat revision' \<le> unat revision"
  proof (rule settledI)
    show "unat revision' \<le> unat revision" if "update_sent Q lease revision' snap'" for revision' snap' using top [OF that] .
    show "reg_revision reg = Some revision \<and> reg_bindings reg = snap" if "regs s' key = Some reg" for reg
      using spec a that by cases auto
  qed
  show "reply = Acked a \<Longrightarrow> ack_lease_id a = lease"
    using spec by cases (auto simp: ack_def registration_ack_new_def)
  show "regs s' key = Some reg' \<Longrightarrow> \<exists>reg. regs s key = Some reg \<and> reg_lease_id reg' = reg_lease_id reg"
    using spec by cases (auto simp: live_Some)
qed

lemma keep_alive_serves:
  assumes inv: "shard_inv sha256 s" and step: "shard_step sha256 draws now (KeepAlive ctx gen key lease) s = Some (reply, s')"
  shows "table_change Q D (regs s key) (regs s' key)" "reply = Acked a \<Longrightarrow> ack_lease_id a = lease"
    "regs s' key = Some reg' \<Longrightarrow> \<exists>reg. regs s key = Some reg \<and> reg_lease_id reg' = reg_lease_id reg"
proof -
  have spec: "route_spec (config_of sha256 s) now (regs s) (KeepAlive ctx gen key lease) reply (regs s')"
    using shard_step_refines [OF inv _ step] by simp
  note live = live_cases [of now "regs s" key]
  show "table_change Q D (regs s key) (regs s' key)"
    using spec
  proof cases
    case (keep_alive_renewed r deadline)
    then show ?thesis by (auto simp: table_change_def live_Some)
  qed (use live in \<open>auto intro!: table_change_shrink\<close>)
  show "reply = Acked a \<Longrightarrow> ack_lease_id a = lease"
    using spec by cases (auto simp: registration_ack_new_def)
  show "regs s' key = Some reg' \<Longrightarrow> \<exists>reg. regs s key = Some reg \<and> reg_lease_id reg' = reg_lease_id reg"
    using spec by cases (auto simp: live_Some)
qed

lemma deregister_serves:
  assumes inv: "shard_inv sha256 s" and step: "shard_step sha256 draws now (Deregister ctx gen key lease) s = Some (reply, s')"
  shows "table_change Q D (regs s key) (regs s' key)" "reply \<noteq> Acked a"
    "regs s' key = Some reg' \<Longrightarrow> \<exists>reg. regs s key = Some reg \<and> reg_lease_id reg' = reg_lease_id reg"
proof -
  have spec: "route_spec (config_of sha256 s) now (regs s) (Deregister ctx gen key lease) reply (regs s')"
    using shard_step_refines [OF inv _ step] by simp
  note live = live_cases [of now "regs s" key]
  show "table_change Q D (regs s key) (regs s' key)"
    using spec by cases (use live in \<open>auto intro!: table_change_shrink\<close>)
  show "reply \<noteq> Acked a"
    using spec by cases auto
  show "regs s' key = Some reg' \<Longrightarrow> \<exists>reg. regs s key = Some reg \<and> reg_lease_id reg' = reg_lease_id reg"
    using spec by cases (auto simp: live_Some)
qed

text \<open>The four together: what serving \<open>act\<close> does to the registration and what its reply is good for.\<close>

definition serves ::
  "(nat \<times> operation_ticket) set \<Rightarrow> lease_id set \<Rightarrow> registration_state option \<Rightarrow> registration_state option \<Rightarrow> lease_id set \<Rightarrow>
   registration_action \<Rightarrow> shard_reply \<Rightarrow> bool" where
  "serves Q D R R' D' act reply \<longleftrightarrow> table_change Q D R R' \<and> (\<forall>reg. R' = Some reg \<longrightarrow> reg_lease_id reg \<in> D') \<and>
     (\<forall>a. reply = Acked a \<longrightarrow> ack_lease_id a \<in> D') \<and>
     (\<forall>k a. act = DoRegister k \<longrightarrow> reply = Acked a \<longrightarrow> lease_ok Q R' (ack_lease_id a) (ack_revision a)) \<and>
     (\<forall>k lease revision snap a. act = DoUpdate k lease revision snap \<longrightarrow> reply = Acked a \<longrightarrow>
        (\<forall>revision' snap'. update_sent Q lease revision' snap' \<longrightarrow> unat revision' \<le> unat revision) \<longrightarrow> settled Q R' lease revision snap)"

lemma request_serves:
  assumes inv: "shard_inv sha256 s" and step: "shard_step sha256 draws now (request_call gen act) s = Some (reply, s')"
    and key: "action_key act = key" and fresh: "set draws \<inter> D = {}" and d: "sent_drawn Q D" and ok: "table_ok Q (regs s key)"
    and reg: "\<And>reg. regs s key = Some reg \<Longrightarrow> reg_lease_id reg \<in> D" and lease: "\<And>i. action_lease_id act = Some i \<Longrightarrow> i \<in> D"
    and upd: "\<And>k i v m. act = DoUpdate k i v m \<Longrightarrow> snapshot_ok m \<and> update_sent Q i v m"
  shows "serves Q D (regs s key) (regs s' key) (D \<union> set draws) act reply"
proof (cases act)
  case (DoRegister k)
  then have st: "shard_step sha256 draws now (Register (key_gateway_id key) gen key) s = Some (reply, s')" using step key by simp
  note S = register_serves [OF inv st fresh d ok]
  show ?thesis unfolding serves_def
  proof (intro conjI allI impI)
    show "table_change Q D (regs s key) (regs s' key)" by (rule S(1))
    show issued: "reg_lease_id r \<in> D \<union> set draws" if "regs s' key = Some r" for r using S(3) [OF that] reg by auto
    show "ack_lease_id a \<in> D \<union> set draws" if "reply = Acked a" for a using S(4) [OF that] issued by auto
    show "lease_ok Q (regs s' key) (ack_lease_id a) (ack_revision a)" if "reply = Acked a" for a by (rule S(2) [OF that])
  qed (use DoRegister in simp)
next
  case (DoUpdate k i v m)
  then have st: "shard_step sha256 draws now (Update (key_gateway_id key) gen key i v m) s = Some (reply, s')" using step key by simp
  have u: "snapshot_ok m" "update_sent Q i v m" using upd [OF DoUpdate] by simp_all
  note S = update_serves [OF inv st u ok]
  show ?thesis unfolding serves_def
  proof (intro conjI allI impI)
    show "table_change Q D (regs s key) (regs s' key)" by (rule S(1))
    show "reg_lease_id r \<in> D \<union> set draws" if "regs s' key = Some r" for r using S(4) [OF that] reg by auto
    show "ack_lease_id a \<in> D \<union> set draws" if "reply = Acked a" for a using S(3) [OF that] lease DoUpdate by simp
    fix k' i' v' m' a
    assume a: "act = DoUpdate k' i' v' m'" "reply = Acked a" "\<forall>revision' snap'. update_sent Q i' revision' snap' \<longrightarrow> unat revision' \<le> unat v'"
    then have "i' = i" "v' = v" "m' = m" using DoUpdate by simp_all
    then show "settled Q (regs s' key) i' v' m'" using S(2) [OF a(2)] a(3) by blast
  qed (use DoUpdate in simp)
next
  case (DoKeepAlive k i)
  then have st: "shard_step sha256 draws now (KeepAlive (key_gateway_id key) gen key i) s = Some (reply, s')" using step key by simp
  note S = keep_alive_serves [OF inv st]
  show ?thesis unfolding serves_def using S(1) S(2) S(3) reg lease DoKeepAlive by fastforce
next
  case (DoDeregister k i)
  then have st: "shard_step sha256 draws now (Deregister (key_gateway_id key) gen key i) s = Some (reply, s')" using step key by simp
  note S = deregister_serves [OF inv st]
  show ?thesis unfolding serves_def using S(1) S(2) S(3) reg DoDeregister by fastforce
qed

section \<open>What the client does with a result\<close>

abbreviation lease_view :: "lifecycle \<Rightarrow> (lease_id \<times> registration_revision option) option" where
  "lease_view r \<equiv> map_option (\<lambda>held. (held_id held, held_revision held)) (lc_lease r)"

text \<open>Most results only take from what the client believes.\<close>

definition calmer :: "lifecycle \<Rightarrow> lifecycle \<Rightarrow> bool" where
  "calmer r r' \<longleftrightarrow> lc_key r' = lc_key r \<and> lc_snapshot r' = lc_snapshot r \<and> desired_version r' = desired_version r \<and>
     (lc_pending r' = None \<or> lc_pending r' = lc_pending r) \<and>
     (lc_lease r' = None \<and> synced_version r' = None \<or>
      lease_view r' = lease_view r \<and> (synced_version r' = None \<or> synced_version r' = synced_version r))"

named_theorems calming \<open>results that only take from what the client believes\<close>

lemma calmer_refl [simp]: "calmer r r"
  by (simp add: calmer_def)

lemma take_pending_calmer: "calmer r (snd (take_pending ticket r))"
  by (simp add: calmer_def take_pending_def)

lemma take_pending_cases:
  "take_pending ticket r = (False, r) \<or> lc_pending r = Some ticket \<and> snd (take_pending ticket r) = r\<lparr>lc_pending := None\<rparr>"
  by (simp add: take_pending_def)

lemma take_current_snd: "snd (take_current ticket r) = snd (take_pending ticket r)"
  by (simp add: take_current_def case_prod_unfold)

lemma take_current_cases:
  obtains "take_current ticket r = (False, r)" "lc_pending r \<noteq> Some ticket"
  | ok where "take_current ticket r = (ok, r\<lparr>lc_pending := None\<rparr>)" "lc_pending r = Some ticket"
      "ok \<longleftrightarrow> current_lease_id r = action_lease_id (ticket_action ticket) \<and> desired_version r = ticket_version ticket"
  by (cases "lc_pending r = Some ticket") (auto simp: take_current_def take_pending_def)

lemma calmer_terminal_failure [calming]: "calmer r (terminal_failure ticket r)"
  by (rule take_current_cases [of ticket r]) (auto simp: terminal_failure_def calmer_def)

lemma calmer_precondition_failed [calming]: "calmer r (precondition_failed ticket now r)"
  using calmer_terminal_failure [of r ticket]
  by (cases rule: take_current_cases [of ticket r])
    (auto simp: precondition_failed_def reset_retry_def calmer_def split: option.splits)

lemma calmer_transient_failure [calming]: "calmer r (transient_failure ticket now r)"
  by (rule take_current_cases [of ticket r]) (auto simp: transient_failure_def calmer_def)

lemma calmer_finish_deregister [calming]: "calmer r (finish_deregister ticket r)"
  by (rule take_current_cases [of ticket r]) (auto simp: finish_deregister_def calmer_def)

lemma calmer_connection_lost [calming]: "calmer r (connection_lost now r)"
  by (simp add: connection_lost_def calmer_def Let_def)

lemma calmer_mark_terminal [calming]: "calmer r (mark_terminal r)"
  by (simp add: mark_terminal_def calmer_def Let_def)

lemma calmer_keep_alive_succeeded [calming]: "calmer r (keep_alive_succeeded ticket a now r)"
  by (rule take_current_cases [of ticket r])
    (auto simp: keep_alive_succeeded_def reset_retry_def calmer_def Let_def split: registration_action.splits option.splits)

lemma calmer_registration_rejected [calming]: "calmer r (registration_rejected code ticket now r)"
  by (cases code) (simp_all add: registration_rejected_def calming)

lemma lease_view_Some:
  assumes "lease_view r' = lease_view r" "lc_lease r' = Some h"
  obtains h0 where "lc_lease r = Some h0" "held_id h0 = held_id h" "held_revision h0 = held_revision h"
  using assms by (cases "lc_lease r") auto

lemma client_ok_calmer:
  assumes "calmer r r'" "client_ok Q R key r"
  shows "client_ok Q R key r'"
proof -
  have lease: "lease_ok Q R (held_id h) (held_revision h)" if h: "lc_lease r' = Some h" for h
  proof -
    have "lease_view r' = lease_view r" using assms(1) h by (auto simp: calmer_def)
    then obtain h0 where "lc_lease r = Some h0" "held_id h0 = held_id h" "held_revision h0 = held_revision h"
      using h lease_view_Some by blast
    then show ?thesis using assms(2) by (auto simp: client_ok_def)
  qed
  have "\<exists>held revision snap. lc_lease r' = Some held \<and> held_revision held = Some revision \<and> lc_snapshot r' = Some snap \<and>
      settled Q R (held_id held) revision snap" if s: "synced_version r' = Some (desired_version r')"
  proof -
    have "synced_version r = Some (desired_version r)" and v: "lease_view r' = lease_view r" and snap: "lc_snapshot r' = lc_snapshot r"
      using assms(1) s by (auto simp: calmer_def)
    then obtain h revision snap where h: "lc_lease r = Some h" "held_revision h = Some revision" "lc_snapshot r = Some snap"
        "settled Q R (held_id h) revision snap"
      using assms(2) by (auto simp: client_ok_def)
    obtain h' where "lc_lease r' = Some h'" "held_id h' = held_id h" "held_revision h' = held_revision h"
      using lease_view_Some [OF v [symmetric] h(1)] .
    then show ?thesis using h snap by auto
  qed
  then show ?thesis using lease assms by (simp add: client_ok_def calmer_def)
qed

lemma pending_ok_calmer: "calmer r r' \<Longrightarrow> pending_ok f r \<Longrightarrow> pending_ok f r'"
  unfolding pending_ok_def calmer_def by (elim conjE disjE) simp_all

lemma drawn_calmer:
  assumes "calmer r r'" "\<And>h. lc_lease r = Some h \<Longrightarrow> held_id h \<in> D" "lc_lease r' = Some h'"
  shows "held_id h' \<in> D"
proof -
  have "lease_view r' = lease_view r" using assms(1,3) by (auto simp: calmer_def)
  then show ?thesis using lease_view_Some [OF _ assms(3)] assms(2) by metis
qed

lemma publish_client_ok:
  assumes ok: "client_ok Q R key r" and snap: "\<And>m. snap = Some m \<Longrightarrow> snapshot_ok m"
  shows "client_ok Q R key (lifecycle_publish version snap now r)"
proof (cases "version \<le> desired_version r")
  case False
  have "lc_lease r \<noteq> None" if "is_synced r" using that by (auto simp: is_synced_def lifecycle_phase_def split: if_splits option.splits)
  moreover have "synced_version r = Some (desired_version r)" if "is_synced r"
    using that by (auto simp: is_synced_def lifecycle_phase_def split: if_splits option.splits)
  moreover have "\<not> lc_terminal r" if "is_synced r" using that by (auto simp: is_synced_def lifecycle_phase_def)
  ultimately show ?thesis using ok snap False by (auto simp: lifecycle_publish_def client_ok_def Let_def)
qed (simp add: lifecycle_publish_def ok)

lemma publish_pending_ok:
  assumes "pending_ok f r"
  shows "pending_ok f (lifecycle_publish version snap now r)"
proof -
  have "synced_version r = Some (desired_version r)" if "is_synced r"
    using that by (auto simp: is_synced_def lifecycle_phase_def split: if_splits option.splits)
  then show ?thesis using assms by (fastforce simp: lifecycle_publish_def pending_ok_def Let_def)
qed

lemma publish_lease: "lc_lease (lifecycle_publish version snap now r) = Some h \<Longrightarrow> lc_lease r = Some h"
  by (auto simp: lifecycle_publish_def Let_def split: if_splits)

lemma new_client_ok:
  "snapshot_ok m \<Longrightarrow> client_ok Q R key (lifecycle_new key version (Some m) now initial maximum)"
  "pending_ok f (lifecycle_new key version (Some m) now initial maximum)"
  "lc_lease (lifecycle_new key version (Some m) now initial maximum) = None"
  by (simp_all add: client_ok_def pending_ok_def lifecycle_new_def)

text \<open>A completed operation is not pending any more.\<close>

lemma taken:
  assumes "lc_pending r = None \<or> lc_pending r = Some ticket"
  shows "lc_pending (snd (take_pending ticket r)) = None" "lc_pending (snd (take_current ticket r)) = None"
  using assms by (auto simp: take_current_def take_pending_def)

lemma transient_taken:
  assumes "lc_pending r = None \<or> lc_pending r = Some ticket"
  shows "lc_pending (transient_failure ticket now r) = None"
  using taken(2) [OF assms] by (auto simp: transient_failure_def split: prod.splits)

lemma rejected_taken:
  assumes "lc_pending r = None \<or> lc_pending r = Some ticket"
  shows "lc_pending (registration_rejected code ticket now r) = None"
  using taken(2) [OF assms] transient_taken [OF assms]
  by (cases code) (auto simp: registration_rejected_def precondition_failed_def terminal_failure_def reset_retry_def
      split: prod.splits option.splits)

lemma complete_taken:
  assumes p: "lc_pending r = None \<or> lc_pending r = Some ticket"
  shows "lc_pending (snd (complete_operation ticket result now r)) = None"
proof -
  note t = taken [OF p] transient_taken [OF p] rejected_taken [OF p]
  have f: "lc_pending (finish_deregister ticket r) = None" using t(2) by (auto simp: finish_deregister_def split: prod.splits)
  have m: "lc_pending (mark_terminal r) = None" by (simp add: mark_terminal_def Let_def)
  have rs: "lc_pending (register_succeeded ticket a now r) = None" for a
    using t(2) by (auto simp: register_succeeded_def reset_retry_def split: prod.splits)
  have us: "lc_pending (update_succeeded ticket a now r) = None" if "ticket_action ticket = DoUpdate k i v m" for a k i v m
    using t(1) that by (auto simp: update_succeeded_def reset_retry_def Let_def split: prod.splits option.splits)
  have ks: "lc_pending (keep_alive_succeeded ticket a now r) = None" if "ticket_action ticket = DoKeepAlive k i" for a k i
    using t(2) that by (auto simp: keep_alive_succeeded_def reset_retry_def Let_def split: prod.splits option.splits)
  show ?thesis
    by (cases "(ticket, result, now, r)" rule: complete_operation.cases)
      (auto simp: f m rs us ks t split: sum.split registration_action.split)
qed

text \<open>The two results that add to what the client believes.\<close>

lemma register_client_ok:
  assumes ok: "client_ok Q R key r" and lease: "lease_ok Q R (ack_lease_id a) (ack_revision a)"
  shows "client_ok Q R key (register_succeeded ticket a now r)"
  using client_ok_calmer [OF take_pending_calmer ok, of ticket] ok lease
  by (cases rule: take_current_cases [of ticket r]) (auto simp: register_succeeded_def reset_retry_def client_ok_def)

lemma update_client_ok:
  assumes ok: "client_ok Q R key r" and act: "ticket_action ticket = DoUpdate key' lease revision snap"
    and settled: "settled Q R lease revision snap"
    and desired: "lc_pending r = Some ticket \<Longrightarrow> ticket_version ticket = desired_version r \<Longrightarrow> lc_snapshot r = Some snap"
    and unsynced: "lc_pending r = Some ticket \<Longrightarrow> synced_version r \<noteq> Some (desired_version r)"
  shows "client_ok Q R key (update_succeeded ticket a now r)"
proof (cases "lc_pending r = Some ticket")
  case False
  then show ?thesis using ok act by (simp add: update_succeeded_def take_pending_def)
next
  case True
  let ?r1 = "r\<lparr>lc_pending := None\<rparr>"
  have r1: "client_ok Q R key ?r1" using client_ok_calmer [of r ?r1, OF _ ok] by (simp add: calmer_def)
  have more: "lease_ok Q R lease (Some revision)" if "lease_ok Q R lease c" for c
    by (rule lease_okI) (use settledD [OF settled] lease_okD(3) [OF that] in fastforce)+
  show ?thesis
  proof (cases "lc_lease r")
    case None
    then show ?thesis using True act r1 by (simp add: update_succeeded_def take_pending_def)
  next
    case (Some h)
    then have "lease_ok Q R (held_id h) (held_revision h)" using ok by (simp add: client_ok_def)
    then show ?thesis
      using True act Some r1 more desired settled ok unsynced
      by (auto simp: update_succeeded_def take_pending_def current_lease_id_def reset_retry_def Let_def client_ok_def)
  qed
qed

lemma update_lease:
  "lc_lease (update_succeeded ticket a now r) = Some h' \<Longrightarrow> \<exists>h. lc_lease r = Some h \<and> held_id h' = held_id h"
  by (auto simp: update_succeeded_def take_pending_def reset_retry_def Let_def split: registration_action.splits option.splits if_splits prod.splits)

lemma register_lease:
  "lc_lease (register_succeeded ticket a now r) = Some h' \<Longrightarrow> lc_lease r = Some h' \<or> held_id h' = ack_lease_id a"
  by (rule take_current_cases [of ticket r]) (auto simp: register_succeeded_def reset_retry_def split: if_splits)

lemma flight_okD:
  assumes "flight_ok Q A R n ticket"
  shows "(n, ticket) \<in> Q"
    "ticket_action ticket = DoRegister key \<Longrightarrow> (n, RegistrationResult (Inr a)) \<in> A \<Longrightarrow> lease_ok Q R (ack_lease_id a) (ack_revision a)"
    "ticket_action ticket = DoUpdate key lease revision snap \<Longrightarrow> update_sent Q lease revision' snap' \<Longrightarrow> unat revision' \<le> unat revision"
    "ticket_action ticket = DoUpdate key lease revision snap \<Longrightarrow> (n, RegistrationResult (Inr a)) \<in> A \<Longrightarrow> settled Q R lease revision snap"
  using assms unfolding flight_ok_def by blast+

lemma pending_okD:
  assumes "pending_ok f r" "lc_pending r = Some ticket"
  shows "\<exists>n. f = Some (n, ticket)" "ticket_version ticket \<le> desired_version r"
    "ticket_action ticket = DoUpdate key lease revision snap \<Longrightarrow> synced_version r \<noteq> Some (desired_version r)"
    "ticket_action ticket = DoUpdate key lease revision snap \<Longrightarrow> ticket_version ticket = desired_version r \<Longrightarrow> lc_snapshot r = Some snap"
  using assms unfolding pending_ok_def by blast+

text \<open>Everything but an acknowledgement calms.\<close>

lemma complete_cases:
  obtains (calm) "calmer r (snd (complete_operation ticket result now r))"
  | (registered) key a where "ticket_action ticket = DoRegister key" "result = RegistrationResult (Inr a)"
      "snd (complete_operation ticket result now r) = register_succeeded ticket a now r"
  | (updated) key lease revision snap a where "ticket_action ticket = DoUpdate key lease revision snap" "result = RegistrationResult (Inr a)"
      "snd (complete_operation ticket result now r) = update_succeeded ticket a now r"
proof (cases "(ticket, result, now, r)" rule: complete_operation.cases)
  case (1 ticket' result' now' r')
  then show ?thesis using that(1) by (auto simp: calming split: sum.splits)
next
  case (2 ticket' a now' r')
  then show ?thesis using that by (cases "ticket_action ticket") (auto simp: calming)
next
  case (3 ticket' code now' r')
  then show ?thesis using that(1) by (simp add: calming)
qed

lemma complete_client_ok:
  assumes ok: "client_ok Q R key r" and p: "pending_ok (Some (n, ticket)) r" and f: "flight_ok Q A R n ticket"
    and res: "(n, result) \<in> A \<or> (\<exists>code. result = failed_result (ticket_action ticket) code)"
  shows "client_ok Q R key (snd (complete_operation ticket result now r))"
proof (cases rule: complete_cases [of r ticket result now])
  case calm
  then show ?thesis using client_ok_calmer ok by blast
next
  case (registered key' a)
  then have "(n, RegistrationResult (Inr a)) \<in> A" using res by (auto simp: failed_result_def split: if_splits)
  then have "lease_ok Q R (ack_lease_id a) (ack_revision a)" by (rule flight_okD(2) [OF f registered(1)])
  then show ?thesis unfolding registered(3) by (rule register_client_ok [OF ok])
next
  case (updated key' lease revision snap a)
  then have "(n, RegistrationResult (Inr a)) \<in> A" using res by (auto simp: failed_result_def split: if_splits)
  then have "settled Q R lease revision snap" by (rule flight_okD(4) [OF f updated(1)])
  then show ?thesis unfolding updated(3)
    by (rule update_client_ok [OF ok updated(1)]) (use pending_okD(3,4) [OF p _ updated(1)] in blast)+
qed

lemma complete_drawn:
  assumes d: "\<And>h. lc_lease r = Some h \<Longrightarrow> held_id h \<in> D" and a: "\<And>a. (n, RegistrationResult (Inr a)) \<in> A \<Longrightarrow> ack_lease_id a \<in> D"
    and res: "(n, result) \<in> A \<or> (\<exists>code. result = failed_result (ticket_action ticket) code)"
    and h: "lc_lease (snd (complete_operation ticket result now r)) = Some h'"
  shows "held_id h' \<in> D"
proof (cases rule: complete_cases [of r ticket result now])
  case calm
  then show ?thesis using drawn_calmer [OF _ d h] by blast
next
  case (registered key' a')
  then have "ack_lease_id a' \<in> D" using res a by (auto simp: failed_result_def split: if_splits)
  then show ?thesis using register_lease [of ticket a' now r h'] registered(3) h d by auto
next
  case (updated key' lease revision snap a')
  then show ?thesis using update_lease [of ticket a' now r h'] h d by auto
qed

section \<open>Starting an operation\<close>

lemma next_revision_Inr:
  assumes "next_revision h = Inr revision"
  shows "unat revision = rv (held_revision h) + 1"
proof (cases "held_revision h")
  case None
  then show ?thesis using assms by (simp add: next_revision_def REVISION_FIRST_def)
next
  case (Some v)
  then have "revision = 1 + v" "1 + v \<noteq> 0"
    using assms by (auto simp: next_revision_def registration_revision_new_def map_err_def add.commute split: if_splits)
  then show ?thesis using unatSuc [of v] Some by simp
qed

lemma next_action_cases:
  assumes "next_action now r = Inr (Some act)"
  shows "action_key act = lc_key r"
    "\<And>lease. action_lease_id act = Some lease \<Longrightarrow> \<exists>h. lc_lease r = Some h \<and> lease = held_id h"
    "\<And>key lease revision snap. act = DoUpdate key lease revision snap \<Longrightarrow>
       lc_snapshot r = Some snap \<and> synced_version r \<noteq> Some (desired_version r) \<and>
       (\<exists>h. lc_lease r = Some h \<and> lease = held_id h \<and> unat revision = rv (held_revision h) + 1)"
proof -
  consider "lc_snapshot r = None" "lc_lease r = None" | h where "lc_snapshot r = None" "lc_lease r = Some h"
    | m where "lc_snapshot r = Some m" "lc_lease r = None" | m h where "lc_snapshot r = Some m" "lc_lease r = Some h" by fastforce
  then have "action_key act = lc_key r \<and> (\<forall>lease. action_lease_id act = Some lease \<longrightarrow> (\<exists>h. lc_lease r = Some h \<and> lease = held_id h)) \<and>
    (\<forall>key lease revision snap. act = DoUpdate key lease revision snap \<longrightarrow>
       lc_snapshot r = Some snap \<and> synced_version r \<noteq> Some (desired_version r) \<and>
       (\<exists>h. lc_lease r = Some h \<and> lease = held_id h \<and> unat revision = rv (held_revision h) + 1))"
  proof cases
    case (4 m h)
    show ?thesis
    proof (cases "next_revision h")
      case (Inl e)
      then show ?thesis using assms 4 by (auto simp: next_action_def split: if_splits)
    next
      case (Inr revision)
      then show ?thesis using assms 4 next_revision_Inr [OF Inr] by (auto simp: next_action_def split: if_splits)
    qed
  qed (use assms in \<open>auto simp: next_action_def\<close>)
  then show "action_key act = lc_key r"
    "\<And>lease. action_lease_id act = Some lease \<Longrightarrow> \<exists>h. lc_lease r = Some h \<and> lease = held_id h"
    "\<And>key lease revision snap. act = DoUpdate key lease revision snap \<Longrightarrow>
       lc_snapshot r = Some snap \<and> synced_version r \<noteq> Some (desired_version r) \<and>
       (\<exists>h. lc_lease r = Some h \<and> lease = held_id h \<and> unat revision = rv (held_revision h) + 1)"
    by blast+
qed

lemma begin_nextE:
  assumes "begin_next now r = (Inr (Some ticket), r')"
  obtains "lc_pending r = None" "ticket_version ticket = desired_version r" "next_action now r = Inr (Some (ticket_action ticket))"
    "r' = r\<lparr>next_attempt_id := next_attempt_id r + 1, lc_pending := Some ticket\<rparr>"
  using assms by (auto simp: begin_next_def Let_def split: if_splits sum.splits option.splits)

end
