(* ===== verification/Routing_Sync.thy ===== *)
theory Routing_Sync
  imports Routing_Link "HOL-Library.Code_Target_Nat"
begin

text \<open>
  What being synced means. The invariant of the end-to-end system of \<open>Routing_Link\<close> is kept by every step;
  its consequence is that a registration its gateway counts as synced is never stale at the shard.
\<close>

section \<open>The invariant step by step\<close>

lemma link_invD:
  assumes "link_inv sha256 key l"
  shows "shard_inv sha256 (table l)" "network_ok l key" "leases_drawn l key" "table_ok (requests l) (regs (table l) key)"
    "client l = Some r \<Longrightarrow> client_ok (requests l) (regs (table l) key) key r"
    "client l = Some r \<Longrightarrow> pending_ok (flight l) r"
    "flight l = Some (n, ticket) \<Longrightarrow> flight_ok (requests l) (replies l) (regs (table l) key) n ticket"
  using assms unfolding link_inv_def by blast+

lemma leases_drawnD:
  assumes "leases_drawn l key"
  shows "(n, ticket) \<in> requests l \<Longrightarrow> action_lease_id (ticket_action ticket) = Some lease \<Longrightarrow> lease \<in> drawn l"
    "(n, RegistrationResult (Inr a)) \<in> replies l \<Longrightarrow> ack_lease_id a \<in> drawn l"
    "client l = Some r \<Longrightarrow> lc_lease r = Some held \<Longrightarrow> held_id held \<in> drawn l"
    "regs (table l) key = Some reg \<Longrightarrow> reg_lease_id reg \<in> drawn l"
  using assms unfolding leases_drawn_def by blast+

lemma network_okD:
  assumes "network_ok l key"
  shows "(n, ticket) \<in> requests l \<Longrightarrow> n < serial l"
    "(n, ticket) \<in> requests l \<Longrightarrow> action_key (ticket_action ticket) = key"
    "(n, ticket) \<in> requests l \<Longrightarrow> (n, ticket') \<in> requests l \<Longrightarrow> ticket' = ticket"
    "(n, ticket) \<in> requests l \<Longrightarrow> ticket_action ticket = DoUpdate key' lease revision snap \<Longrightarrow> snapshot_ok snap"
    "(n, result) \<in> replies l \<Longrightarrow> n < serial l"
  using assms unfolding network_ok_def by blast+

lemma sent_are_drawn: "leases_drawn l key \<Longrightarrow> sent_drawn (requests l) (drawn l)"
  unfolding sent_drawn_def update_sent_def using leases_drawnD(1) by fastforce

lemma inv_client:
  assumes inv: "link_inv sha256 key l" and f: "f = flight l \<or> f = None"
    and c: "\<And>r. c = Some r \<Longrightarrow> client_ok (requests l) (regs (table l) key) key r \<and> pending_ok f r"
    and d: "\<And>r h. c = Some r \<Longrightarrow> lc_lease r = Some h \<Longrightarrow> held_id h \<in> drawn l"
  shows "link_inv sha256 key (l\<lparr>client := c, flight := f\<rparr>)"
proof -
  have "leases_drawn (l\<lparr>client := c, flight := f\<rparr>) key"
    using link_invD(3) [OF inv] d unfolding leases_drawn_def by simp
  moreover have "network_ok (l\<lparr>client := c, flight := f\<rparr>) key"
    using link_invD(2) [OF inv] unfolding network_ok_def by simp
  ultimately show ?thesis using inv f c unfolding link_inv_def by auto
qed

lemma inv_table:
  assumes inv: "link_inv sha256 key l" and s: "shard_inv sha256 s" and D: "drawn l \<subseteq> D"
    and ch: "table_change (requests l) (drawn l) (regs (table l) key) (regs s key)"
    and reg: "\<And>reg. regs s key = Some reg \<Longrightarrow> reg_lease_id reg \<in> D"
  shows "link_inv sha256 key (l\<lparr>table := s, drawn := D\<rparr>)"
proof -
  note I = link_invD [OF inv] and L = leases_drawnD [OF link_invD(3) [OF inv]]
  note sd = sent_are_drawn [OF I(3)]
  have drawn: "leases_drawn (l\<lparr>table := s, drawn := D\<rparr>) key"
    unfolding leases_drawn_def using L(1-3) reg D by (simp, blast)
  have client: "client_ok (requests l) (regs s key) key r" if r: "client l = Some r" for r
  proof -
    have "lease_ok (requests l) (regs s key) (held_id h) (held_revision h)" if "lc_lease r = Some h" for h
      using lease_ok_change [OF ch sd L(3) [OF r that]] I(5) [OF r] that by (simp add: client_ok_def)
    moreover have "settled (requests l) (regs s key) (held_id h) revision snap"
      if "lc_lease r = Some h" "settled (requests l) (regs (table l) key) (held_id h) revision snap" for h revision snap
      using settled_change [OF ch L(3) [OF r that(1)] that(2)] .
    ultimately show ?thesis using I(5) [OF r] unfolding client_ok_def by blast
  qed
  have flight: "flight_ok (requests l) (replies l) (regs s key) n ticket" if f: "flight l = Some (n, ticket)" for n ticket
  proof -
    note F = flight_okD [OF I(7) [OF f]]
    have "lease_ok (requests l) (regs s key) (ack_lease_id a) (ack_revision a)"
      if "ticket_action ticket = DoRegister k" "(n, RegistrationResult (Inr a)) \<in> replies l" for k a
      using lease_ok_change [OF ch sd L(2) [OF that(2)] F(2) [OF that]] .
    moreover have "settled (requests l) (regs s key) lease revision snap"
      if "ticket_action ticket = DoUpdate k lease revision snap" "(n, RegistrationResult (Inr a)) \<in> replies l" for k lease revision snap a
      using settled_change [OF ch L(1) [OF F(1)] F(4) [OF that]] that(1) by simp
    ultimately show ?thesis using F(1,3) unfolding flight_ok_def by blast
  qed
  have net: "network_ok (l\<lparr>table := s, drawn := D\<rparr>) key" using I(2) unfolding network_ok_def by simp
  show ?thesis unfolding link_inv_def
    using s net drawn table_ok_change [OF ch sd I(4)] client I(6) flight by simp
qed

lemma inv_reply:
  assumes inv: "link_inv sha256 key l" and q: "(n, ticket) \<in> requests l"
    and d: "\<And>a. result = RegistrationResult (Inr a) \<Longrightarrow> ack_lease_id a \<in> drawn l"
    and reg: "\<And>k a. ticket_action ticket = DoRegister k \<Longrightarrow> result = RegistrationResult (Inr a) \<Longrightarrow>
      lease_ok (requests l) (regs (table l) key) (ack_lease_id a) (ack_revision a)"
    and upd: "\<And>k lease revision snap a. ticket_action ticket = DoUpdate k lease revision snap \<Longrightarrow> result = RegistrationResult (Inr a) \<Longrightarrow>
      (\<And>revision' snap'. update_sent (requests l) lease revision' snap' \<Longrightarrow> unat revision' \<le> unat revision) \<Longrightarrow>
      settled (requests l) (regs (table l) key) lease revision snap"
  shows "link_inv sha256 key (l\<lparr>replies := insert (n, result) (replies l)\<rparr>)"
proof -
  note I = link_invD [OF inv] and L = leases_drawnD [OF link_invD(3) [OF inv]] and N = network_okD [OF link_invD(2) [OF inv]]
  have flight: "flight_ok (requests l) (insert (n, result) (replies l)) (regs (table l) key) m ticket'"
    if f: "flight l = Some (m, ticket')" for m ticket'
  proof -
    note F = flight_okD [OF I(7) [OF f]]
    have same: "ticket' = ticket" if "m = n" using N(3) [OF q] F(1) that by simp
    have "lease_ok (requests l) (regs (table l) key) (ack_lease_id a) (ack_revision a)"
      if "ticket_action ticket' = DoRegister k" "(m, RegistrationResult (Inr a)) \<in> insert (n, result) (replies l)" for k a
      using F(2) [OF that(1)] reg [of k a] that same by auto
    moreover have "settled (requests l) (regs (table l) key) lease revision snap"
      if a: "ticket_action ticket' = DoUpdate k lease revision snap" "(m, RegistrationResult (Inr a)) \<in> insert (n, result) (replies l)"
      for k lease revision snap a
    proof (cases "(m, RegistrationResult (Inr a)) \<in> replies l")
      case True
      then show ?thesis by (rule F(4) [OF a(1)])
    next
      case False
      then have r: "m = n" "result = RegistrationResult (Inr a)" using a(2) by auto
      show ?thesis using upd [of k lease revision snap a] F(3) [OF a(1)] a(1) same [OF r(1)] r(2) by blast
    qed
    ultimately show ?thesis using F(1,3) unfolding flight_ok_def by blast
  qed
  have drawn: "leases_drawn (l\<lparr>replies := insert (n, result) (replies l)\<rparr>) key"
    unfolding leases_drawn_def using L d by auto
  have net: "network_ok (l\<lparr>replies := insert (n, result) (replies l)\<rparr>) key"
    unfolding network_ok_def using N(1) [OF q] I(2) [unfolded network_ok_def] by auto
  show ?thesis unfolding link_inv_def using I(1,4-6) net drawn flight by simp
qed

lemma servesD:
  assumes "serves Q D R R' D' act reply"
  shows "act = DoUpdate k i v m \<Longrightarrow> reply = Acked a \<Longrightarrow> (\<And>w m'. update_sent Q i w m' \<Longrightarrow> unat w \<le> unat v) \<Longrightarrow> settled Q R' i v m"
  using assms unfolding serves_def by blast

text \<open>Serving a request of the registration, whenever it was sent.\<close>

lemma serve_inv:
  assumes inv: "link_inv sha256 key l" and q: "(n, ticket) \<in> requests l" and fresh: "set draws \<inter> drawn l = {}"
    and step: "shard_step sha256 draws now (request_call gen (ticket_action ticket)) (table l) = Some (reply, s)"
  shows "link_inv sha256 key (l\<lparr>table := s, drawn := drawn l \<union> set draws,
    replies := insert (n, reply_result (ticket_action ticket) reply) (replies l)\<rparr>)"
proof -
  note I = link_invD [OF inv] and L = leases_drawnD [OF link_invD(3) [OF inv]] and N = network_okD [OF link_invD(2) [OF inv]]
  note sd = sent_are_drawn [OF I(3)]
  have acked: "reply = Acked a" if "reply_result (ticket_action ticket) reply = RegistrationResult (Inr a)" for a
    using that by (cases reply) (auto simp: failed_result_def split: if_splits)
  define l1 where "l1 = l\<lparr>table := s, drawn := drawn l \<union> set draws\<rparr>"
  have upd: "snapshot_ok m \<and> update_sent (requests l) i v m" if "ticket_action ticket = DoUpdate k i v m" for k i v m
    using N(4) [OF q that] q that unfolding update_sent_def by blast
  have good: "serves (requests l) (drawn l) (regs (table l) key) (regs s key) (drawn l \<union> set draws) (ticket_action ticket) reply"
    by (rule request_serves [OF I(1) step N(2) [OF q] fresh sd I(4) L(4) L(1) [OF q] upd])
  have sinv: "shard_inv sha256 s" using shard_step_refines [OF I(1) _ step] N(4) [OF q] by (cases "ticket_action ticket") auto
  have l1: "link_inv sha256 key l1" unfolding l1_def by (rule inv_table [OF inv sinv]) (use good in \<open>simp_all add: serves_def\<close>)
  have "link_inv sha256 key (l1\<lparr>replies := insert (n, reply_result (ticket_action ticket) reply) (replies l1)\<rparr>)"
  proof (rule inv_reply [OF l1])
    show "(n, ticket) \<in> requests l1" using q by (simp add: l1_def)
    fix k i v m a
    assume a: "ticket_action ticket = DoUpdate k i v m" "reply_result (ticket_action ticket) reply = RegistrationResult (Inr a)"
      "\<And>revision' snap'. update_sent (requests l1) i revision' snap' \<Longrightarrow> unat revision' \<le> unat v"
    then show "settled (requests l1) (regs (table l1) key) i v m"
      using servesD [OF good a(1) acked [OF a(2)]] by (simp add: l1_def)
  qed (use good acked in \<open>simp_all add: l1_def serves_def\<close>)
  then show ?thesis by (simp add: l1_def)
qed

text \<open>Starting an operation.\<close>

lemma update_sent_insert:
  "update_sent (insert (n, ticket) Q) lease revision snap \<longleftrightarrow>
     update_sent Q lease revision snap \<or> (\<exists>k. ticket_action ticket = DoUpdate k lease revision snap)"
  unfolding update_sent_def by blast

lemma start_inv:
  assumes inv: "link_inv sha256 key l" and idle: "flight l = None" and c: "client l = Some r"
    and b: "begin_next now r = (Inr (Some ticket), r')"
  shows "link_inv sha256 key (l\<lparr>client := Some r', flight := Some (serial l, ticket),
    requests := insert (serial l, ticket) (requests l), serial := serial l + 1\<rparr>)" (is "link_inv sha256 key ?l")
proof -
  note I = link_invD [OF inv] and L = leases_drawnD [OF link_invD(3) [OF inv]] and N = network_okD [OF link_invD(2) [OF inv]]
  obtain p: "lc_pending r = None" and v: "ticket_version ticket = desired_version r"
    and act: "next_action now r = Inr (Some (ticket_action ticket))"
    and r': "r' = r\<lparr>next_attempt_id := next_attempt_id r + 1, lc_pending := Some ticket\<rparr>"
    using b by (rule begin_nextE)
  note A = next_action_cases [OF act] and ok = I(5) [OF c, unfolded client_ok_def]
  let ?Q = "requests l" and ?Q' = "insert (serial l, ticket) (requests l)" and ?R = "regs (table l) key"
  note sent = update_sent_insert [of "serial l" ticket ?Q]
  have new: "lc_snapshot r = Some m \<and> synced_version r \<noteq> Some (desired_version r) \<and>
      (\<exists>h. lc_lease r = Some h \<and> i = held_id h \<and> unat w = rv (held_revision h) + 1 \<and> lease_ok ?Q ?R i (held_revision h))"
    if "ticket_action ticket = DoUpdate k i w m" for k i w m
    using A(3) [OF that] ok by blast
  have table: "table_ok ?Q' ?R"
  proof (rule table_okI)
    fix reg w m assume reg: "?R = Some reg" and u: "update_sent ?Q' (reg_lease_id reg) w m"
    then consider "update_sent ?Q (reg_lease_id reg) w m" | k where "ticket_action ticket = DoUpdate k (reg_lease_id reg) w m"
      unfolding sent by blast
    then show "unat w \<le> rv (reg_revision reg) + 1"
    proof cases
      case 1
      then show ?thesis by (rule table_okD(1) [OF I(4) reg])
    next
      case 2
      then show ?thesis using new [OF 2] lease_okD(2) [OF _ reg refl] by auto
    qed
  qed (use table_okD(2,3) [OF I(4)] sent in blast)+
  have lease: "lease_ok ?Q' ?R (held_id h) (held_revision h)" if h: "lc_lease r = Some h" for h
  proof -
    have "lease_ok ?Q ?R (held_id h) (held_revision h)" using ok h by blast
    note K = lease_okD [OF this]
    have u: "i = held_id h \<and> unat w = rv (held_revision h) + 1" if "ticket_action ticket = DoUpdate k i w m" for k i w m
      using new [OF that] h by auto
    show ?thesis
    proof (rule lease_okI)
      show "unat w \<le> rv (held_revision h) + 1" if "update_sent ?Q' (held_id h) w m" for w m
        using that K(1) u unfolding sent by (metis order_refl)
      show "rv (held_revision h) \<le> rv (reg_revision reg)" if "?R = Some reg" "reg_lease_id reg = held_id h" for reg
        using K(2) [OF that] .
      show "\<not> update_sent ?Q' (reg_lease_id reg) w m" if "?R = Some reg" "reg_lease_id reg \<noteq> held_id h" for reg w m
        using K(3) [OF that] u that(2) unfolding sent by blast
    qed
  qed
  have settled: "settled ?Q' ?R i w m" if "settled ?Q ?R i w m" "synced_version r = Some (desired_version r)" for i w m
    by (rule settledI) (use settledD [OF that(1)] new that(2) sent in blast)+
  have client: "client_ok ?Q' ?R key r'"
    using ok lease settled unfolding client_ok_def r' by simp blast
  have pending: "pending_ok (Some (serial l, ticket)) r'" using v new unfolding pending_ok_def r' by simp
  have none: "(serial l, result) \<notin> replies l" for result using N(5) by blast
  have flight: "flight_ok ?Q' (replies l) ?R (serial l) ticket"
    unfolding flight_ok_def
  proof (intro conjI allI impI)
    fix k i w m w' m' assume t: "ticket_action ticket = DoUpdate k i w m" "update_sent ?Q' i w' m'"
    obtain h where h: "unat w = rv (held_revision h) + 1" "lease_ok ?Q ?R i (held_revision h)" "lc_lease r = Some h"
      using new [OF t(1)] by blast
    from t(2) consider "update_sent ?Q i w' m'" | "w' = w" using t(1) unfolding sent by auto
    then show "unat w' \<le> unat w" using lease_okD(1) [OF h(2)] h(1) by cases simp_all
  qed (use none in simp_all)
  have drawn: "leases_drawn ?l key"
    unfolding leases_drawn_def using L A(2) c r' by (simp, blast)
  have "network_ok ?l key"
    unfolding network_ok_def
  proof (intro conjI allI impI)
    fix n t assume "(n, t) \<in> requests ?l"
    then have t: "n = serial l \<and> t = ticket \<or> n < serial l \<and> (n, t) \<in> requests l" using N(1) [of n t] by auto
    then show "n < serial ?l" by auto
    show "action_key (ticket_action t) = key" using t
    proof
      assume "n = serial l \<and> t = ticket"
      then show ?thesis using A(1) ok by simp
    next
      assume "n < serial l \<and> (n, t) \<in> requests l"
      then show ?thesis using N(2) by blast
    qed
    show "t' = t" if "(n, t') \<in> requests ?l" for t'
    proof -
      have "n = serial l \<and> t' = ticket \<or> n < serial l \<and> (n, t') \<in> requests l" using that N(1) [of n t'] by auto
      then show ?thesis using t N(3) [of n t t'] by auto
    qed
    show "snapshot_ok m" if u: "ticket_action t = DoUpdate k i w m" for k i w m using t
    proof
      assume "n = serial l \<and> t = ticket"
      then show ?thesis using new [of k i w m] u ok by simp
    next
      assume "n < serial l \<and> (n, t) \<in> requests l"
      then show ?thesis using N(4) u by blast
    qed
  next
    show "n < serial ?l" if "(n, result) \<in> replies ?l" for n result using that N(5) [of n result] by simp
  qed
  then show ?thesis unfolding link_inv_def using I(1) drawn table client pending flight by simp
qed

section \<open>Every step keeps the invariant\<close>

lemma client_step_inv:
  assumes inv: "link_inv sha256 key l" and c: "\<And>r. client l = Some r \<Longrightarrow> calmer r (g r)"
  shows "link_inv sha256 key (l\<lparr>client := map_option g (client l)\<rparr>)"
proof -
  note I = link_invD [OF inv] and L = leases_drawnD [OF link_invD(3) [OF inv]]
  have "link_inv sha256 key (l\<lparr>client := map_option g (client l), flight := flight l\<rparr>)"
  proof (rule inv_client [OF inv])
    fix r assume "map_option g (client l) = Some r"
    then obtain r0 where r0: "client l = Some r0" "r = g r0" by (auto simp: map_option_eq_Some)
    show "client_ok (requests l) (regs (table l) key) key r \<and> pending_ok (flight l) r"
      using client_ok_calmer [OF c [OF r0(1)] I(5) [OF r0(1)]] pending_ok_calmer [OF c [OF r0(1)] I(6) [OF r0(1)]] r0(2) by blast
    show "held_id h \<in> drawn l" if "lc_lease r = Some h" for h
      using drawn_calmer [OF c [OF r0(1)] L(3) [OF r0(1)]] that r0(2) by blast
  qed simp
  then show ?thesis by simp
qed

lemma pending_flight:
  assumes "pending_ok (Some (n, ticket)) r"
  shows "lc_pending r = None \<or> lc_pending r = Some ticket"
proof (cases "lc_pending r")
  case (Some t)
  then show ?thesis using pending_okD(1) [OF assms Some] by simp
qed simp

lemma finish_inv:
  assumes inv: "link_inv sha256 key l" and f: "flight l = Some (n, ticket)"
    and res: "(n, result) \<in> replies l \<or> (\<exists>code. result = failed_result (ticket_action ticket) code)"
  shows "link_inv sha256 key (l\<lparr>client := map_option (snd \<circ> complete_operation ticket result now) (client l), flight := None\<rparr>)"
proof (rule inv_client [OF inv])
  note I = link_invD [OF inv] and L = leases_drawnD [OF link_invD(3) [OF inv]]
  fix r assume "map_option (snd \<circ> complete_operation ticket result now) (client l) = Some r"
  then obtain r0 where r0: "client l = Some r0" "r = snd (complete_operation ticket result now r0)" by (auto simp: map_option_eq_Some)
  have p: "pending_ok (Some (n, ticket)) r0" using I(6) [OF r0(1)] f by simp
  have "lc_pending r = None" unfolding r0(2) by (rule complete_taken [OF pending_flight [OF p]])
  then show "client_ok (requests l) (regs (table l) key) key r \<and> pending_ok None r"
    using complete_client_ok [OF I(5) [OF r0(1)] p I(7) [OF f] res] r0(2) by (simp add: pending_ok_def)
  show "held_id h \<in> drawn l" if "lc_lease r = Some h" for h
    using complete_drawn [OF L(3) [OF r0(1)] L(2) res, where now = now and h' = h] that r0(2) by simp
qed simp

lemma discard_inv:
  assumes inv: "link_inv sha256 key l" and f: "flight l = Some (n, ticket)"
  shows "link_inv sha256 key (l\<lparr>client := map_option (transient_failure ticket now) (client l), flight := None\<rparr>)"
proof (rule inv_client [OF inv])
  note I = link_invD [OF inv] and L = leases_drawnD [OF link_invD(3) [OF inv]]
  fix r assume "map_option (transient_failure ticket now) (client l) = Some r"
  then obtain r0 where r0: "client l = Some r0" "r = transient_failure ticket now r0" by (auto simp: map_option_eq_Some)
  have c: "calmer r0 r" using r0(2) by (simp add: calming)
  have p: "pending_ok (Some (n, ticket)) r0" using I(6) [OF r0(1)] f by simp
  have "lc_pending r = None" unfolding r0(2) by (rule transient_taken [OF pending_flight [OF p]])
  then show "client_ok (requests l) (regs (table l) key) key r \<and> pending_ok None r"
    using client_ok_calmer [OF c I(5) [OF r0(1)]] by (simp add: pending_ok_def)
  show "held_id h \<in> drawn l" if "lc_lease r = Some h" for h using drawn_calmer [OF c L(3) [OF r0(1)] that] .
qed simp

lemma link_publish_inv:
  assumes inv: "link_inv sha256 key l" and snap: "case snap of None \<Rightarrow> True | Some m \<Rightarrow> snapshot_ok m"
  shows "link_inv sha256 key (l\<lparr>client := publish_client key version snap now initial maximum (client l)\<rparr>)"
proof -
  note I = link_invD [OF inv] and L = leases_drawnD [OF link_invD(3) [OF inv]]
  have "link_inv sha256 key (l\<lparr>client := publish_client key version snap now initial maximum (client l), flight := flight l\<rparr>)"
  proof (rule inv_client [OF inv])
    fix r assume r: "publish_client key version snap now initial maximum (client l) = Some r"
    have "(\<exists>r0. client l = Some r0 \<and> r = lifecycle_publish version snap now r0) \<or>
        (\<exists>m. snap = Some m \<and> r = lifecycle_new key version (Some m) now initial maximum)"
      using r by (cases "(key, version, snap, now, initial, maximum, client l)" rule: publish_client.cases) auto
    then have "client_ok (requests l) (regs (table l) key) key r \<and> pending_ok (flight l) r \<and>
        (\<forall>h. lc_lease r = Some h \<longrightarrow> held_id h \<in> drawn l)"
    proof (elim disjE exE conjE)
      fix r0 assume c: "client l = Some r0" "r = lifecycle_publish version snap now r0"
      have "client_ok (requests l) (regs (table l) key) key r"
        unfolding c(2) by (rule publish_client_ok [OF I(5) [OF c(1)]]) (use snap in simp)
      moreover have "held_id h \<in> drawn l" if "lc_lease r = Some h" for h
        using L(3) [OF c(1) publish_lease] that c(2) by blast
      ultimately show ?thesis using publish_pending_ok [OF I(6) [OF c(1)]] c(2) by blast
    next
      fix m assume "snap = Some m" "r = lifecycle_new key version (Some m) now initial maximum"
      then show ?thesis using new_client_ok snap by simp
    qed
    then show "client_ok (requests l) (regs (table l) key) key r \<and> pending_ok (flight l) r"
      "\<And>h. lc_lease r = Some h \<Longrightarrow> held_id h \<in> drawn l" by blast+
  qed simp
  then show ?thesis by simp
qed

lemma link_step_inv:
  assumes inv: "link_inv sha256 key l" and step: "link_step sha256 key gen l e l'"
  shows "link_inv sha256 key l'"
  using step
proof cases
  case (publish snap version now initial maximum)
  then show ?thesis using link_publish_inv [OF inv] by simp
next
  case (prune r)
  then show ?thesis using inv_client [OF inv, of "flight l" None] by simp
next
  case (start r now ticket r')
  then show ?thesis using start_inv [OF inv] by simp
next
  case (serve n ticket draws now reply s)
  then show ?thesis using serve_inv [OF inv] by simp
next
  case (complete n ticket result now)
  then show ?thesis using finish_inv [OF inv complete(3,4)] by simp
next
  case (discard n ticket now)
  then show ?thesis using discard_inv [OF inv] by simp
next
  case (lost now)
  then show ?thesis using client_step_inv [OF inv] calmer_connection_lost by simp
next
  case give_up
  then show ?thesis using client_step_inv [OF inv] calmer_mark_terminal by simp
next
  case (other c draws now reply s)
  note I = link_invD [OF inv] and L = leases_drawnD [OF link_invD(3) [OF inv]]
  have r: "refines sha256 now (table l) c reply s" using shard_step_refines [OF I(1) _ other(5)] other(3) by simp
  then have spec: "route_spec (config_of sha256 (table l)) now (regs (table l)) c reply (regs s)" by blast
  have ow: "case call_owner c of None \<Rightarrow> True | Some (ctx, _, key') \<Rightarrow> key' \<noteq> key \<or> ctx \<noteq> key_gateway_id key" using other(3) by simp
  have "reg_lease_id reg \<in> drawn l" if "regs s key = Some reg" for reg
    using spec_other [OF spec ow] that L(4) live_cases [of now "regs (table l)" key] by auto
  then show ?thesis using inv_table [OF inv _ _ spec_other_change [OF spec ow], of "drawn l \<union> set draws"] r other(2) by auto
next
  case (restart s)
  have "regs s key = None" using shard_init_inv [OF restart(3)] by simp
  then have "link_inv sha256 key (l\<lparr>table := s, drawn := drawn l\<rparr>)"
    using shard_init_inv [OF restart(3)] by (intro inv_table [OF inv]) (auto intro: table_change_shrink)
  then show ?thesis using restart(2) by simp
qed

lemma link_init_inv: "link_init sha256 l \<Longrightarrow> link_inv sha256 key l"
  using shard_init_inv [of sha256 "table l"]
  by (auto simp: link_init_def link_inv_def network_ok_def leases_drawn_def table_ok_def)

interpretation registration_link:
  inductive_invariant "link_init sha256" "link_step sha256 key gen" "link_inv sha256 key" for sha256 key gen
  by unfold_locales (blast intro: link_init_inv link_step_inv)+

abbreviation link_reach :: "(bytes \<Rightarrow> bytes) \<Rightarrow> registration_key \<Rightarrow> generation \<Rightarrow> link \<Rightarrow> bool" where
  "link_reach sha256 key gen \<equiv> reach (link_init sha256) (link_step sha256 key gen)"

section \<open>Synced means published\<close>

lemma resolved_from:
  assumes inv: "shard_inv sha256 s" and r: "resolve sha256 gen d now s = (Inr bs, s')" and b: "b \<in> set bs"
  obtains k reg where "regs s k = Some reg" "(projection_identity b, b) \<in> set (reg_bindings reg)"
    "key_gateway_id k = identity_gateway_id (projection_identity b)" "key_session_id k = identity_session_id (projection_identity b)"
    "key_shard_id k = shard_self_id s"
proof -
  have "route_spec (config_of sha256 s) now (regs s) (Resolve gen d) (Resolved bs) (regs s')"
    using resolve_refines [OF inv r] by simp
  then have "b \<in> snd ` route_entries (live now (regs s)) d" using b by (auto elim: resolve_specE)
  then obtain k reg i where k: "regs s k = Some reg" "(i, b) \<in> set (reg_bindings reg)"
    by (auto simp: route_entries_def live_Some)
  then have "registration_ok sha256 s k reg" using shard_invD(3) [OF inv] by blast
  then have "binding_in_scope sha256 s k (i, b)" "key_shard_id k = shard_self_id s" using k(2) by (auto simp: registration_ok_def)
  then show ?thesis using that [OF k(1)] k(2) by (simp add: binding_in_scope_def)
qed

text \<open>
  C5. A synced registration is never stale. Whatever was lost, delayed, repeated or refused on the way, and
  whatever the shard forgot: while a gateway counts a registration as synced, the shard holds for it the
  snapshot the gateway wants, or nothing. So a resolution at the shard answers, for that session, only with
  bindings the session has published and not withdrawn.
\<close>
theorem synced_never_stale:
  assumes "link_reach sha256 key gen l" and "client l = Some r" and "is_synced r" and "key_shard_id key = shard_self_id (table l)"
  shows "\<exists>snap. lc_snapshot r = Some snap \<and>
    (\<forall>reg. regs (table l) key = Some reg \<longrightarrow> reg_bindings reg = snap \<or> reg_bindings reg = []) \<and>
    (\<forall>gen' d now bs s b. resolve sha256 gen' d now (table l) = (Inr bs, s) \<longrightarrow> b \<in> set bs \<longrightarrow>
       identity_gateway_id (projection_identity b) = key_gateway_id key \<longrightarrow>
       identity_session_id (projection_identity b) = key_session_id key \<longrightarrow> (projection_identity b, b) \<in> set snap)"
proof -
  note I = link_invD [OF registration_link.reach_inv [OF assms(1)]]
  have "synced_version r = Some (desired_version r)"
    using assms(3) by (auto simp: is_synced_def lifecycle_phase_def split: if_splits option.splits)
  then obtain held revision snap where h: "lc_lease r = Some held" "held_revision held = Some revision" "lc_snapshot r = Some snap"
      "settled (requests l) (regs (table l) key) (held_id held) revision snap"
    using I(5) [OF assms(2)] unfolding client_ok_def by blast
  have lease: "lease_ok (requests l) (regs (table l) key) (held_id held) (held_revision held)"
    using I(5) [OF assms(2)] h(1) unfolding client_ok_def by blast
  have holds: "reg_bindings reg = snap \<or> reg_bindings reg = []" if reg: "regs (table l) key = Some reg" for reg
  proof (cases "reg_lease_id reg = held_id held")
    case True
    then show ?thesis using settledD(2) [OF h(4) reg] by simp
  next
    case False
    then show ?thesis using table_okD(2,3) [OF I(4) reg] lease_okD(3) [OF lease reg] by (cases "reg_revision reg") auto
  qed
  have "(projection_identity b, b) \<in> set snap"
    if r: "resolve sha256 gen' d now (table l) = (Inr bs, s)" "b \<in> set bs"
      and k: "identity_gateway_id (projection_identity b) = key_gateway_id key" "identity_session_id (projection_identity b) = key_session_id key"
    for gen' d now bs s b
  proof -
    obtain k reg where "regs (table l) k = Some reg" "(projection_identity b, b) \<in> set (reg_bindings reg)" "k = key"
      using resolved_from [OF I(1) r] k assms(4) by (metis registration_key.expand)
    then show ?thesis using holds [of reg] by auto
  qed
  then show ?thesis using h(3) holds by blast
qed

text \<open>A concrete run: a registration is published, registered and updated.\<close>

definition sample_snapshot :: binding_map where
  "sample_snapshot = [(BindingIdentity 1 2 3,
     binding_projection_new (destination_new (Namespace ''n'') (DestinationName ''a'')) 1 2 3 ''h:1'')]"

definition sample_start_link :: link where
  "sample_start_link = \<lparr>client = None, flight = None, requests = {}, replies = {}, serial = 0, table = sample_shard, drawn = {}\<rparr>"

definition sample_lifecycle :: lifecycle where
  "sample_lifecycle = lifecycle_new sample_key 1 (Some sample_snapshot) 0 5 50"

definition sample_register_ticket :: operation_ticket where
  "sample_register_ticket = \<lparr>attempt_id = 1, ticket_version = 1, ticket_action = DoRegister sample_key\<rparr>"

definition sample_update_ticket :: operation_ticket where
  "sample_update_ticket = \<lparr>attempt_id = 2, ticket_version = 1, ticket_action = DoUpdate sample_key 7 1 sample_snapshot\<rparr>"

definition sample_leased :: lifecycle where
  "sample_leased = snd (complete_operation sample_register_ticket (RegistrationResult (Inr (registration_ack_new 7 None 10))) 0
     (snd (begin_next 0 sample_lifecycle)))"

definition sample_published :: shard where
  "sample_published = snd (the (shard_step sample_sha256 [] 1 (Update 1 ''g'' sample_key 7 1 sample_snapshot) sample_registered))"

definition sample_synced :: lifecycle where
  "sample_synced = snd (complete_operation sample_update_ticket (RegistrationResult (Inr (registration_ack_new 7 (Some 1) 9))) 1
     (snd (begin_next 0 sample_leased)))"

lemma sample_begins:
  "begin_next 0 sample_lifecycle = (Inr (Some sample_register_ticket), snd (begin_next 0 sample_lifecycle))"
  "begin_next 0 sample_leased = (Inr (Some sample_update_ticket), snd (begin_next 0 sample_leased))"
  by code_simp+

lemma sample_is_synced: "is_synced sample_synced" "lc_snapshot sample_synced = Some sample_snapshot"
  by code_simp+

lemma sample_update:
  "shard_step sample_sha256 [] 1 (Update 1 ''g'' sample_key 7 1 sample_snapshot) sample_registered =
     Some (Acked (registration_ack_new 7 (Some 1) 9), sample_published)"
  by code_simp

lemma sample_published_bindings: "map_option reg_bindings (regs sample_published sample_key) = Some sample_snapshot" "shard_self_id sample_published = ''s0''"
  by code_simp+

definition sample_synced_link :: link where
  "sample_synced_link =
     \<lparr>client = Some sample_synced, flight = None,
      requests = {(1, sample_update_ticket), (0, sample_register_ticket)},
      replies = {(1, RegistrationResult (Inr (registration_ack_new 7 (Some 1) 9))), (0, RegistrationResult (Inr (registration_ack_new 7 None 10)))},
      serial = 2, table = sample_published, drawn = {7}\<rparr>"

lemma sample_synced_reach: "link_reach sample_sha256 sample_key ''g'' sample_synced_link"
proof -
  let ?R = "link_reach sample_sha256 sample_key ''g''"
  define l1 where "l1 = sample_start_link\<lparr>client := Some sample_lifecycle\<rparr>"
  define l2 where "l2 = l1\<lparr>client := Some (snd (begin_next 0 sample_lifecycle)), flight := Some (0, sample_register_ticket),
    requests := {(0, sample_register_ticket)}, serial := 1\<rparr>"
  define l3 where "l3 = l2\<lparr>table := sample_registered, drawn := {7}, replies := {(0, RegistrationResult (Inr (registration_ack_new 7 None 10)))}\<rparr>"
  define l4 where "l4 = l3\<lparr>client := Some sample_leased, flight := None\<rparr>"
  define l5 where "l5 = l4\<lparr>client := Some (snd (begin_next 0 sample_leased)), flight := Some (1, sample_update_ticket),
    requests := {(1, sample_update_ticket), (0, sample_register_ticket)}, serial := 2\<rparr>"
  define l6 where "l6 = l5\<lparr>table := sample_published, drawn := {7},
    replies := insert (1, RegistrationResult (Inr (registration_ack_new 7 (Some 1) 9))) (replies l5)\<rparr>"
  have "?R sample_start_link"
    by (rule reach_start) (simp add: link_init_def sample_start_link_def sample_init)
  moreover have "snapshot_ok sample_snapshot" by (simp add: snapshot_ok_def sample_snapshot_def binding_projection_new_def bt_ok_def)
  then have "link_step sample_sha256 sample_key ''g'' sample_start_link (LinkPublish 1 (Some sample_snapshot) 0 5 50) l1"
    using link_step.publish [of "Some sample_snapshot" sample_sha256 sample_key "''g''" sample_start_link 1 0 5 50]
    by (simp add: l1_def sample_start_link_def sample_lifecycle_def)
  ultimately have "?R l1" by (rule reach_step)
  moreover have "link_step sample_sha256 sample_key ''g'' l1 (LinkBegin 0) l2"
    using link_step.start [OF _ _ sample_begins(1), of l1] by (simp add: l1_def l2_def sample_start_link_def)
  ultimately have "?R l2" by (rule reach_step)
  moreover have "link_step sample_sha256 sample_key ''g'' l2 (LinkServe 0 sample_register_ticket 0 [7]) l3"
    using link_step.serve [of 0 sample_register_ticket l2 "[7]" sample_sha256 0 "''g''",
        where reply = "Acked (registration_ack_new 7 None 10)" and key = sample_key] sample_register
    by (simp add: l1_def l2_def l3_def sample_start_link_def sample_register_ticket_def sample_key_def del: shard_step.simps)
  ultimately have "?R l3" by (rule reach_step)
  moreover have "link_step sample_sha256 sample_key ''g'' l3 (LinkComplete (RegistrationResult (Inr (registration_ack_new 7 None 10))) 0) l4"
    using link_step.complete [of l3 0 sample_register_ticket "RegistrationResult (Inr (registration_ack_new 7 None 10))"
        sample_sha256 sample_key "''g''" 0]
    by (simp add: l2_def l3_def l4_def sample_leased_def del: complete_operation.simps)
  ultimately have "?R l4" by (rule reach_step)
  moreover have "link_step sample_sha256 sample_key ''g'' l4 (LinkBegin 0) l5"
    using link_step.start [OF _ _ sample_begins(2), of l4] by (simp add: l2_def l3_def l4_def l5_def numeral_2_eq_2)
  ultimately have "?R l5" by (rule reach_step)
  moreover have "link_step sample_sha256 sample_key ''g'' l5 (LinkServe 1 sample_update_ticket 1 []) l6"
    using link_step.serve [of 1 sample_update_ticket l5 "[]" sample_sha256 1 "''g''",
        where reply = "Acked (registration_ack_new 7 (Some 1) 9)" and key = sample_key] sample_update
    by (simp add: l3_def l4_def l5_def l6_def sample_update_ticket_def sample_key_def del: shard_step.simps)
  ultimately have "?R l6" by (rule reach_step)
  moreover have "link_step sample_sha256 sample_key ''g'' l6 (LinkComplete (RegistrationResult (Inr (registration_ack_new 7 (Some 1) 9))) 1) sample_synced_link"
    using link_step.complete [of l6 1 sample_update_ticket "RegistrationResult (Inr (registration_ack_new 7 (Some 1) 9))"
        sample_sha256 sample_key "''g''" 1]
    by (simp add: l1_def l2_def l3_def l4_def l5_def l6_def sample_start_link_def sample_synced_link_def sample_synced_def
        del: complete_operation.simps)
  ultimately show ?thesis by (rule reach_step)
qed

theorem synced_never_stale_witness:
  "is_synced sample_synced \<and> client sample_synced_link = Some sample_synced \<and>
   map_option reg_bindings (regs (table sample_synced_link) sample_key) \<in> {Some sample_snapshot, Some []}"
proof -
  have c: "client sample_synced_link = Some sample_synced" "key_shard_id sample_key = shard_self_id (table sample_synced_link)"
    using sample_published_bindings(2) by (simp_all add: sample_synced_link_def sample_key_def)
  obtain reg where reg: "regs (table sample_synced_link) sample_key = Some reg"
    using sample_published_bindings(1) by (auto simp: sample_synced_link_def)
  have "reg_bindings reg = sample_snapshot \<or> reg_bindings reg = []"
    using synced_never_stale [OF sample_synced_reach c(1) sample_is_synced(1) c(2)] sample_is_synced(2) reg by auto
  then show ?thesis using reg c(1) sample_is_synced(1) by auto
qed

end
