(* ===== verification/Peer_Codec.thy ===== *)
theory Peer_Codec
  imports Codec_Correct Peer_Identity
begin

text \<open>
  The gateway-to-gateway wire format (\<open>relaygate-gateway-peer/src/frame.rs\<close>, \<open>codec.rs\<close>): the peer frames,
  \<open>PeerFrameCodec::encode\<close> with the length it computes before writing, \<open>PeerFrameCodec::decode\<close> and the
  codec's own \<open>PayloadReader\<close>, and that both directions implement one wire grammar. A codec is its
  \<open>max_frame_len\<close>; \<open>usize\<close> has 64 bits.
\<close>

datatype peer_gateway_name = PeerGatewayName (gateway_name_str: string)

definition peer_gateway_name_new :: "string \<Rightarrow> peer_error + peer_gateway_name" where
  "peer_gateway_name_new s =
     (if s = [] then Inl (PeerInvalidArgument ''peer Gateway name must not be empty'') else Inr (PeerGatewayName s))"

record peer_handshake =
  hs_gateway_name :: peer_gateway_name
  hs_gateway_id :: gateway_id
  hs_expected_peer_gateway_id :: gateway_id
  hs_dialer_gateway_id :: gateway_id
  hs_peer_transport_id :: peer_transport_id

datatype peer_frame =
    PeerFrameHello peer_handshake
  | PeerFrameWelcome peer_handshake
  | PeerFrameHandshakeRejected error_code string
  | PeerFrameOpen stream_id open_identity destination session_id binding_id
  | PeerFrameOpened stream_id
  | PeerFrameFailed stream_id error_code peer_observation string
  | PeerFrameData stream_id bytes
  | PeerFrameFin stream_id
  | PeerFrameClose stream_id
  | PeerFrameReset stream_id error_code string
  | PeerFramePing u64
  | PeerFramePong u64

datatype peer_codec_error =
    PeerIo
  | PeerInvalidMagic
  | PeerUnsupportedVersion nat
  | PeerUnknownFrameKind nat
  | PeerUnknownEnum string nat
  | PeerTruncated string
  | PeerInvalidUtf8 string
  | PeerInvalidField string
  | PeerInvalidUuid string
  | PeerFieldTooLong string nat nat
  | PeerTrailingBytes nat
  | PeerFrameTooLarge nat nat
  | PeerLengthOverflow

definition is_io :: "peer_codec_error \<Rightarrow> bool" where
  "is_io e \<longleftrightarrow> e = PeerIo"

definition PEER_MAGIC :: bytes where "PEER_MAGIC = ''GP''"
definition PEER_VERSION :: nat where "PEER_VERSION = 3"

section \<open>Encoding\<close>

definition peer_checked_add :: "nat \<Rightarrow> nat \<Rightarrow> peer_codec_error + nat" where
  "peer_checked_add a b = (case usize_checked_add a b of None \<Rightarrow> Inl PeerLengthOverflow | Some n \<Rightarrow> Inr n)"

definition string_wire_len :: "string \<Rightarrow> string \<Rightarrow> peer_codec_error + nat" where
  "string_wire_len field value =
     (if length value > MAX_STRING_LEN then Inl (PeerFieldTooLong field (length value) MAX_STRING_LEN)
      else peer_checked_add 2 (length value))"

definition handshake_wire_len :: "peer_handshake \<Rightarrow> peer_codec_error + nat" where
  "handshake_wire_len h =
     and_then (string_wire_len ''gateway_name'' (gateway_name_str (hs_gateway_name h))) (\<lambda>n. peer_checked_add n 64)"

abbreviation with_len :: "nat \<Rightarrow> peer_codec_error + nat \<Rightarrow> peer_codec_error + (nat \<times> nat)" where
  "with_len kind r \<equiv> and_then r (\<lambda>n. Inr (kind, n))"

fun frame_metadata :: "peer_frame \<Rightarrow> peer_codec_error + (nat \<times> nat)" where
  "frame_metadata (PeerFrameHello h) = with_len 1 (handshake_wire_len h)"
| "frame_metadata (PeerFrameWelcome h) = with_len 2 (handshake_wire_len h)"
| "frame_metadata (PeerFrameHandshakeRejected c m) =
     with_len 3 (and_then (string_wire_len ''message'' m) (peer_checked_add 1))"
| "frame_metadata (PeerFrameOpen i oi d s b) = with_len 4 (peer_checked_add 80 (length (canonical_key d)))"
| "frame_metadata (PeerFrameOpened i) = Inr (5, 8)"
| "frame_metadata (PeerFrameFailed i c ob m) =
     with_len 6 (and_then (string_wire_len ''message'' m) (peer_checked_add 10))"
| "frame_metadata (PeerFrameData i bs) = with_len 7 (peer_checked_add 8 (length bs))"
| "frame_metadata (PeerFrameFin i) = Inr (8, 8)"
| "frame_metadata (PeerFrameClose i) = Inr (9, 8)"
| "frame_metadata (PeerFrameReset i c m) =
     with_len 10 (and_then (string_wire_len ''message'' m) (peer_checked_add 9))"
| "frame_metadata (PeerFramePing n) = Inr (11, 8)"
| "frame_metadata (PeerFramePong n) = Inr (12, 8)"

definition validate_payload_len :: "nat \<Rightarrow> nat \<Rightarrow> peer_codec_error + unit" where
  "validate_payload_len max_frame_len n =
     (if n > max_frame_len then Inl (PeerFrameTooLarge n max_frame_len)
      else if n \<ge> 2 ^ 32 then Inl PeerLengthOverflow else Inr ())"

definition peer_put_string :: "string \<Rightarrow> string \<Rightarrow> bytes \<Rightarrow> peer_codec_error + bytes" where
  "peer_put_string field value out =
     (if length value \<ge> 2 ^ 16 then Inl (PeerFieldTooLong field (length value) MAX_STRING_LEN)
      else Inr (out @ be_bytes 2 (length value) @ value))"

definition put_uuid :: "uuid \<Rightarrow> bytes \<Rightarrow> bytes" where
  "put_uuid v out = out @ uuid_bytes v"

definition put_handshake :: "peer_handshake \<Rightarrow> bytes \<Rightarrow> peer_codec_error + bytes" where
  "put_handshake h out =
     and_then (peer_put_string ''gateway_name'' (gateway_name_str (hs_gateway_name h)) out) (\<lambda>out.
       Inr (put_uuid (hs_peer_transport_id h) (put_uuid (hs_dialer_gateway_id h)
         (put_uuid (hs_expected_peer_gateway_id h) (put_uuid (hs_gateway_id h) out)))))"

fun peer_encode_payload :: "peer_frame \<Rightarrow> bytes \<Rightarrow> peer_codec_error + bytes" where
  "peer_encode_payload (PeerFrameHello h) out = put_handshake h out"
| "peer_encode_payload (PeerFrameWelcome h) out = put_handshake h out"
| "peer_encode_payload (PeerFrameHandshakeRejected c m) out =
     peer_put_string ''message'' m (put_u8 (error_code_to_wire c) out)"
| "peer_encode_payload (PeerFrameOpen i oi d s b) out =
     Inr (put_uuid b (put_uuid s
       (put_u64 (open_connection_id oi) (put_uuid (origin_session oi) (put_uuid (entry_gateway oi) (put_u64 i out)))
        @ canonical_key d)))"
| "peer_encode_payload (PeerFrameOpened i) out = Inr (put_u64 i out)"
| "peer_encode_payload (PeerFrameFailed i c ob m) out =
     peer_put_string ''message'' m (put_u8 (observation_to_wire ob) (put_u8 (error_code_to_wire c) (put_u64 i out)))"
| "peer_encode_payload (PeerFrameData i bs) out = Inr (put_u64 i out @ bs)"
| "peer_encode_payload (PeerFrameFin i) out = Inr (put_u64 i out)"
| "peer_encode_payload (PeerFrameClose i) out = Inr (put_u64 i out)"
| "peer_encode_payload (PeerFrameReset i c m) out =
     peer_put_string ''message'' m (put_u8 (error_code_to_wire c) (put_u64 i out))"
| "peer_encode_payload (PeerFramePing n) out = Inr (put_u64 n out)"
| "peer_encode_payload (PeerFramePong n) out = Inr (put_u64 n out)"

definition peer_encode :: "nat \<Rightarrow> peer_frame \<Rightarrow> bytes \<Rightarrow> peer_codec_error + bytes" where
  "peer_encode max_frame_len f out =
     and_then (frame_metadata f) (\<lambda>(kind, payload_len).
     and_then (validate_payload_len max_frame_len payload_len) (\<lambda>_.
     if payload_len \<ge> 2 ^ 32 then Inl PeerLengthOverflow
     else and_then (peer_checked_add HEADER_LEN payload_len) (\<lambda>_.
       peer_encode_payload f
         (put_u8 kind (put_u8 PEER_VERSION (out @ PEER_MAGIC)) @ be_bytes 4 payload_len))))"

section \<open>Decoding\<close>

type_synonym 'a peer_read = "peer_codec_error + ('a \<times> payload_reader)"

definition peer_take :: "nat \<Rightarrow> string \<Rightarrow> payload_reader \<Rightarrow> bytes peer_read" where
  "peer_take len field r =
     and_then (peer_checked_add (position r) len) (\<lambda>stop.
       if stop \<le> length (payload r)
       then Inr (take len (drop (position r) (payload r)), r\<lparr>position := stop\<rparr>)
       else Inl (PeerTruncated field))"

definition peer_u8 :: "string \<Rightarrow> payload_reader \<Rightarrow> nat peer_read" where
  "peer_u8 field r = and_then (peer_take 1 field r) (\<lambda>(bs, r). Inr (be_val bs, r))"

definition peer_u16 :: "string \<Rightarrow> payload_reader \<Rightarrow> nat peer_read" where
  "peer_u16 field r = and_then (peer_take 2 field r) (\<lambda>(bs, r). Inr (be_val bs, r))"

definition peer_u64 :: "string \<Rightarrow> payload_reader \<Rightarrow> u64 peer_read" where
  "peer_u64 field r = and_then (peer_take 8 field r) (\<lambda>(bs, r). Inr (u64_of_bytes bs, r))"

definition peer_string :: "string \<Rightarrow> payload_reader \<Rightarrow> string peer_read" where
  "peer_string field r =
     and_then (peer_u16 field r) (\<lambda>(len, r).
     and_then (peer_take len field r) (\<lambda>(bs, r).
       if utf8_valid bs then Inr (bs, r) else Inl (PeerInvalidUtf8 field)))"

definition peer_non_empty_string :: "string \<Rightarrow> payload_reader \<Rightarrow> string peer_read" where
  "peer_non_empty_string field r =
     and_then (peer_string field r) (\<lambda>(s, r). if s = [] then Inl (PeerInvalidField field) else Inr (s, r))"

definition peer_uuid :: "string \<Rightarrow> payload_reader \<Rightarrow> uuid peer_read" where
  "peer_uuid field r = and_then (peer_take 16 field r) (\<lambda>(bs, r). Inr (uuid_of_bytes bs, r))"

definition peer_error_code :: "payload_reader \<Rightarrow> error_code peer_read" where
  "peer_error_code r =
     and_then (peer_u8 ''error_code'' r) (\<lambda>(v, r).
       case error_code_from_wire v of None \<Rightarrow> Inl (PeerUnknownEnum ''ErrorCode'' v) | Some c \<Rightarrow> Inr (c, r))"

definition read_peer_observation :: "payload_reader \<Rightarrow> peer_observation peer_read" where
  "read_peer_observation r =
     and_then (peer_u8 ''peer_observation'' r) (\<lambda>(v, r).
       case observation_from_wire v of
         None \<Rightarrow> Inl (PeerUnknownEnum ''PeerObservation'' v) | Some c \<Rightarrow> Inr (c, r))"

definition read_handshake :: "payload_reader \<Rightarrow> peer_handshake peer_read" where
  "read_handshake r =
     and_then (peer_non_empty_string ''gateway_name'' r) (\<lambda>(s, r).
     and_then (map_err (\<lambda>_. PeerInvalidField ''gateway_name'') (peer_gateway_name_new s)) (\<lambda>name.
     and_then (peer_uuid ''gateway_id'' r) (\<lambda>(g, r).
     and_then (peer_uuid ''expected_peer_gateway_id'' r) (\<lambda>(e, r).
     and_then (peer_uuid ''dialer_gateway_id'' r) (\<lambda>(d, r).
     and_then (peer_uuid ''peer_transport_id'' r) (\<lambda>(t, r).
       Inr (\<lparr>hs_gateway_name = name, hs_gateway_id = g, hs_expected_peer_gateway_id = e,
             hs_dialer_gateway_id = d, hs_peer_transport_id = t\<rparr>, r)))))))"

definition peer_destination :: "payload_reader \<Rightarrow> destination peer_read" where
  "peer_destination r =
     and_then (peer_string ''namespace'' r) (\<lambda>(s, r).
     and_then (map_err (\<lambda>_. PeerInvalidField ''namespace'') (namespace_new s)) (\<lambda>ns.
     and_then (peer_string ''name'' r) (\<lambda>(s, r).
     and_then (map_err (\<lambda>_. PeerInvalidField ''name'') (destination_name_new s)) (\<lambda>n.
       Inr (destination_new ns n, r)))))"

definition peer_remaining :: "payload_reader \<Rightarrow> bytes \<times> payload_reader" where
  "peer_remaining r = (drop (position r) (payload r), r\<lparr>position := length (payload r)\<rparr>)"

definition peer_finish :: "payload_reader \<Rightarrow> peer_codec_error + unit" where
  "peer_finish r =
     (let trailing = length (payload r) - position r
      in if trailing = 0 then Inr () else Inl (PeerTrailingBytes trailing))"

definition peer_decode_body :: "nat \<Rightarrow> payload_reader \<Rightarrow> peer_frame peer_read" where
  "peer_decode_body kind r =
     (if kind = 1 then and_then (read_handshake r) (\<lambda>(h, r). Inr (PeerFrameHello h, r))
      else if kind = 2 then and_then (read_handshake r) (\<lambda>(h, r). Inr (PeerFrameWelcome h, r))
      else if kind = 3 then
        and_then (peer_error_code r) (\<lambda>(c, r).
        and_then (peer_string ''message'' r) (\<lambda>(m, r). Inr (PeerFrameHandshakeRejected c m, r)))
      else if kind = 4 then
        and_then (peer_u64 ''stream_id'' r) (\<lambda>(i, r).
        and_then (peer_uuid ''entry_gateway_id'' r) (\<lambda>(g, r).
        and_then (peer_uuid ''origin_session_id'' r) (\<lambda>(os, r).
        and_then (peer_u64 ''connection_id'' r) (\<lambda>(c, r).
        and_then (peer_destination r) (\<lambda>(d, r).
        and_then (peer_uuid ''relay_session_id'' r) (\<lambda>(s, r).
        and_then (peer_uuid ''binding_id'' r) (\<lambda>(b, r).
          Inr (PeerFrameOpen i (open_identity_new g os c) d s b, r))))))))
      else if kind = 5 then and_then (peer_u64 ''stream_id'' r) (\<lambda>(i, r). Inr (PeerFrameOpened i, r))
      else if kind = 6 then
        and_then (peer_u64 ''stream_id'' r) (\<lambda>(i, r).
        and_then (peer_error_code r) (\<lambda>(c, r).
        and_then (read_peer_observation r) (\<lambda>(ob, r).
        and_then (peer_string ''message'' r) (\<lambda>(m, r). Inr (PeerFrameFailed i c ob m, r)))))
      else if kind = 7 then
        and_then (peer_u64 ''stream_id'' r) (\<lambda>(i, r).
          case peer_remaining r of (bs, r) \<Rightarrow> Inr (PeerFrameData i bs, r))
      else if kind = 8 then and_then (peer_u64 ''stream_id'' r) (\<lambda>(i, r). Inr (PeerFrameFin i, r))
      else if kind = 9 then and_then (peer_u64 ''stream_id'' r) (\<lambda>(i, r). Inr (PeerFrameClose i, r))
      else if kind = 10 then
        and_then (peer_u64 ''stream_id'' r) (\<lambda>(i, r).
        and_then (peer_error_code r) (\<lambda>(c, r).
        and_then (peer_string ''message'' r) (\<lambda>(m, r). Inr (PeerFrameReset i c m, r))))
      else if kind = 11 then and_then (peer_u64 ''nonce'' r) (\<lambda>(n, r). Inr (PeerFramePing n, r))
      else if kind = 12 then and_then (peer_u64 ''nonce'' r) (\<lambda>(n, r). Inr (PeerFramePong n, r))
      else Inl (PeerUnknownFrameKind kind))"

definition peer_decode_payload :: "nat \<Rightarrow> bytes \<Rightarrow> peer_codec_error + peer_frame" where
  "peer_decode_payload kind bs =
     and_then (peer_decode_body kind (reader_new bs)) (\<lambda>(f, r). and_then (peer_finish r) (\<lambda>_. Inr f))"

text \<open>\<open>peer_decode\<close> returns the outcome and the source buffer afterwards, as \<open>decode\<close> does.\<close>

definition peer_decode :: "nat \<Rightarrow> bytes \<Rightarrow> (peer_codec_error + peer_frame option) \<times> bytes" where
  "peer_decode max_frame_len source =
     (if length source < HEADER_LEN then (Inr None, source)
      else if take 2 source \<noteq> PEER_MAGIC then (Inl PeerInvalidMagic, source)
      else let version = of_char (source ! 2) in
        if version \<noteq> PEER_VERSION then (Inl (PeerUnsupportedVersion version), source)
        else let kind = of_char (source ! 3);
                 payload_len = be_val [source ! 4, source ! 5, source ! 6, source ! 7] in
          (case validate_payload_len max_frame_len payload_len of
             Inl e \<Rightarrow> (Inl e, source)
           | Inr _ \<Rightarrow>
             (case peer_checked_add HEADER_LEN payload_len of
                Inl e \<Rightarrow> (Inl e, source)
              | Inr frame_len \<Rightarrow>
                  if length source < frame_len then (Inr None, source)
                  else let rest = drop HEADER_LEN source in
                    (and_then (peer_decode_payload kind (take payload_len rest)) (\<lambda>f. Inr (Some f)),
                     drop payload_len rest))))"

section \<open>The wire grammar\<close>

fun peer_frame_kind :: "peer_frame \<Rightarrow> nat" where
  "peer_frame_kind (PeerFrameHello _) = 1"
| "peer_frame_kind (PeerFrameWelcome _) = 2"
| "peer_frame_kind (PeerFrameHandshakeRejected _ _) = 3"
| "peer_frame_kind (PeerFrameOpen _ _ _ _ _) = 4"
| "peer_frame_kind (PeerFrameOpened _) = 5"
| "peer_frame_kind (PeerFrameFailed _ _ _ _) = 6"
| "peer_frame_kind (PeerFrameData _ _) = 7"
| "peer_frame_kind (PeerFrameFin _) = 8"
| "peer_frame_kind (PeerFrameClose _) = 9"
| "peer_frame_kind (PeerFrameReset _ _ _) = 10"
| "peer_frame_kind (PeerFramePing _) = 11"
| "peer_frame_kind (PeerFramePong _) = 12"

definition handshake_wire :: "peer_handshake \<Rightarrow> bytes" where
  "handshake_wire h = string_wire (gateway_name_str (hs_gateway_name h)) @ uuid_bytes (hs_gateway_id h) @
     uuid_bytes (hs_expected_peer_gateway_id h) @ uuid_bytes (hs_dialer_gateway_id h) @
     uuid_bytes (hs_peer_transport_id h)"

fun peer_frame_wire :: "peer_frame \<Rightarrow> bytes" where
  "peer_frame_wire (PeerFrameHello h) = handshake_wire h"
| "peer_frame_wire (PeerFrameWelcome h) = handshake_wire h"
| "peer_frame_wire (PeerFrameHandshakeRejected c m) = code_wire c @ string_wire m"
| "peer_frame_wire (PeerFrameOpen i oi d s b) =
     u64_bytes i @ uuid_bytes (entry_gateway oi) @ uuid_bytes (origin_session oi) @
     u64_bytes (open_connection_id oi) @ destination_wire d @ uuid_bytes s @ uuid_bytes b"
| "peer_frame_wire (PeerFrameOpened i) = u64_bytes i"
| "peer_frame_wire (PeerFrameFailed i c ob m) = u64_bytes i @ code_wire c @ observation_wire ob @ string_wire m"
| "peer_frame_wire (PeerFrameData i bs) = u64_bytes i @ bs"
| "peer_frame_wire (PeerFrameFin i) = u64_bytes i"
| "peer_frame_wire (PeerFrameClose i) = u64_bytes i"
| "peer_frame_wire (PeerFrameReset i c m) = u64_bytes i @ code_wire c @ string_wire m"
| "peer_frame_wire (PeerFramePing n) = u64_bytes n"
| "peer_frame_wire (PeerFramePong n) = u64_bytes n"

text \<open>
  What the Rust types of a frame guarantee: strings are UTF-8, a gateway name is not empty, a destination is
  a validated one. The length limit on strings is the encoder's to enforce.
\<close>

definition handshake_ok :: "peer_handshake \<Rightarrow> bool" where
  "handshake_ok h \<longleftrightarrow> gateway_name_str (hs_gateway_name h) \<noteq> [] \<and> utf8_valid (gateway_name_str (hs_gateway_name h))"

fun peer_frame_ok :: "peer_frame \<Rightarrow> bool" where
  "peer_frame_ok (PeerFrameHello h) = handshake_ok h"
| "peer_frame_ok (PeerFrameWelcome h) = handshake_ok h"
| "peer_frame_ok (PeerFrameHandshakeRejected c m) = utf8_valid m"
| "peer_frame_ok (PeerFrameOpen i oi d s b) = destination_ok d"
| "peer_frame_ok (PeerFrameFailed i c ob m) = utf8_valid m"
| "peer_frame_ok (PeerFrameReset i c m) = utf8_valid m"
| "peer_frame_ok _ = True"

fun peer_frame_text :: "peer_frame \<Rightarrow> string" where
  "peer_frame_text (PeerFrameHello h) = gateway_name_str (hs_gateway_name h)"
| "peer_frame_text (PeerFrameWelcome h) = gateway_name_str (hs_gateway_name h)"
| "peer_frame_text (PeerFrameHandshakeRejected c m) = m"
| "peer_frame_text (PeerFrameFailed i c ob m) = m"
| "peer_frame_text (PeerFrameReset i c m) = m"
| "peer_frame_text _ = []"

definition peer_frame_fits :: "nat \<Rightarrow> peer_frame \<Rightarrow> bool" where
  "peer_frame_fits max_frame_len f \<longleftrightarrow> length (peer_frame_text f) < 65536 \<and>
     length (peer_frame_wire f) \<le> max_frame_len \<and> length (peer_frame_wire f) < 2 ^ 32"

definition peer_header :: "nat \<Rightarrow> nat \<Rightarrow> bytes" where
  "peer_header kind len = ''GP'' @ [char_of (3::nat), char_of kind] @ be_bytes 4 len"

definition peer_frame_bytes :: "peer_frame \<Rightarrow> bytes" where
  "peer_frame_bytes f = peer_header (peer_frame_kind f) (length (peer_frame_wire f)) @ peer_frame_wire f"

lemma length_peer_header [simp]: "length (peer_header k n) = 8"
  by (simp add: peer_header_def)

lemma peer_frame_kind_byte: "peer_frame_kind f < 256"
  by (cases f) simp_all

lemma canonical_key_wire: "canonical_key d = destination_wire d"
  by (simp add: canonical_key_def destination_wire_def string_wire_def Let_def)

lemma length_string_wire: "length (string_wire s) = length s + 2"
  by (simp add: string_wire_def)

section \<open>The encoder implements the grammar\<close>

lemma string_wire_len_ok:
  "string_wire_len field s =
     (if length s < 65536 then Inr (length (string_wire s)) else Inl (PeerFieldTooLong field (length s) 65535))"
  by (simp add: string_wire_len_def MAX_STRING_LEN_def peer_checked_add_def usize_checked_add_def length_string_wire)

lemma peer_checked_add_ok: "a + b < 2 ^ 64 \<Longrightarrow> peer_checked_add a b = Inr (a + b)"
  by (simp add: peer_checked_add_def usize_checked_add_def)

lemma peer_checked_add_Inr: "peer_checked_add a b = Inr n \<longleftrightarrow> a + b < 2 ^ 64 \<and> n = a + b"
  by (auto simp: peer_checked_add_def usize_checked_add_def)

lemma frame_metadata_Inr:
  assumes "peer_frame_ok f"
  shows "frame_metadata f = Inr (kind, n) \<longleftrightarrow>
    kind = peer_frame_kind f \<and> n = length (peer_frame_wire f) \<and> length (peer_frame_text f) < 65536 \<and> n < 2 ^ 64"
  using assms
  by (cases f) (auto simp: and_then_Inr handshake_wire_len_def string_wire_len_ok peer_checked_add_Inr
      handshake_wire_def length_string_wire canonical_key_wire split: if_splits)

lemma peer_put_string_ok: "length s < 65536 \<Longrightarrow> peer_put_string field s out = Inr (out @ string_wire s)"
  by (simp add: peer_put_string_def string_wire_def)

lemma peer_encode_payload_ok:
  "length (peer_frame_text f) < 65536 \<Longrightarrow> peer_encode_payload f out = Inr (out @ peer_frame_wire f)"
  by (cases f) (simp_all add: put_simps put_uuid_def peer_put_string_ok put_handshake_def handshake_wire_def canonical_key_wire)

lemma peer_header_bytes:
  "k < 256 \<Longrightarrow> put_u8 k (put_u8 PEER_VERSION (out @ PEER_MAGIC)) @ be_bytes 4 n = out @ peer_header k n"
  by (simp add: put_u8_def PEER_VERSION_def PEER_MAGIC_def peer_header_def)

lemma peer_encode_Inr:
  assumes "peer_frame_ok f"
  shows "peer_encode max_frame_len f out = Inr w \<longleftrightarrow> peer_frame_fits max_frame_len f \<and> w = out @ peer_frame_bytes f"
proof -
  have "peer_checked_add HEADER_LEN n = Inr (8 + n)" if "n < 2 ^ 32" for n
    using that by (simp add: peer_checked_add_ok HEADER_LEN_def)
  then show ?thesis
    by (auto simp: peer_encode_def and_then_Inr frame_metadata_Inr [OF assms] validate_payload_len_def peer_frame_fits_def
        peer_encode_payload_ok peer_header_bytes [OF peer_frame_kind_byte] peer_frame_bytes_def split: if_splits)
qed

section \<open>The decoder implements the grammar\<close>

interpretation peer_source: byte_source peer_take
proof
  show "peer_take n field (reader_at pre (xs @ rest)) = Inr (xs, reader_at (pre @ xs) rest)"
    if "length xs = n" "length pre + length (xs @ rest) < 2 ^ 64" for xs n pre rest field
    using that by (simp add: peer_take_def reader_at_def peer_checked_add_ok)
next
  show "\<exists>rest. bs = xs @ rest \<and> length xs = n \<and> r = reader_at (pre @ xs) rest"
    if "peer_take n field (reader_at pre bs) = Inr (xs, r)" for n field pre bs xs r
    using that by (intro exI [of _ "drop n bs"])
      (auto simp: peer_take_def reader_at_def and_then_Inr peer_checked_add_Inr split: if_splits)
qed

interpretation peer_byte: field_codec "be_bytes 1" "peer_u8 field" "\<lambda>v. v < 256"
  by (rule peer_source.u8_field_codec) (simp add: peer_u8_def)

interpretation peer_len: field_codec "be_bytes 2" "peer_u16 field" "\<lambda>v. v < 65536"
  by (rule peer_source.u16_field_codec) (simp add: peer_u16_def)

interpretation peer_word: field_codec u64_bytes "peer_u64 field" "\<lambda>_. True"
  by (rule peer_source.u64_field_codec) (simp add: peer_u64_def)

interpretation peer_id: field_codec uuid_bytes "peer_uuid field" "\<lambda>_. True"
  by (rule peer_source.uuid_field_codec) (simp add: peer_uuid_def)

interpretation peer_text: field_codec string_wire "peer_string field" "\<lambda>s. utf8_valid s \<and> length s < 65536"
  by (rule peer_source.string_field_codec [OF peer_len.field_codec_axioms]) (simp add: peer_string_def)

interpretation peer_dest: field_codec destination_wire peer_destination destination_ok
  by (rule destination_field_codec [OF peer_text.field_codec_axioms peer_text.field_codec_axioms])
    (simp add: peer_destination_def)

interpretation peer_code: field_codec "\<lambda>c. be_bytes 1 (error_code_to_wire c)" peer_error_code "\<lambda>_. True"
  by (rule enum_field_codec [OF peer_byte.field_codec_axioms error_code_to_wire_less])
    (simp_all add: error_code_from_wire_Some peer_error_code_def)

interpretation peer_obs: field_codec "\<lambda>c. be_bytes 1 (observation_to_wire c)" read_peer_observation "\<lambda>_. True"
  by (rule enum_field_codec [OF peer_byte.field_codec_axioms observation_to_wire_less])
    (simp_all add: observation_from_wire_Some read_peer_observation_def)

lemmas peer_field_reads =
  peer_word.get_put peer_word.get_last peer_id.get_put peer_id.get_last
  peer_text.get_put peer_text.get_last peer_dest.get_put peer_dest.get_last
  peer_code.get_put [folded code_wire_def] peer_code.get_last [folded code_wire_def]
  peer_obs.get_put [folded observation_wire_def] peer_obs.get_last [folded observation_wire_def]

lemmas peer_field_inv =
  peer_word.get_inv peer_id.get_inv peer_text.get_inv peer_dest.get_inv
  peer_code.get_inv [folded code_wire_def] peer_obs.get_inv [folded observation_wire_def]

lemma read_handshake_at:
  "handshake_ok h \<Longrightarrow> length (gateway_name_str (hs_gateway_name h)) < 65536 \<Longrightarrow>
   read_handshake (reader_at [] (handshake_wire h)) = Inr (h, reader_at (handshake_wire h) [])"
  by (simp add: read_handshake_def handshake_wire_def handshake_ok_def peer_non_empty_string_def
      peer_gateway_name_new_def peer_field_reads length_string_wire)

lemma read_handshake_inv:
  "read_handshake (reader_at [] bs) = Inr (h, r) \<Longrightarrow> handshake_ok h \<and> length (gateway_name_str (hs_gateway_name h)) < 65536 \<and>
     (\<exists>rest. bs = handshake_wire h @ rest \<and> r = reader_at (handshake_wire h) rest)"
  by (auto simp: read_handshake_def handshake_wire_def handshake_ok_def peer_non_empty_string_def and_then_Inr
      peer_gateway_name_new_def map_err_Inr dest!: peer_field_inv split: if_splits)

lemma peer_remaining_at: "peer_remaining (reader_at pre bs) = (bs, reader_at (pre @ bs) [])"
  by (simp add: peer_remaining_def reader_at_def)

lemma peer_finish_at: "peer_finish (reader_at pre bs) = Inr () \<longleftrightarrow> bs = []"
  by (simp add: peer_finish_def reader_at_def Let_def)

lemma peer_decode_body_wire:
  assumes "peer_frame_ok f" "length (peer_frame_text f) < 65536" "length (peer_frame_wire f) < 2 ^ 32"
  shows "peer_decode_body (peer_frame_kind f) (reader_at [] (peer_frame_wire f)) = Inr (f, reader_at (peer_frame_wire f) [])"
  using assms
  by (cases f) (simp_all add: peer_decode_body_def peer_field_reads read_handshake_at peer_remaining_at open_identity_new_def)

lemma peer_decode_body_inv:
  assumes "peer_decode_body kind (reader_at [] bs) = Inr (f, r)"
  shows "peer_frame_ok f \<and> length (peer_frame_text f) < 65536 \<and> kind = peer_frame_kind f \<and>
         (\<exists>rest. bs = peer_frame_wire f @ rest \<and> r = reader_at (peer_frame_wire f) rest)"
  using assms
  by (auto simp: peer_decode_body_def and_then_Inr peer_remaining_at open_identity_new_def
      dest!: peer_field_inv read_handshake_inv split: if_splits)

lemma peer_decode_payload_iff:
  assumes "length bs < 2 ^ 32"
  shows "peer_decode_payload kind bs = Inr f \<longleftrightarrow>
    peer_frame_ok f \<and> length (peer_frame_text f) < 65536 \<and> kind = peer_frame_kind f \<and> bs = peer_frame_wire f"
    (is "_ \<longleftrightarrow> ?R")
proof
  assume "peer_decode_payload kind bs = Inr f"
  then obtain r where "peer_decode_body kind (reader_at [] bs) = Inr (f, r)" "peer_finish r = Inr ()"
    by (auto simp: peer_decode_payload_def reader_new_at and_then_Inr)
  then show ?R using peer_decode_body_inv [of kind bs f r] by (auto simp: peer_finish_at)
next
  assume ?R
  then show "peer_decode_payload kind bs = Inr f"
    using assms peer_decode_body_wire [of f]
    by (simp add: peer_decode_payload_def reader_new_at peer_finish_at [THEN iffD2])
qed

lemma peer_decode_after_header:
  assumes "k < 256" "n < 2 ^ 32"
  shows "peer_decode max_frame_len (peer_header k n @ body) =
    (if n > max_frame_len then (Inl (PeerFrameTooLarge n max_frame_len), peer_header k n @ body)
     else if length body < n then (Inr None, peer_header k n @ body)
     else (and_then (peer_decode_payload k (take n body)) (\<lambda>f. Inr (Some f)), drop n body))"
proof -
  let ?src = "peer_header k n @ body" and ?l = "be_bytes 4 n"
  obtain a b c d where l: "?l = [a, b, c, d]" using list_of_4 [of ?l] by simp
  have nth: "?src ! 2 = char_of (3::nat)" "?src ! 3 = char_of k"
    "[?src ! 4, ?src ! 5, ?src ! 6, ?src ! 7] = ?l" "take 2 (peer_header k n) = PEER_MAGIC"
    by (simp_all add: peer_header_def l PEER_MAGIC_def)
  have "be_val ?l = n" using assms be_val_cong [of n 4] by simp
  then show ?thesis using assms
    by (simp add: peer_decode_def nth HEADER_LEN_def PEER_VERSION_def Let_def validate_payload_len_def peer_checked_add_ok)
qed

lemma peer_decode_header:
  assumes got: "peer_decode max_frame_len src = (Inr (Some f), rest)"
  obtains k n body where "src = peer_header k n @ body" "k < 256" "n < 2 ^ 32"
proof -
  have "8 \<le> length src" using got by (auto simp: peer_decode_def HEADER_LEN_def split: if_splits)
  then obtain a b c d e1 e2 e3 e4 body where src: "src = [a, b, c, d, e1, e2, e3, e4] @ body"
    by (rule list_of_8)
  let ?l = "[e1, e2, e3, e4]"
  have l: "be_bytes 4 (be_val ?l) = ?l" "be_val ?l < 2 ^ 32"
    using be_bytes_be_val [of ?l 4] be_val_less [of ?l] by simp_all
  have "[a, b] = PEER_MAGIC" "of_char c = PEER_VERSION"
    using got by (auto simp: peer_decode_def src HEADER_LEN_def Let_def split: if_splits)
  then have "[a, b] = ''GP''" and "char_of (3::nat) = c"
    by (auto simp: PEER_MAGIC_def PEER_VERSION_def) (metis char_of_char)
  then have "src = peer_header (of_char d) (be_val ?l) @ body"
    using l by (simp add: src peer_header_def)
  then show thesis using l(2) by (intro that) auto
qed

lemma peer_decode_Some:
  "peer_decode max_frame_len src = (Inr (Some f), rest) \<longleftrightarrow>
     peer_frame_ok f \<and> peer_frame_fits max_frame_len f \<and> src = peer_frame_bytes f @ rest" (is "?L \<longleftrightarrow> ?R")
proof
  assume got: ?L
  obtain k n body where src: "src = peer_header k n @ body" and k: "k < 256" "n < 2 ^ 32"
    using got by (rule peer_decode_header)
  have n: "n \<le> max_frame_len" "n \<le> length body" "rest = drop n body" "peer_decode_payload k (take n body) = Inr f"
    using got peer_decode_after_header [OF k, of max_frame_len body] unfolding src
    by (auto simp: and_then_Inr split: if_splits)
  then have f: "peer_frame_ok f \<and> length (peer_frame_text f) < 65536 \<and> k = peer_frame_kind f \<and> take n body = peer_frame_wire f"
    using k(2) peer_decode_payload_iff [of "take n body" k f] by simp
  then have "length (peer_frame_wire f) = n" "body = peer_frame_wire f @ rest"
    using n append_take_drop_id [of n body] length_take [of n body] by auto
  then show ?R using f src k n by (simp add: peer_frame_fits_def peer_frame_bytes_def)
next
  assume R: ?R
  then have "peer_decode_payload (peer_frame_kind f) (peer_frame_wire f) = Inr f"
    by (simp add: peer_decode_payload_iff peer_frame_fits_def)
  then show ?L
    using R peer_decode_after_header [OF peer_frame_kind_byte, of "length (peer_frame_wire f)" max_frame_len f "peer_frame_wire f @ rest"]
    by (simp add: peer_frame_bytes_def peer_frame_fits_def)
qed

text \<open>
  C15. The peer wire format is exact in both directions: the decoder yields a frame and leaves a rest if and
  only if the frame is well formed, the encoder accepts it, and the input is exactly the bytes the encoder
  writes followed by that rest. So decoding inverts encoding on any stream of frames, and every accepted
  byte sequence is the canonical one; in particular the length the encoder announces before it has written
  the payload is the payload's length.
\<close>
theorem peer_wire_exact:
  "peer_decode max_frame_len src = (Inr (Some f), rest) \<longleftrightarrow>
     peer_frame_ok f \<and> (\<exists>w. peer_encode max_frame_len f [] = Inr w \<and> src = w @ rest)"
  using peer_encode_Inr [of f max_frame_len "[]"] by (auto simp: peer_decode_Some)

end
