(* ===== verification/Peer_Transport.thy ===== *)
theory Peer_Transport
  imports Peer_Codec Rate_Limit
begin

text \<open>
  One authenticated transport between two gateways (\<open>relaygate-gateway-peer/src/transport/\<close>, \<open>stream.rs\<close>,
  \<open>config.rs\<close>): the relay state of a stream, the transport actor with its per-stream queues, the commands of
  the local gateway, the frames of the remote one, the heartbeat, and the handlers of the actor's loop.

  The bounded channel to the writer task belongs to the asynchronous runtime: what a \<open>try_send\<close> answers is a
  parameter, one answer per call, and the model keeps the frames it accepted, in order. The channel to the
  manager waits for room, so it either takes a notice or is closed. \<open>Instant::now()\<close> is an argument. Two
  shared cells, the set of active OPENs and the stream counter, are fields of the actor; other actors may
  change them between its steps.
\<close>

section \<open>Configuration (\<open>config.rs\<close>)\<close>

record peer_config =
  local_gateway_name :: peer_gateway_name
  manager_queue_capacity :: nat
  event_queue_capacity :: nat
  transport_queue_capacity :: nat
  writer_queue_capacity :: nat
  stream_queue_capacity :: nat
  max_streams_per_transport :: nat
  max_pending_opens :: nat
  max_handshakes :: nat
  peer_max_frame_len :: nat
  connect_timeout :: duration
  handshake_timeout :: duration
  open_response_timeout :: duration
  heartbeat_idle_interval :: duration
  heartbeat_response_timeout :: duration
  idle_retirement_timeout :: duration

definition peer_duration_from_nanos :: "nat \<Rightarrow> duration option" where
  "peer_duration_from_nanos nanos =
     (let seconds = nanos div 1000000000; subsecond_nanos = nanos mod 1000000000
      in if seconds < 2 ^ 64 then Some (seconds * 1000000000 + subsecond_nanos) else None)"

definition jitter_upper_bound :: "duration \<Rightarrow> duration option" where
  "jitter_upper_bound d = (if d * 1100 \<le> U128_MAX then peer_duration_from_nanos (d * 1100 div 1000) else None)"

definition validate_deadline_timeout :: "instant \<Rightarrow> string \<Rightarrow> duration \<Rightarrow> peer_error + unit" where
  "validate_deadline_timeout now name timeout =
     (case instant_checked_add now timeout of None \<Rightarrow> Inl (PeerInvalidArgument name) | Some _ \<Rightarrow> Inr ())"

text \<open>\<open>Semaphore::MAX_PERMITS\<close> of the runtime is an argument.\<close>

definition peer_config_validate :: "nat \<Rightarrow> instant \<Rightarrow> peer_config \<Rightarrow> peer_error + unit" where
  "peer_config_validate max_permits now c =
     (if list_ex (\<lambda>capacity. capacity = 0 \<or> capacity > max_permits)
           [manager_queue_capacity c, event_queue_capacity c, transport_queue_capacity c, writer_queue_capacity c,
            stream_queue_capacity c, max_streams_per_transport c, max_pending_opens c, max_handshakes c,
            peer_max_frame_len c]
      then Inl (PeerInvalidArgument ''peer runtime capacities must be within the Tokio runtime limit'')
      else if connect_timeout c = 0 \<or> handshake_timeout c = 0 \<or> open_response_timeout c = 0 \<or>
              heartbeat_idle_interval c = 0 \<or> heartbeat_response_timeout c = 0 \<or> idle_retirement_timeout c = 0
      then Inl (PeerInvalidArgument ''peer runtime timeouts must be greater than zero'')
      else and_then (validate_deadline_timeout now ''connect_timeout'' (connect_timeout c)) (\<lambda>_.
           and_then (validate_deadline_timeout now ''handshake_timeout'' (handshake_timeout c)) (\<lambda>_.
           and_then (validate_deadline_timeout now ''open_response_timeout'' (open_response_timeout c)) (\<lambda>_.
           and_then (case jitter_upper_bound (heartbeat_idle_interval c) of
                       None \<Rightarrow> Inl (PeerInvalidArgument ''heartbeat_idle_interval'')
                     | Some bound \<Rightarrow> validate_deadline_timeout now ''heartbeat_idle_interval'' bound) (\<lambda>_.
           and_then (validate_deadline_timeout now ''heartbeat_response_timeout'' (heartbeat_response_timeout c)) (\<lambda>_.
             validate_deadline_timeout now ''idle_retirement_timeout'' (idle_retirement_timeout c)))))))"

section \<open>The relay state of a stream (\<open>stream.rs\<close>)\<close>

datatype relay_stream_state = RelayOpening | RelayOpen | RelayClosed

record relay_stream =
  relay_state :: relay_stream_state
  relay_owner :: "open_identity option"
  local_finished :: bool
  remote_finished :: bool

definition owned_opening :: "open_identity \<Rightarrow> relay_stream" where
  "owned_opening oi = \<lparr>relay_state = RelayOpening, relay_owner = Some oi, local_finished = False, remote_finished = False\<rparr>"

definition ensure_open :: "relay_stream \<Rightarrow> peer_error + unit" where
  "ensure_open r =
     (case relay_state r of
        RelayOpen \<Rightarrow> Inr ()
      | RelayOpening \<Rightarrow> Inl (PeerFailedPrecondition ''RelayStream is not open yet'')
      | RelayClosed \<Rightarrow> Inl (PeerFailedPrecondition ''RelayStream is closed''))"

definition relay_opened :: "relay_stream \<Rightarrow> peer_error + relay_stream" where
  "relay_opened r =
     (if relay_state r = RelayOpening then Inr (r\<lparr>relay_state := RelayOpen\<rparr>)
      else Inl (PeerFailedPrecondition ''RelayStream is not opening''))"

fun finished_by :: "stream_endpoint \<Rightarrow> relay_stream \<Rightarrow> bool" where
  "finished_by EndpointDialer r = local_finished r"
| "finished_by EndpointAcceptor r = remote_finished r"

fun mark_finished :: "stream_endpoint \<Rightarrow> relay_stream \<Rightarrow> relay_stream" where
  "mark_finished EndpointDialer r = r\<lparr>local_finished := True\<rparr>"
| "mark_finished EndpointAcceptor r = r\<lparr>remote_finished := True\<rparr>"

text \<open>\<open>stream_fin\<close> returns whether the direction was newly finished, and the stream.\<close>

definition stream_fin :: "stream_endpoint \<Rightarrow> relay_stream \<Rightarrow> peer_error + (bool \<times> relay_stream)" where
  "stream_fin sender r =
     and_then (ensure_open r) (\<lambda>_.
       if finished_by sender r then Inr (False, r)
       else let r1 = mark_finished sender r
            in Inr (True, if local_finished r1 \<and> remote_finished r1 then r1\<lparr>relay_state := RelayClosed\<rparr> else r1))"

definition stream_data :: "stream_endpoint \<Rightarrow> relay_stream \<Rightarrow> peer_error + unit" where
  "stream_data sender r =
     and_then (ensure_open r) (\<lambda>_.
       if finished_by sender r then Inl (PeerProtocol ''DATA is not valid after FIN'') else Inr ())"

abbreviation relay_is_closed :: "relay_stream \<Rightarrow> bool" where
  "relay_is_closed r \<equiv> relay_state r = RelayClosed"

abbreviation relay_is_open :: "relay_stream \<Rightarrow> bool" where
  "relay_is_open r \<equiv> relay_state r = RelayOpen"

section \<open>The transport actor (\<open>transport/mod.rs\<close>, \<open>transport/state.rs\<close>)\<close>

record peer_failure =
  failure_code :: error_code
  failure_observed :: peer_observation
  failure_message :: string

definition not_observed :: "error_code \<Rightarrow> string \<Rightarrow> peer_failure" where
  "not_observed c m = \<lparr>failure_code = c, failure_observed = NotObserved, failure_message = m\<rparr>"

definition maybe_observed :: "error_code \<Rightarrow> string \<Rightarrow> peer_failure" where
  "maybe_observed c m = \<lparr>failure_code = c, failure_observed = MaybeObserved, failure_message = m\<rparr>"

datatype transport_close_reason = LocalClose | RemoteClosed | ProtocolErrorClose | WriterFailed | HeartbeatTimeout | IdleRetired

record transport_closure =
  closure_cancelled :: bool
  closure_failure :: "transport_close_reason option"

definition closure_new :: transport_closure where
  "closure_new = \<lparr>closure_cancelled = False, closure_failure = None\<rparr>"

definition closure_close :: "transport_closure \<Rightarrow> transport_closure" where
  "closure_close c = c\<lparr>closure_cancelled := True\<rparr>"

definition closure_fail :: "transport_close_reason \<Rightarrow> transport_closure \<Rightarrow> transport_closure" where
  "closure_fail reason c =
     c\<lparr>closure_cancelled := True, closure_failure := (case closure_failure c of None \<Rightarrow> Some reason | Some r \<Rightarrow> Some r)\<rparr>"

datatype transport_notice =
    NoticeEvent peer_event
  | NoticeStreamEnded peer_stream_key open_identity
  | NoticeAttemptEnded open_identity
  | NoticeTransportLost gateway_id peer_transport_id transport_close_reason "lost_peer_stream list"

datatype stream_origin = OriginLocal | OriginRemote

record runtime_stream =
  stream_relay :: relay_stream
  queued_frames :: "peer_frame list"
  terminal_queued :: bool
  stream_progress :: peer_open_progress
  stream_origin_of :: stream_origin
  stream_open_deadline :: "instant option"

text \<open>
  The set of active OPEN identities is behind a lock; a lock that a panic has poisoned refuses to reserve.
\<close>

record active_open_set =
  active_members :: "open_identity list"
  active_poisoned :: bool

definition active_reserve :: "open_identity \<Rightarrow> active_open_set \<Rightarrow> (peer_failure + bool) \<times> active_open_set" where
  "active_reserve oi s =
     (if active_poisoned s then (Inl (not_observed Internal ''active peer OPEN set is unavailable''), s)
      else if oi \<in> set (active_members s) then (Inr False, s)
      else (Inr True, s\<lparr>active_members := oi # active_members s\<rparr>))"

definition active_release :: "open_identity \<Rightarrow> active_open_set \<Rightarrow> active_open_set" where
  "active_release oi s =
     (if active_poisoned s then s else s\<lparr>active_members := removeAll oi (active_members s)\<rparr>)"

definition active_contains :: "open_identity \<Rightarrow> active_open_set \<Rightarrow> bool" where
  "active_contains oi s \<longleftrightarrow> \<not> active_poisoned s \<and> oi \<in> set (active_members s)"

text \<open>The writer's channel: its answers, the calls made so far and the frames it accepted.\<close>

record writer_channel =
  writer_answers :: "nat \<Rightarrow> send_result"
  writer_calls :: nat
  writer_sent :: "peer_frame list"

definition try_send :: "peer_frame \<Rightarrow> writer_channel \<Rightarrow> send_result \<times> writer_channel" where
  "try_send f w =
     (let answer = writer_answers w (writer_calls w)
      in (answer, w\<lparr>writer_calls := Suc (writer_calls w),
                    writer_sent := (if answer = Sent then writer_sent w @ [f] else writer_sent w)\<rparr>))"

record transport_actor =
  ta_peer_gateway_id :: gateway_id
  ta_peer_transport_id :: peer_transport_id
  ta_local_endpoint :: stream_endpoint
  ta_remote_endpoint :: stream_endpoint
  ta_allocator :: stream_id_allocator
  ta_remote_guard :: remote_stream_guard
  ta_streams :: "(stream_id, runtime_stream) btreemap"
  ta_ready :: "stream_id list"
  ta_writer :: writer_channel
  ta_notices :: "transport_notice list"
  ta_notices_closed :: bool
  ta_active_opens :: active_open_set
  ta_stream_count :: u64
  ta_closure :: transport_closure
  ta_config :: peer_config

fun opposite_endpoint :: "stream_endpoint \<Rightarrow> stream_endpoint" where
  "opposite_endpoint EndpointDialer = EndpointAcceptor"
| "opposite_endpoint EndpointAcceptor = EndpointDialer"

record established_peer =
  est_remote_gateway_id :: gateway_id
  est_peer_transport_id :: peer_transport_id
  est_local_endpoint :: stream_endpoint

definition transport_actor_new ::
  "established_peer \<Rightarrow> peer_config \<Rightarrow> (nat \<Rightarrow> send_result) \<Rightarrow> active_open_set \<Rightarrow> u64 \<Rightarrow> transport_closure \<Rightarrow> transport_actor" where
  "transport_actor_new est config answers active stream_count closure =
     (let remote = opposite_endpoint (est_local_endpoint est)
      in \<lparr>ta_peer_gateway_id = est_remote_gateway_id est, ta_peer_transport_id = est_peer_transport_id est,
          ta_local_endpoint = est_local_endpoint est, ta_remote_endpoint = remote,
          ta_allocator = allocator_new (est_local_endpoint est), ta_remote_guard = guard_new remote,
          ta_streams = [], ta_ready = [],
          ta_writer = \<lparr>writer_answers = answers, writer_calls = 0, writer_sent = []\<rparr>,
          ta_notices = [], ta_notices_closed = False, ta_active_opens = active,
          ta_stream_count = stream_count, ta_closure = closure, ta_config = config\<rparr>)"

definition fail_transport :: "transport_close_reason \<Rightarrow> transport_actor \<Rightarrow> transport_actor" where
  "fail_transport reason a = a\<lparr>ta_closure := closure_fail reason (ta_closure a)\<rparr>"

definition actor_key :: "transport_actor \<Rightarrow> stream_id \<Rightarrow> peer_stream_key" where
  "actor_key a i = \<lparr>peer_gateway_id = ta_peer_gateway_id a, key_transport_id = ta_peer_transport_id a, key_stream_id = i\<rparr>"

text \<open>\<open>notices.send(..).await\<close>: taken, or refused because the manager is gone.\<close>

definition notify :: "transport_notice \<Rightarrow> transport_actor \<Rightarrow> transport_actor" where
  "notify n a = (if ta_notices_closed a then a else a\<lparr>ta_notices := ta_notices a @ [n]\<rparr>)"

definition emit :: "peer_event \<Rightarrow> transport_actor \<Rightarrow> transport_actor" where
  "emit e a = (if ta_notices_closed a then fail_transport ProtocolErrorClose a else notify (NoticeEvent e) a)"

definition set_stream :: "stream_id \<Rightarrow> runtime_stream \<Rightarrow> transport_actor \<Rightarrow> transport_actor" where
  "set_stream i st a = a\<lparr>ta_streams := AList.update i st (ta_streams a)\<rparr>"

text \<open>
  \<open>enqueue_stream_frame\<close> works on the stream and on the ready set; it returns both. Its callers put the
  stream back.
\<close>

definition enqueue_stream_frame ::
  "runtime_stream \<Rightarrow> stream_id list \<Rightarrow> stream_id \<Rightarrow> nat \<Rightarrow> peer_frame \<Rightarrow> bool \<Rightarrow>
   (peer_failure + unit) \<times> runtime_stream \<times> stream_id list" where
  "enqueue_stream_frame st ready i queue_capacity f terminal =
     (if terminal_queued st then
        (if terminal then (Inr (), st\<lparr>stream_open_deadline := None\<rparr>, ready)
         else (Inl (maybe_observed FailedPrecondition ''peer RelayStream already has a terminal frame queued''), st, ready))
      else if length (queued_frames st) \<ge> queue_capacity then
        (Inl (maybe_observed ResourceExhausted ''peer stream writer queue is full''), st, ready)
      else
        (Inr (),
         st\<lparr>queued_frames := queued_frames st @ [f], terminal_queued := terminal,
            stream_open_deadline := (if terminal then None else stream_open_deadline st)\<rparr>,
         bs_insert i ready))"

definition actor_enqueue :: "stream_id \<Rightarrow> runtime_stream \<Rightarrow> peer_frame \<Rightarrow> bool \<Rightarrow> transport_actor \<Rightarrow>
    (peer_failure + unit) \<times> transport_actor" where
  "actor_enqueue i st f terminal a =
     (case enqueue_stream_frame st (ta_ready a) i (stream_queue_capacity (ta_config a)) f terminal of
        (r, st1, ready1) \<Rightarrow> (r, set_stream i st1 (a\<lparr>ta_ready := ready1\<rparr>)))"

definition failed_not_observed :: "stream_id \<Rightarrow> error_code \<Rightarrow> string \<Rightarrow> peer_frame" where
  "failed_not_observed i c m = PeerFrameFailed i c NotObserved m"

definition finish_stream :: "stream_id \<Rightarrow> transport_actor \<Rightarrow> transport_actor" where
  "finish_stream i a =
     (let a1 = a\<lparr>ta_ready := removeAll i (ta_ready a)\<rparr>
      in case map_of (ta_streams a1) i of
           None \<Rightarrow> a1
         | Some st \<Rightarrow>
             let a2 = a1\<lparr>ta_streams := AList.delete i (ta_streams a1)\<rparr>
             in case relay_owner (stream_relay st) of
                  None \<Rightarrow> fail_transport ProtocolErrorClose a2
                | Some oi \<Rightarrow>
                    notify (NoticeStreamEnded (actor_key a2 i) oi)
                      (a2\<lparr>ta_active_opens := active_release oi (ta_active_opens a2),
                          ta_stream_count := ta_stream_count a2 - 1\<rparr>))"

definition next_open_deadline :: "transport_actor \<Rightarrow> instant option" where
  "next_open_deadline a =
     (case List.map_filter (\<lambda>e. stream_open_deadline (snd e)) (ta_streams a) of
        [] \<Rightarrow> None | d # ds \<Rightarrow> Some (foldl min d ds))"

definition open_expired :: "instant \<Rightarrow> runtime_stream \<Rightarrow> bool" where
  "open_expired now st \<longleftrightarrow> \<not> terminal_queued st \<and>
     (case stream_open_deadline st of None \<Rightarrow> False | Some deadline \<Rightarrow> deadline \<le> now)"

fun expire_opens :: "stream_id list \<Rightarrow> transport_actor \<Rightarrow> transport_actor" where
  "expire_opens [] a = a"
| "expire_opens (i # is) a =
     (case map_of (ta_streams a) i of
        None \<Rightarrow> expire_opens is a
      | Some st \<Rightarrow>
          (case relay_owner (stream_relay st) of
             None \<Rightarrow> fail_transport ProtocolErrorClose a
           | Some oi \<Rightarrow>
               (case actor_enqueue i st (PeerFrameReset i DeadlineExceeded ''peer OPEN response timed out'') True a of
                  (Inl _, a1) \<Rightarrow> fail_transport WriterFailed a1
                | (Inr _, a1) \<Rightarrow>
                    expire_opens is
                      (emit (EventFailed (actor_key a1 i) oi DeadlineExceeded MaybeObserved ''peer OPEN response timed out'')
                        (set_stream i ((the (map_of (ta_streams a1) i))\<lparr>stream_open_deadline := None\<rparr>) a1)))))"

definition expire_open_deadlines :: "instant \<Rightarrow> transport_actor \<Rightarrow> transport_actor" where
  "expire_open_deadlines now a =
     expire_opens (map fst (filter (\<lambda>e. open_expired now (snd e)) (ta_streams a))) a"

section \<open>Flushing the stream queues (\<open>transport/state.rs\<close>)\<close>

text \<open>
  One pass sends at most one frame of every ready stream, in ascending order of the stream identifiers: the
  next stream is the least ready one above the last. It ends by running out of streams, blocked by a full
  writer, or because the writer is gone. \<open>finished\<close> collects streams whose last, terminal frame went out.
\<close>

datatype pass_end = PassComplete | PassBlocked | PassClosed

fun above_bound :: "stream_id option \<Rightarrow> stream_id \<Rightarrow> bool" where
  "above_bound None i = True"
| "above_bound (Some b) i = (b < i)"

definition next_ready :: "stream_id option \<Rightarrow> transport_actor \<Rightarrow> stream_id option" where
  "next_ready lower_bound a = find (above_bound lower_bound) (ta_ready a)"

definition unready :: "stream_id \<Rightarrow> transport_actor \<Rightarrow> transport_actor" where
  "unready i a = a\<lparr>ta_ready := removeAll i (ta_ready a)\<rparr>"

lemma next_ready_shrinks:
  assumes "next_ready lb a = Some i"
  shows "length (filter (above_bound (Some i)) (ta_ready a)) < length (filter (above_bound lb) (ta_ready a))"
    and "length (filter (above_bound (Some i)) (removeAll i (ta_ready a))) < length (filter (above_bound lb) (ta_ready a))"
proof -
  have i: "i \<in> set (ta_ready a)" "above_bound lb i"
    using assms by (auto simp: next_ready_def find_Some_iff)
  have "above_bound lb j" if "above_bound (Some i) j" for j using that i(2) by (cases lb) auto
  then have "filter (above_bound (Some i)) (ta_ready a) =
      filter (above_bound (Some i)) (filter (above_bound lb) (ta_ready a))"
    by (auto intro: filter_cong)
  then show less: "length (filter (above_bound (Some i)) (ta_ready a)) < length (filter (above_bound lb) (ta_ready a))"
    using i length_filter_less [of i "filter (above_bound lb) (ta_ready a)" "above_bound (Some i)"] by auto
  have "filter (above_bound (Some i)) (removeAll i xs) = filter (above_bound (Some i)) xs" for xs
    by (induction xs) auto
  then show "length (filter (above_bound (Some i)) (removeAll i (ta_ready a))) < length (filter (above_bound lb) (ta_ready a))"
    using less by simp
qed

function flush_pass :: "stream_id option \<Rightarrow> bool \<Rightarrow> stream_id list \<Rightarrow> transport_actor \<Rightarrow>
    pass_end \<times> bool \<times> stream_id list \<times> transport_actor" where
  "flush_pass lower_bound moved finished a =
     (case next_ready lower_bound a of
        None \<Rightarrow> (PassComplete, moved, finished, a)
      | Some i \<Rightarrow>
          (case map_of (ta_streams a) i of
             None \<Rightarrow> flush_pass (Some i) moved finished (unready i a)
           | Some st \<Rightarrow>
               (case queued_frames st of
                  [] \<Rightarrow> flush_pass (Some i) moved finished (unready i a)
                | f # fs \<Rightarrow>
                    (case try_send f (ta_writer a) of
                       (Sent, w) \<Rightarrow>
                         if fs = [] then
                           flush_pass (Some i) True (if terminal_queued st then finished @ [i] else finished)
                             (unready i (set_stream i (st\<lparr>queued_frames := fs\<rparr>) (a\<lparr>ta_writer := w\<rparr>)))
                         else flush_pass (Some i) True finished
                                (set_stream i (st\<lparr>queued_frames := fs\<rparr>) (a\<lparr>ta_writer := w\<rparr>))
                     | (QueueFull, w) \<Rightarrow> (PassBlocked, moved, finished, a\<lparr>ta_writer := w\<rparr>)
                     | (QueueClosed, w) \<Rightarrow>
                         (PassClosed, moved, finished,
                          fail_transport WriterFailed
                            ((if fs = [] then unready i else id)
                              (set_stream i (st\<lparr>queued_frames := fs\<rparr>) (a\<lparr>ta_writer := w\<rparr>))))))))"
  by pat_completeness auto
termination
  by (relation "measure (\<lambda>(lb, _, _, a). length (filter (above_bound lb) (ta_ready a)))")
    (auto simp: unready_def set_stream_def next_ready_shrinks)

declare flush_pass.simps [simp del]

definition queued_total :: "(stream_id, runtime_stream) btreemap \<Rightarrow> nat" where
  "queued_total m = sum_list (map (\<lambda>e. length (queued_frames (snd e))) m)"

lemma queued_total_update:
  "map_of m i = Some st \<Longrightarrow>
   queued_total (AList.update i st' m) + length (queued_frames st) = queued_total m + length (queued_frames st')"
  by (induction m) (auto simp: queued_total_def split: if_splits)

lemma queued_total_delete: "queued_total (AList.delete i m) \<le> queued_total m"
  by (induction m) (auto simp: queued_total_def)

lemma flush_pass_total:
  "flush_pass lb moved finished a = (r, moved', finished', a') \<Longrightarrow>
   queued_total (ta_streams a') + (if moved' \<and> \<not> moved then 1 else 0) \<le> queued_total (ta_streams a) \<and> (moved \<longrightarrow> moved')"
proof (induction lb moved finished a arbitrary: r moved' finished' a' rule: flush_pass.induct)
  case (1 lb moved finished a)
  note run = 1(5) [unfolded flush_pass.simps [of lb moved finished a]]
  show ?case
  proof (cases "next_ready lb a")
    case (Some i)
    show ?thesis
    proof (cases "map_of (ta_streams a) i")
      case None
      then show ?thesis using 1(1) [OF Some None] run Some by (auto simp: unready_def)
    next
      case st: (Some st)
      show ?thesis
      proof (cases "queued_frames st")
        case Nil
        then show ?thesis using 1(2) [OF Some st Nil] run Some st by (auto simp: unready_def)
      next
        case (Cons f fs)
        have total: "queued_total (AList.update i (st\<lparr>queued_frames := fs\<rparr>) (ta_streams a)) + 1 = queued_total (ta_streams a)"
          using queued_total_update [OF st, of "st\<lparr>queued_frames := fs\<rparr>"] Cons by simp
        obtain r1 w where w: "try_send f (ta_writer a) = (r1, w)" by fastforce
        show ?thesis
        proof (cases r1)
          case Sent
          then show ?thesis
            using 1(3,4) [OF Some st Cons w [symmetric] Sent] run Some st Cons w total
            by (force simp: unready_def set_stream_def split: if_splits)
        qed (use run Some st Cons w total in \<open>auto simp: fail_transport_def unready_def set_stream_def split: if_splits\<close>)
      qed
    qed
  qed (use run in auto)
qed

lemma finish_stream_total: "queued_total (ta_streams (finish_stream i a)) \<le> queued_total (ta_streams a)"
  using queued_total_delete
  by (auto simp: finish_stream_def Let_def fail_transport_def notify_def split: option.splits)

definition finish_all :: "stream_id list \<Rightarrow> transport_actor \<Rightarrow> transport_actor" where
  "finish_all is a = fold finish_stream is a"

lemma finish_all_total: "queued_total (ta_streams (finish_all is a)) \<le> queued_total (ta_streams a)"
  unfolding finish_all_def
proof (induction "is" arbitrary: a)
  case (Cons i "is")
  then show ?case using finish_stream_total [of i a] order_trans by fastforce
qed simp

lemma flush_progress:
  "(PassComplete, True, finished, a1) = flush_pass None False [] a \<Longrightarrow>
   queued_total (ta_streams (finish_all finished a1)) < queued_total (ta_streams a)"
  using flush_pass_total [of None False "[]" a PassComplete True finished a1] finish_all_total [of finished a1] by simp

function flush_stream_queues :: "transport_actor \<Rightarrow> transport_actor" where
  "flush_stream_queues a =
     (case flush_pass None False [] a of
        (PassClosed, moved, finished, a1) \<Rightarrow> a1
      | (PassBlocked, moved, finished, a1) \<Rightarrow> finish_all finished a1
      | (PassComplete, moved, finished, a1) \<Rightarrow>
          if moved then flush_stream_queues (finish_all finished a1) else finish_all finished a1)"
  by pat_completeness auto
termination
  by (relation "measure (\<lambda>a. queued_total (ta_streams a))") (auto intro: flush_progress)

declare flush_stream_queues.simps [simp del]

section \<open>Commands of the local gateway (\<open>transport/command.rs\<close>)\<close>

record peer_target =
  target_gateway_id :: gateway_id
  target_gateway_locator :: gateway_locator

record peer_open_request =
  request_target :: peer_target
  request_identity :: open_identity
  request_destination :: destination
  request_relay_session :: session_id
  request_binding :: binding_id

datatype stream_command =
    CmdOpened
  | CmdFailed peer_failure
  | CmdData bytes
  | CmdFin
  | CmdClose
  | CmdReset error_code string

datatype transport_command =
    TransportOpen peer_open_request
  | TransportCancel open_identity
  | TransportStream stream_id stream_command

datatype transport_reply =
    OpenReply "peer_failure + peer_stream_key"
  | CommandReply "peer_failure + unit"

definition release_open :: "open_identity \<Rightarrow> transport_actor \<Rightarrow> transport_actor" where
  "release_open oi a = a\<lparr>ta_active_opens := active_release oi (ta_active_opens a)\<rparr>"

definition commit_open :: "peer_frame \<Rightarrow> transport_actor \<Rightarrow> (peer_failure + unit) \<times> transport_actor" where
  "commit_open f a =
     (case try_send f (ta_writer a) of
        (Sent, w) \<Rightarrow> (Inr (), a\<lparr>ta_writer := w\<rparr>)
      | (QueueFull, w) \<Rightarrow>
          (Inl (not_observed ResourceExhausted ''peer aggregate writer queue is full before OPEN commit''), a\<lparr>ta_writer := w\<rparr>)
      | (QueueClosed, w) \<Rightarrow>
          (Inl (not_observed Unavailable ''peer transport closed before OPEN commit''), a\<lparr>ta_writer := w\<rparr>))"

definition new_stream :: "open_identity \<Rightarrow> stream_origin \<Rightarrow> instant option \<Rightarrow> runtime_stream" where
  "new_stream oi org deadline =
     \<lparr>stream_relay = owned_opening oi, queued_frames = [], terminal_queued = False,
      stream_progress = AfterOpenCommit, stream_origin_of = org, stream_open_deadline = deadline\<rparr>"

definition insert_stream :: "stream_id \<Rightarrow> runtime_stream \<Rightarrow> transport_actor \<Rightarrow> transport_actor" where
  "insert_stream i st a = a\<lparr>ta_streams := bt_insert i st (ta_streams a), ta_stream_count := ta_stream_count a + 1\<rparr>"

definition peer_open :: "instant \<Rightarrow> peer_open_request \<Rightarrow> transport_actor \<Rightarrow> (peer_failure + peer_stream_key) \<times> transport_actor" where
  "peer_open now req a =
     (if length (ta_streams a) \<ge> max_streams_per_transport (ta_config a) then
        (Inl (not_observed ResourceExhausted ''peer transport stream limit is reached''), release_open (request_identity req) a)
      else case allocate (ta_allocator a) of
        (Inl _, al) \<Rightarrow>
          (Inl (not_observed ResourceExhausted ''peer StreamId counter is exhausted''),
           release_open (request_identity req) (a\<lparr>ta_allocator := al\<rparr>))
      | (Inr i, al) \<Rightarrow>
          (case commit_open (PeerFrameOpen i (request_identity req) (request_destination req)
                  (request_relay_session req) (request_binding req)) (a\<lparr>ta_allocator := al\<rparr>) of
             (Inl failure, a1) \<Rightarrow> (Inl failure, release_open (request_identity req) a1)
           | (Inr _, a1) \<Rightarrow>
               (Inr (actor_key a1 i),
                insert_stream i (new_stream (request_identity req) OriginLocal
                  (instant_checked_add now (open_response_timeout (ta_config a1)))) a1)))"

definition send_reset :: "stream_id \<Rightarrow> error_code \<Rightarrow> string \<Rightarrow> transport_actor \<Rightarrow> (peer_failure + unit) \<times> transport_actor" where
  "send_reset i c m a =
     (case map_of (ta_streams a) i of
        None \<Rightarrow> (Inr (), a)
      | Some st \<Rightarrow>
          if terminal_queued st then (Inr (), a)
          else (case actor_enqueue i st (PeerFrameReset i c m) True a of
                  (Inl e, a1) \<Rightarrow> (Inl e, fail_transport WriterFailed a1)
                | (Inr _, a1) \<Rightarrow> (Inr (), a1)))"

definition cancel_stream :: "open_identity \<Rightarrow> transport_actor \<Rightarrow> (peer_failure + unit) \<times> transport_actor" where
  "cancel_stream oi a =
     (case find (\<lambda>e. relay_owner (stream_relay (snd e)) = Some oi) (ta_streams a) of
        None \<Rightarrow> (Inr (), a)
      | Some (i, _) \<Rightarrow> send_reset i Cancelled ''peer OPEN was cancelled'' a)"

definition send_opened :: "stream_id \<Rightarrow> transport_actor \<Rightarrow> (peer_failure + unit) \<times> transport_actor" where
  "send_opened i a =
     (case map_of (ta_streams a) i of
        None \<Rightarrow> (Inr (), a)
      | Some st \<Rightarrow>
          if terminal_queued st then (Inr (), a)
          else if stream_origin_of st \<noteq> OriginRemote then
            (Inl (maybe_observed FailedPrecondition ''OPENED can only answer a peer-originated OPEN''), a)
          else if stream_progress st = ProgressOpened then (Inr (), a)
          else (case relay_opened (stream_relay st) of
                  Inl _ \<Rightarrow> (Inl (maybe_observed FailedPrecondition ''peer RelayStream is not opening''), a)
                | Inr relay \<Rightarrow>
                    (case actor_enqueue i st (PeerFrameOpened i) False a of
                       (Inl e, a1) \<Rightarrow> (Inl e, a1)
                     | (Inr _, a1) \<Rightarrow>
                         (Inr (), set_stream i
                            ((the (map_of (ta_streams a1) i))\<lparr>stream_relay := relay, stream_progress := ProgressOpened\<rparr>) a1))))"

definition send_failed :: "stream_id \<Rightarrow> peer_failure \<Rightarrow> transport_actor \<Rightarrow> (peer_failure + unit) \<times> transport_actor" where
  "send_failed i failure a =
     (case map_of (ta_streams a) i of
        None \<Rightarrow> (Inr (), a)
      | Some st \<Rightarrow>
          if terminal_queued st then (Inr (), a)
          else if stream_origin_of st \<noteq> OriginRemote \<or> stream_progress st = ProgressOpened then
            (Inl (maybe_observed FailedPrecondition ''FAILED can only answer an opening peer-originated OPEN''), a)
          else (case actor_enqueue i st
                  (PeerFrameFailed i (failure_code failure) (failure_observed failure) (failure_message failure)) True a of
                  (Inl e, a1) \<Rightarrow> (Inl e, fail_transport WriterFailed a1)
                | (Inr _, a1) \<Rightarrow> (Inr (), a1)))"

definition send_data :: "stream_id \<Rightarrow> bytes \<Rightarrow> transport_actor \<Rightarrow> (peer_failure + unit) \<times> transport_actor" where
  "send_data i bs a =
     (case map_of (ta_streams a) i of
        None \<Rightarrow> (Inr (), a)
      | Some st \<Rightarrow>
          (case stream_data (ta_local_endpoint a) (stream_relay st) of
             Inl _ \<Rightarrow> (Inl (maybe_observed FailedPrecondition ''peer RelayStream does not accept DATA in this direction''), a)
           | Inr _ \<Rightarrow> actor_enqueue i st (PeerFrameData i bs) False a))"

definition send_fin :: "stream_id \<Rightarrow> transport_actor \<Rightarrow> (peer_failure + unit) \<times> transport_actor" where
  "send_fin i a =
     (case map_of (ta_streams a) i of
        None \<Rightarrow> (Inr (), a)
      | Some st \<Rightarrow>
          if terminal_queued st then (Inr (), a)
          else (case stream_fin (ta_local_endpoint a) (stream_relay st) of
                  Inl _ \<Rightarrow> (Inl (maybe_observed FailedPrecondition ''peer RelayStream does not accept FIN in this direction''), a)
                | Inr (newly_finished, relay) \<Rightarrow>
                    if \<not> newly_finished then (Inr (), a)
                    else (case actor_enqueue i st (PeerFrameFin i) (relay_is_closed relay) a of
                            (Inl e, a1) \<Rightarrow> (Inl e, a1)
                          | (Inr _, a1) \<Rightarrow>
                              (Inr (), set_stream i ((the (map_of (ta_streams a1) i))\<lparr>stream_relay := relay\<rparr>) a1))))"

definition send_close :: "stream_id \<Rightarrow> transport_actor \<Rightarrow> (peer_failure + unit) \<times> transport_actor" where
  "send_close i a =
     (case map_of (ta_streams a) i of
        None \<Rightarrow> (Inr (), a)
      | Some st \<Rightarrow>
          if terminal_queued st then (Inr (), a)
          else if \<not> relay_is_open (stream_relay st) then
            send_reset i ProtocolError ''CLOSE is invalid before OPENED'' a
          else (case actor_enqueue i st (PeerFrameClose i) True a of
                  (Inl e, a1) \<Rightarrow> (Inl e, fail_transport WriterFailed a1)
                | (Inr _, a1) \<Rightarrow> (Inr (), a1)))"

fun stream_call :: "stream_id \<Rightarrow> stream_command \<Rightarrow> transport_actor \<Rightarrow> (peer_failure + unit) \<times> transport_actor" where
  "stream_call i CmdOpened a = send_opened i a"
| "stream_call i (CmdFailed failure) a = send_failed i failure a"
| "stream_call i (CmdData bs) a = send_data i bs a"
| "stream_call i CmdFin a = send_fin i a"
| "stream_call i CmdClose a = send_close i a"
| "stream_call i (CmdReset c m) a = send_reset i c m a"

fun actor_command :: "instant \<Rightarrow> transport_command \<Rightarrow> transport_actor \<Rightarrow> transport_reply \<times> transport_actor" where
  "actor_command now (TransportOpen req) a =
     (case peer_open now req a of
        (Inl e, a1) \<Rightarrow> (OpenReply (Inl e), notify (NoticeAttemptEnded (request_identity req)) a1)
      | (Inr key, a1) \<Rightarrow> (OpenReply (Inr key), a1))"
| "actor_command now (TransportCancel oi) a = (case cancel_stream oi a of (r, a1) \<Rightarrow> (CommandReply r, a1))"
| "actor_command now (TransportStream i c) a = (case stream_call i c a of (r, a1) \<Rightarrow> (CommandReply r, a1))"

section \<open>Frames of the remote gateway (\<open>transport/inbound.rs\<close>)\<close>

definition emit_terminal_reset :: "stream_id \<Rightarrow> error_code \<Rightarrow> string \<Rightarrow> transport_actor \<Rightarrow> transport_actor" where
  "emit_terminal_reset i c m a =
     (case map_of (ta_streams a) i of
        None \<Rightarrow> a
      | Some st \<Rightarrow>
          if stream_origin_of st = OriginLocal \<and> stream_progress st \<noteq> ProgressOpened then
            (case relay_owner (stream_relay st) of
               None \<Rightarrow> fail_transport ProtocolErrorClose a
             | Some oi \<Rightarrow> emit (EventFailed (actor_key a i) oi c MaybeObserved m) a)
          else emit (EventReset (actor_key a i) c m) a)"

definition stream_protocol_reset :: "stream_id \<Rightarrow> string \<Rightarrow> transport_actor \<Rightarrow> transport_actor" where
  "stream_protocol_reset i m a =
     (case send_reset i ProtocolError m a of
        (Inl _, a1) \<Rightarrow> a1
      | (Inr _, a1) \<Rightarrow> emit_terminal_reset i ProtocolError m a1)"

definition reject_remote_open :: "stream_id \<Rightarrow> error_code \<Rightarrow> string \<Rightarrow> transport_actor \<Rightarrow> transport_actor" where
  "reject_remote_open i c m a =
     (case try_send (failed_not_observed i c m) (ta_writer a) of
        (Sent, w) \<Rightarrow> a\<lparr>ta_writer := w\<rparr>
      | (_, w) \<Rightarrow> fail_transport WriterFailed (a\<lparr>ta_writer := w\<rparr>))"

definition receive_open ::
  "stream_id \<Rightarrow> open_identity \<Rightarrow> destination \<Rightarrow> session_id \<Rightarrow> binding_id \<Rightarrow> transport_actor \<Rightarrow> transport_actor" where
  "receive_open i oi d relay_session b a =
     (case accept_open i (ta_remote_guard a) of
        (Inl _, g) \<Rightarrow>
          reject_remote_open i ProtocolError ''remote StreamId is invalid or not strictly increasing'' (a\<lparr>ta_remote_guard := g\<rparr>)
      | (Inr _, g) \<Rightarrow>
          let a1 = a\<lparr>ta_remote_guard := g\<rparr>
          in if entry_gateway oi \<noteq> ta_peer_gateway_id a1 then
               reject_remote_open i PermissionDenied
                 ''peer OPEN entry Gateway identity does not match the authenticated transport'' a1
             else if length (ta_streams a1) \<ge> max_streams_per_transport (ta_config a1) then
               reject_remote_open i ResourceExhausted ''peer transport stream limit is reached'' a1
             else (case active_reserve oi (ta_active_opens a1) of
                 (Inr True, active) \<Rightarrow>
                   let a2 = insert_stream i (new_stream oi OriginRemote None) (a1\<lparr>ta_active_opens := active\<rparr>)
                   in emit (EventIncomingOpen (actor_key a2 i) oi d relay_session b) a2
               | (Inr False, active) \<Rightarrow>
                   reject_remote_open i AlreadyExists ''peer OPEN identity is already active'' (a1\<lparr>ta_active_opens := active\<rparr>)
               | (Inl _, active) \<Rightarrow> fail_transport ProtocolErrorClose (a1\<lparr>ta_active_opens := active\<rparr>)))"

definition receive_opened :: "stream_id \<Rightarrow> transport_actor \<Rightarrow> transport_actor" where
  "receive_opened i a =
     (case map_of (ta_streams a) i of
        None \<Rightarrow> a
      | Some st \<Rightarrow>
          if terminal_queued st then a
          else if stream_origin_of st \<noteq> OriginLocal then
            stream_protocol_reset i ''OPENED is invalid for a peer-originated stream'' a
          else if stream_progress st = ProgressOpened then a
          else (case relay_opened (stream_relay st) of
                  Inl _ \<Rightarrow> stream_protocol_reset i ''OPENED is invalid in the current stream phase'' a
                | Inr relay \<Rightarrow>
                    let a1 = set_stream i (st\<lparr>stream_relay := relay, stream_progress := ProgressOpened, stream_open_deadline := None\<rparr>) a
                    in case relay_owner relay of
                         None \<Rightarrow> fail_transport ProtocolErrorClose a1
                       | Some oi \<Rightarrow> emit (EventOpened (actor_key a1 i) oi) a1))"

definition receive_failed :: "stream_id \<Rightarrow> error_code \<Rightarrow> peer_observation \<Rightarrow> string \<Rightarrow> transport_actor \<Rightarrow> transport_actor" where
  "receive_failed i c ob m a =
     (case map_of (ta_streams a) i of
        None \<Rightarrow> a
      | Some st \<Rightarrow>
          if terminal_queued st then a
          else if stream_origin_of st \<noteq> OriginLocal \<or> stream_progress st = ProgressOpened then
            stream_protocol_reset i ''FAILED is invalid in the current stream phase'' a
          else (case relay_owner (stream_relay st) of
                  None \<Rightarrow> fail_transport ProtocolErrorClose a
                | Some oi \<Rightarrow> finish_stream i (emit (EventFailed (actor_key a i) oi c ob m) a)))"

definition receive_data :: "stream_id \<Rightarrow> bytes \<Rightarrow> transport_actor \<Rightarrow> transport_actor" where
  "receive_data i bs a =
     (case map_of (ta_streams a) i of
        None \<Rightarrow> a
      | Some st \<Rightarrow>
          if terminal_queued st then a
          else (case stream_data (ta_remote_endpoint a) (stream_relay st) of
                  Inl _ \<Rightarrow> stream_protocol_reset i ''DATA is invalid in the current stream phase'' a
                | Inr _ \<Rightarrow> emit (EventData (actor_key a i) bs) a))"

definition receive_fin :: "stream_id \<Rightarrow> transport_actor \<Rightarrow> transport_actor" where
  "receive_fin i a =
     (case map_of (ta_streams a) i of
        None \<Rightarrow> a
      | Some st \<Rightarrow>
          if terminal_queued st then a
          else (case stream_fin (ta_remote_endpoint a) (stream_relay st) of
                  Inl _ \<Rightarrow> stream_protocol_reset i ''FIN is invalid in the current stream phase'' a
                | Inr (newly_finished, relay) \<Rightarrow>
                    if \<not> newly_finished then a
                    else let closed = relay_is_closed relay;
                             finish_now = (closed \<and> queued_frames st = []);
                             st1 = st\<lparr>stream_relay := relay\<rparr>;
                             st2 = (if closed then st1\<lparr>terminal_queued := True, stream_open_deadline := None\<rparr> else st1);
                             a1 = emit (EventFin (actor_key a i)) (set_stream i st2 a)
                         in if finish_now then finish_stream i a1 else a1))"

definition receive_close :: "stream_id \<Rightarrow> transport_actor \<Rightarrow> transport_actor" where
  "receive_close i a =
     (case map_of (ta_streams a) i of
        None \<Rightarrow> a
      | Some st \<Rightarrow>
          if terminal_queued st then a
          else if \<not> relay_is_open (stream_relay st) then stream_protocol_reset i ''CLOSE is invalid before OPENED'' a
          else finish_stream i (emit (EventClose (actor_key a i)) a))"

definition receive_reset :: "stream_id \<Rightarrow> error_code \<Rightarrow> string \<Rightarrow> transport_actor \<Rightarrow> transport_actor" where
  "receive_reset i c m a =
     (case map_of (ta_streams a) i of
        None \<Rightarrow> a
      | Some st \<Rightarrow>
          if terminal_queued st then a else finish_stream i (emit_terminal_reset i c m a))"

fun actor_frame :: "peer_frame \<Rightarrow> transport_actor \<Rightarrow> bool \<times> transport_actor" where
  "actor_frame (PeerFrameOpen i oi d s b) a = (True, receive_open i oi d s b a)"
| "actor_frame (PeerFrameOpened i) a = (True, receive_opened i a)"
| "actor_frame (PeerFrameFailed i c ob m) a = (True, receive_failed i c ob m a)"
| "actor_frame (PeerFrameData i bs) a = (True, receive_data i bs a)"
| "actor_frame (PeerFrameFin i) a = (True, receive_fin i a)"
| "actor_frame (PeerFrameClose i) a = (True, receive_close i a)"
| "actor_frame (PeerFrameReset i c m) a = (True, receive_reset i c m a)"
| "actor_frame (PeerFramePing n) a =
     (case try_send (PeerFramePong n) (ta_writer a) of
        (Sent, w) \<Rightarrow> (True, a\<lparr>ta_writer := w\<rparr>)
      | (_, w) \<Rightarrow> (False, fail_transport WriterFailed (a\<lparr>ta_writer := w\<rparr>)))"
| "actor_frame (PeerFramePong n) a = (True, a)"
| "actor_frame (PeerFrameHello h) a = (False, a)"
| "actor_frame (PeerFrameWelcome h) a = (False, a)"
| "actor_frame (PeerFrameHandshakeRejected c m) a = (False, a)"

definition lost_stream :: "transport_actor \<Rightarrow> stream_id \<times> runtime_stream \<Rightarrow> lost_peer_stream option" where
  "lost_stream a e =
     (case relay_owner (stream_relay (snd e)) of
        None \<Rightarrow> None
      | Some oi \<Rightarrow> Some \<lparr>lost_key = actor_key a (fst e), lost_open_identity = oi, lost_progress = stream_progress (snd e)\<rparr>)"

definition drain_losses :: "transport_actor \<Rightarrow> lost_peer_stream list \<times> transport_actor" where
  "drain_losses a =
     (let losses = List.map_filter (lost_stream a) (ta_streams a)
      in (losses,
          a\<lparr>ta_ready := [], ta_streams := [],
            ta_active_opens := fold (\<lambda>l. active_release (lost_open_identity l)) losses (ta_active_opens a),
            ta_stream_count := ta_stream_count a - of_nat (length (ta_streams a))\<rparr>))"

end
