(* ===== verification/Peer_Liveness.thy ===== *)
theory Peer_Liveness
  imports Peer_Transport
begin

text \<open>
  The heartbeat of a peer transport (\<open>transport/liveness.rs\<close>) and the handlers of its loop
  (\<open>transport/actor.rs\<close>): a command, an inbound frame or decoder error, a deadline, a wake-up of the writer,
  and the end of the loop, which reports the streams that were lost. Clock readings are arguments; the
  deadline handler reads the clock three times.
\<close>

record pending_heartbeat =
  pending_nonce :: u64
  pending_sent_at :: instant
  pending_deadline :: instant

record transport_liveness =
  lv_idle_interval :: duration
  lv_response_timeout :: duration
  lv_retirement_timeout :: duration
  lv_last_inbound :: instant
  lv_pending :: "pending_heartbeat option"
  lv_zero_stream_since :: "instant option"
  lv_next_nonce :: u64

datatype liveness_action = ActionPing peer_frame | ActionHeartbeatTimeout | ActionIdleRetired

definition liveness_new :: "instant \<Rightarrow> duration \<Rightarrow> duration \<Rightarrow> duration \<Rightarrow> transport_liveness" where
  "liveness_new now idle response retirement =
     \<lparr>lv_idle_interval = idle, lv_response_timeout = response, lv_retirement_timeout = retirement,
      lv_last_inbound = now, lv_pending = None, lv_zero_stream_since = None, lv_next_nonce = 1\<rparr>"

definition sync_stream_state :: "instant \<Rightarrow> bool \<Rightarrow> transport_liveness \<Rightarrow> transport_liveness" where
  "sync_stream_state now is_empty l =
     (case (is_empty, lv_zero_stream_since l) of
        (True, None) \<Rightarrow> l\<lparr>lv_pending := None, lv_zero_stream_since := Some now\<rparr>
      | (False, Some _) \<Rightarrow> l\<lparr>lv_last_inbound := now, lv_zero_stream_since := None\<rparr>
      | _ \<Rightarrow> l)"

fun is_handshake_frame :: "peer_frame \<Rightarrow> bool" where
  "is_handshake_frame (PeerFrameHello _) = True"
| "is_handshake_frame (PeerFrameWelcome _) = True"
| "is_handshake_frame (PeerFrameHandshakeRejected _ _) = True"
| "is_handshake_frame _ = False"

fun is_pong :: "peer_frame \<Rightarrow> bool" where
  "is_pong (PeerFramePong _) = True"
| "is_pong _ = False"

definition observe_inbound :: "instant \<Rightarrow> peer_frame \<Rightarrow> transport_liveness \<Rightarrow> duration option \<times> transport_liveness" where
  "observe_inbound now f l =
     (case lv_pending l of
        Some pending \<Rightarrow>
          if f = PeerFramePong (pending_nonce pending) \<and> now < pending_deadline pending
          then (Some (now - pending_sent_at pending), l\<lparr>lv_last_inbound := now, lv_pending := None\<rparr>)
          else (None, l)
      | None \<Rightarrow>
          if is_pong f \<or> is_handshake_frame f then (None, l)
          else (None, l\<lparr>lv_last_inbound := now, lv_pending := None\<rparr>))"

definition response_timed_out :: "instant \<Rightarrow> transport_liveness \<Rightarrow> bool" where
  "response_timed_out now l \<longleftrightarrow> (case lv_pending l of None \<Rightarrow> False | Some pending \<Rightarrow> pending_deadline pending \<le> now)"

definition liveness_deadline :: "transport_liveness \<Rightarrow> instant" where
  "liveness_deadline l =
     (case lv_zero_stream_since l of
        Some since \<Rightarrow> since + lv_retirement_timeout l
      | None \<Rightarrow> (case lv_pending l of
            None \<Rightarrow> lv_last_inbound l + lv_idle_interval l
          | Some pending \<Rightarrow> pending_deadline pending))"

definition liveness_on_deadline :: "instant \<Rightarrow> bool \<Rightarrow> bool \<Rightarrow> transport_liveness \<Rightarrow> liveness_action option \<times> transport_liveness" where
  "liveness_on_deadline now is_empty command_queue_empty l =
     (if is_empty then
        (if (case lv_zero_stream_since l of None \<Rightarrow> False | Some since \<Rightarrow> since + lv_retirement_timeout l \<le> now) then
           (if command_queue_empty then (Some ActionIdleRetired, l)
            else (None, l\<lparr>lv_zero_stream_since := Some now\<rparr>))
         else (None, l))
      else case lv_pending l of
        Some pending \<Rightarrow> (if pending_deadline pending \<le> now then Some ActionHeartbeatTimeout else None, l)
      | None \<Rightarrow>
          if lv_last_inbound l + lv_idle_interval l > now then (None, l)
          else let nonce = lv_next_nonce l
               in (Some (ActionPing (PeerFramePing nonce)),
                   l\<lparr>lv_pending := Some \<lparr>pending_nonce = nonce, pending_sent_at = now,
                        pending_deadline = now + lv_response_timeout l\<rparr>,
                     lv_next_nonce := max (nonce + 1) 1\<rparr>))"

definition mark_probe_committed :: "instant \<Rightarrow> transport_liveness \<Rightarrow> transport_liveness" where
  "mark_probe_committed now l =
     (case lv_pending l of
        None \<Rightarrow> l
      | Some pending \<Rightarrow>
          l\<lparr>lv_pending := Some (pending\<lparr>pending_sent_at := now, pending_deadline := now + lv_response_timeout l\<rparr>)\<rparr>)"

fun endpoint_salt :: "stream_endpoint \<Rightarrow> nat" where
  "endpoint_salt EndpointDialer = 0x50"
| "endpoint_salt EndpointAcceptor = 0x51"

definition staggered_interval :: "duration \<Rightarrow> peer_transport_id \<Rightarrow> stream_endpoint \<Rightarrow> duration" where
  "staggered_interval d tid e = staggered d (uuid_bytes tid) (endpoint_salt e)"

section \<open>The loop (\<open>transport/actor.rs\<close>)\<close>

record transport_loop =
  loop_actor :: transport_actor
  loop_liveness :: transport_liveness

text \<open>\<open>Continue\<close> and \<open>Break\<close> of the loop.\<close>

type_synonym loop_control = "transport_close_reason option"

definition sync_liveness :: "instant \<Rightarrow> transport_loop \<Rightarrow> transport_loop" where
  "sync_liveness now t = t\<lparr>loop_liveness := sync_stream_state now (ta_streams (loop_actor t) = []) (loop_liveness t)\<rparr>"

definition loop_start :: "instant \<Rightarrow> established_peer \<Rightarrow> peer_config \<Rightarrow> transport_actor \<Rightarrow> transport_loop" where
  "loop_start now est config a =
     sync_liveness now
       \<lparr>loop_actor = a,
        loop_liveness = liveness_new now
          (staggered_interval (heartbeat_idle_interval config) (est_peer_transport_id est) (est_local_endpoint est))
          (heartbeat_response_timeout config) (idle_retirement_timeout config)\<rparr>"

definition earliest_deadline :: "instant option \<Rightarrow> instant option \<Rightarrow> instant option" where
  "earliest_deadline l r =
     (case (l, r) of
        (Some a, Some b) \<Rightarrow> Some (min a b)
      | (Some a, None) \<Rightarrow> Some a
      | (None, Some b) \<Rightarrow> Some b
      | (None, None) \<Rightarrow> None)"

definition loop_deadline :: "transport_loop \<Rightarrow> instant option" where
  "loop_deadline t = earliest_deadline (next_open_deadline (loop_actor t)) (Some (liveness_deadline (loop_liveness t)))"

definition after_activity :: "instant \<Rightarrow> transport_loop \<Rightarrow> transport_loop" where
  "after_activity now t = sync_liveness now (t\<lparr>loop_actor := flush_stream_queues (loop_actor t)\<rparr>)"

definition on_command :: "instant \<Rightarrow> transport_command \<Rightarrow> transport_loop \<Rightarrow> transport_reply \<times> transport_loop" where
  "on_command now c t =
     (case actor_command now c (loop_actor t) of
        (reply, a) \<Rightarrow> (reply, after_activity now (t\<lparr>loop_actor := a\<rparr>)))"

text \<open>An inbound item: the stream ended, a decoder error, or a frame.\<close>

datatype inbound_item = InboundEnd | InboundError peer_codec_error | InboundFrame peer_frame

fun on_inbound :: "instant \<Rightarrow> inbound_item \<Rightarrow> transport_loop \<Rightarrow> loop_control \<times> transport_loop" where
  "on_inbound now InboundEnd t = (Some RemoteClosed, t)"
| "on_inbound now (InboundError e) t = (Some (if is_io e then RemoteClosed else ProtocolErrorClose), t)"
| "on_inbound now (InboundFrame f) t =
     (let l = snd (observe_inbound now f (loop_liveness t)); t1 = t\<lparr>loop_liveness := l\<rparr>
      in if response_timed_out now l then (Some HeartbeatTimeout, t1)
         else case actor_frame f (loop_actor t1) of
           (False, a) \<Rightarrow> (Some ProtocolErrorClose, t1\<lparr>loop_actor := a\<rparr>)
         | (True, a) \<Rightarrow> (None, after_activity now (t1\<lparr>loop_actor := a\<rparr>)))"

definition on_deadline :: "instant \<Rightarrow> instant \<Rightarrow> instant \<Rightarrow> bool \<Rightarrow> transport_loop \<Rightarrow> loop_control \<times> transport_loop" where
  "on_deadline now expire_now later command_queue_empty t =
     (let a = flush_stream_queues (expire_open_deadlines expire_now (loop_actor t));
          (action, l) = liveness_on_deadline now (ta_streams a = []) command_queue_empty (loop_liveness t);
          t1 = t\<lparr>loop_actor := a, loop_liveness := l\<rparr>
      in case action of
           None \<Rightarrow> (None, sync_liveness later t1)
         | Some ActionHeartbeatTimeout \<Rightarrow> (Some HeartbeatTimeout, t1)
         | Some ActionIdleRetired \<Rightarrow> (Some IdleRetired, t1)
         | Some (ActionPing f) \<Rightarrow>
             (case try_send f (ta_writer a) of
                (Sent, w) \<Rightarrow>
                  (None, sync_liveness later
                     (t1\<lparr>loop_actor := a\<lparr>ta_writer := w\<rparr>, loop_liveness := mark_probe_committed later l\<rparr>))
              | (_, w) \<Rightarrow> (Some WriterFailed, t1\<lparr>loop_actor := a\<lparr>ta_writer := w\<rparr>\<rparr>)))"

definition on_writer_wake :: "instant \<Rightarrow> bool \<Rightarrow> transport_loop \<Rightarrow> loop_control \<times> transport_loop" where
  "on_writer_wake now woken t =
     (if woken then (None, after_activity now t)
      else (Some (if closure_cancelled (ta_closure (loop_actor t)) then LocalClose else WriterFailed), t))"

definition close_reason :: "transport_close_reason \<Rightarrow> transport_actor \<Rightarrow> transport_close_reason" where
  "close_reason reason a = (case closure_failure (ta_closure a) of None \<Rightarrow> reason | Some r \<Rightarrow> r)"

definition loop_end :: "transport_close_reason \<Rightarrow> transport_loop \<Rightarrow> transport_actor" where
  "loop_end reason t =
     (let a = loop_actor t; why = close_reason reason a;
          (losses, a1) = drain_losses (a\<lparr>ta_closure := closure_close (ta_closure a)\<rparr>)
      in notify (NoticeTransportLost (ta_peer_gateway_id a1) (ta_peer_transport_id a1) why losses) a1)"

end
