(* ===== verification/Peer_Moves.thy ===== *)
theory Peer_Moves
  imports Peer_Liveness
begin

text \<open>
  The elementary moves of a transport actor. Every operation of \<open>Peer_Transport\<close> is a sequence of them: a
  frame joins a stream's queue, leaves it for the writer or is dropped with a dead writer, a frame goes to
  the writer directly, an event is reported, a stream is opened or ended, and bookkeeping. The invariants of
  the transport are proved of the moves; the labels record what a move shows to the outside.
\<close>

datatype move_label =
    MoveQueue stream_id peer_frame
  | MoveSend peer_frame
  | MoveReport peer_event
  | MoveOpen stream_id open_identity
  | MoveEnd stream_id open_identity
  | MoveTau

text \<open>How a frame changes the stream whose queue it joins; \<open>le\<close> is the local endpoint.\<close>

inductive queue_change :: "stream_endpoint \<Rightarrow> stream_id \<Rightarrow> runtime_stream \<Rightarrow> peer_frame \<Rightarrow> runtime_stream \<Rightarrow> bool"
  for le i st where
  change_data: "stream_data le (stream_relay st) = Inr () \<Longrightarrow>
    queue_change le i st (PeerFrameData i bs)
      (st\<lparr>queued_frames := queued_frames st @ [PeerFrameData i bs], terminal_queued := False\<rparr>)"
| change_fin: "stream_fin le (stream_relay st) = Inr (True, relay) \<Longrightarrow>
    queue_change le i st (PeerFrameFin i)
      (st\<lparr>queued_frames := queued_frames st @ [PeerFrameFin i], terminal_queued := relay_is_closed relay,
         stream_open_deadline := (if relay_is_closed relay then None else stream_open_deadline st), stream_relay := relay\<rparr>)"
| change_opened: "stream_origin_of st = OriginRemote \<Longrightarrow> relay_opened (stream_relay st) = Inr relay \<Longrightarrow>
    queue_change le i st (PeerFrameOpened i)
      (st\<lparr>queued_frames := queued_frames st @ [PeerFrameOpened i], terminal_queued := False, stream_relay := relay,
         stream_progress := ProgressOpened\<rparr>)"
| change_terminal: "(\<exists>c m. f = PeerFrameReset i c m) \<or> (\<exists>c ob m. f = PeerFrameFailed i c ob m) \<or>
      f = PeerFrameClose i \<and> relay_is_open (stream_relay st) \<Longrightarrow>
    queue_change le i st f
      (st\<lparr>queued_frames := queued_frames st @ [f], terminal_queued := True, stream_open_deadline := None\<rparr>)"

text \<open>How a received frame changes the relay of a stream; \<open>re\<close> is the remote endpoint.\<close>

inductive relay_change :: "stream_endpoint \<Rightarrow> runtime_stream \<Rightarrow> runtime_stream \<Rightarrow> bool"
  for re st where
  change_open: "stream_origin_of st = OriginLocal \<Longrightarrow> relay_opened (stream_relay st) = Inr relay \<Longrightarrow>
    relay_change re st (st\<lparr>stream_relay := relay, stream_progress := ProgressOpened, stream_open_deadline := None\<rparr>)"
| change_half: "stream_fin re (stream_relay st) = Inr (True, relay) \<Longrightarrow> \<not> relay_is_closed relay \<Longrightarrow>
    relay_change re st (st\<lparr>stream_relay := relay\<rparr>)"
| change_whole: "stream_fin re (stream_relay st) = Inr (True, relay) \<Longrightarrow> relay_is_closed relay \<Longrightarrow>
    queued_frames st \<noteq> [] \<Longrightarrow>
    relay_change re st (st\<lparr>stream_relay := relay, terminal_queued := True, stream_open_deadline := None\<rparr>)"

fun event_stream :: "peer_event \<Rightarrow> peer_stream_key option" where
  "event_stream (EventIncomingOpen k _ _ _ _) = Some k"
| "event_stream (EventOpened k _) = Some k"
| "event_stream (EventFailed k _ _ _ _) = Some k"
| "event_stream (EventData k _) = Some k"
| "event_stream (EventFin k) = Some k"
| "event_stream (EventClose k) = Some k"
| "event_stream (EventReset k _ _) = Some k"
| "event_stream (EventTransportLost _ _ _) = None"

fun event_identity :: "peer_event \<Rightarrow> open_identity option" where
  "event_identity (EventIncomingOpen _ oi _ _ _) = Some oi"
| "event_identity (EventOpened _ oi) = Some oi"
| "event_identity (EventFailed _ oi _ _ _) = Some oi"
| "event_identity _ = None"

definition owns :: "transport_actor \<Rightarrow> stream_id \<Rightarrow> open_identity \<Rightarrow> bool" where
  "owns a i oi \<longleftrightarrow> (\<exists>st. map_of (ta_streams a) i = Some st \<and> relay_owner (stream_relay st) = Some oi)"

fun control_frame :: "peer_frame \<Rightarrow> bool" where
  "control_frame (PeerFramePing _) = True"
| "control_frame (PeerFramePong _) = True"
| "control_frame (PeerFrameFailed _ _ _ _) = True"
| "control_frame _ = False"

inductive actor_move :: "transport_actor \<Rightarrow> move_label \<Rightarrow> transport_actor \<Rightarrow> bool" for a where
  move_queue: "map_of (ta_streams a) i = Some st \<Longrightarrow> \<not> terminal_queued st \<Longrightarrow>
    length (queued_frames st) < stream_queue_capacity (ta_config a) \<Longrightarrow>
    queue_change (ta_local_endpoint a) i st f st' \<Longrightarrow>
    actor_move a (MoveQueue i f) (set_stream i st' (a\<lparr>ta_ready := bs_insert i (ta_ready a)\<rparr>))"
| move_relay: "map_of (ta_streams a) i = Some st \<Longrightarrow> \<not> terminal_queued st \<Longrightarrow>
    relay_change (ta_remote_endpoint a) st st' \<Longrightarrow> actor_move a MoveTau (set_stream i st' a)"
| move_report: "\<not> ta_notices_closed a \<Longrightarrow> owns a i oi \<Longrightarrow> event_stream e = Some (actor_key a i) \<Longrightarrow>
    event_identity e = None \<or> event_identity e = Some oi \<Longrightarrow>
    actor_move a (MoveReport e) (notify (NoticeEvent e) a)"
| move_end: "owns a i oi \<Longrightarrow> actor_move a (MoveEnd i oi) (finish_stream i a)"
| move_fail: "actor_move a MoveTau (fail_transport reason a)"
| move_refused: "try_send f (ta_writer a) = (r, w) \<Longrightarrow> r \<noteq> Sent \<Longrightarrow> actor_move a MoveTau (a\<lparr>ta_writer := w\<rparr>)"
| move_send: "try_send f (ta_writer a) = (Sent, w) \<Longrightarrow> control_frame f \<Longrightarrow>
    actor_move a (MoveSend f) (a\<lparr>ta_writer := w\<rparr>)"
| move_attempt_ended: "actor_move a MoveTau (notify (NoticeAttemptEnded oi) a)"
| move_release: "\<nexists>i. owns a i oi \<Longrightarrow> actor_move a MoveTau (release_open oi a)"
| move_skip: "allocate (ta_allocator a) = (Inr i, al) \<Longrightarrow> actor_move a MoveTau (a\<lparr>ta_allocator := al\<rparr>)"
| move_guard: "accept_open i (ta_remote_guard a) = (Inr (), g) \<Longrightarrow> actor_move a MoveTau (a\<lparr>ta_remote_guard := g\<rparr>)"
| move_open_local: "allocate (ta_allocator a) = (Inr i, al) \<Longrightarrow>
    try_send (PeerFrameOpen i oi d s b) (ta_writer a) = (Sent, w) \<Longrightarrow>
    length (ta_streams a) < max_streams_per_transport (ta_config a) \<Longrightarrow>
    oi \<in> set (active_members (ta_active_opens a)) \<Longrightarrow> \<nexists>i. owns a i oi \<Longrightarrow>
    actor_move a (MoveOpen i oi)
      (insert_stream i (new_stream oi OriginLocal deadline) (a\<lparr>ta_allocator := al, ta_writer := w\<rparr>))"
| move_open_remote: "accept_open i (ta_remote_guard a) = (Inr (), g) \<Longrightarrow> entry_gateway oi = ta_peer_gateway_id a \<Longrightarrow>
    length (ta_streams a) < max_streams_per_transport (ta_config a) \<Longrightarrow>
    active_reserve oi (ta_active_opens a) = (Inr True, active) \<Longrightarrow>
    actor_move a (MoveOpen i oi)
      (insert_stream i (new_stream oi OriginRemote None) (a\<lparr>ta_remote_guard := g, ta_active_opens := active\<rparr>))"
| move_flush: "map_of (ta_streams a) i = Some st \<Longrightarrow> queued_frames st = f # fs \<Longrightarrow>
    try_send f (ta_writer a) = (Sent, w) \<Longrightarrow>
    actor_move a (MoveSend f)
      ((if fs = [] then unready i else id) (set_stream i (st\<lparr>queued_frames := fs\<rparr>) (a\<lparr>ta_writer := w\<rparr>)))"
| move_drop: "map_of (ta_streams a) i = Some st \<Longrightarrow> queued_frames st = f # fs \<Longrightarrow>
    try_send f (ta_writer a) = (QueueClosed, w) \<Longrightarrow>
    actor_move a MoveTau
      ((if fs = [] then unready i else id) (set_stream i (st\<lparr>queued_frames := fs\<rparr>) (a\<lparr>ta_writer := w\<rparr>)))"

inductive moves :: "transport_actor \<Rightarrow> move_label list \<Rightarrow> transport_actor \<Rightarrow> bool" where
  moves_nil: "moves a [] a"
| moves_cons: "actor_move a l b \<Longrightarrow> moves b ls c \<Longrightarrow> moves a (l # ls) c"

lemma moves_one: "actor_move a l b \<Longrightarrow> moves a [l] b"
  by (blast intro: moves.intros)

lemma moves_append: "moves a ls b \<Longrightarrow> moves b ms c \<Longrightarrow> moves a (ls @ ms) c"
  by (induction rule: moves.induct) (auto intro: moves.intros)

lemma moves_trans1: "moves a ls b \<Longrightarrow> actor_move b l c \<Longrightarrow> moves a (ls @ [l]) c"
  by (blast intro: moves_append moves_one)

end
