(* ===== verification/Peer_Invariant.thy ===== *)
theory Peer_Invariant
  imports Peer_Moves
begin

text \<open>
  The invariant of a transport actor, kept by every move: the ready set is exactly the set of streams with
  queued frames, queues and the stream table are bounded, every stream has an owner that no other stream has
  and that is in the set of active OPENs, stream identifiers are never used twice, and the phases of a
  stream's relay, its progress and its deadline agree.
\<close>

definition used_id :: "transport_actor \<Rightarrow> stream_id \<Rightarrow> bool" where
  "used_id a i \<longleftrightarrow>
     initiator_bit i = endpoint_bit (ta_local_endpoint a) \<and> stream_counter i < next_counter (ta_allocator a) \<or>
     initiator_bit i = endpoint_bit (ta_remote_endpoint a) \<and>
       (\<exists>h. highest_counter (ta_remote_guard a) = Some h \<and> stream_counter i \<le> h)"

definition origin_endpoint :: "transport_actor \<Rightarrow> runtime_stream \<Rightarrow> stream_endpoint" where
  "origin_endpoint a st = (case stream_origin_of st of OriginLocal \<Rightarrow> ta_local_endpoint a | OriginRemote \<Rightarrow> ta_remote_endpoint a)"

definition stream_inv :: "transport_actor \<Rightarrow> stream_id \<Rightarrow> runtime_stream \<Rightarrow> bool" where
  "stream_inv a i st \<longleftrightarrow>
     length (queued_frames st) \<le> stream_queue_capacity (ta_config a) \<and>
     relay_owner (stream_relay st) \<noteq> None \<and>
     (relay_state (stream_relay st) = RelayOpening \<longleftrightarrow> stream_progress st = AfterOpenCommit) \<and>
     (relay_is_closed (stream_relay st) \<longrightarrow> terminal_queued st) \<and>
     (stream_open_deadline st \<noteq> None \<longrightarrow>
        stream_origin_of st = OriginLocal \<and> stream_progress st = AfterOpenCommit \<and> \<not> terminal_queued st) \<and>
     used_id a i \<and> initiator_bit i = endpoint_bit (origin_endpoint a st)"

definition actor_inv :: "transport_actor \<Rightarrow> bool" where
  "actor_inv a \<longleftrightarrow>
     bt_ok (ta_streams a) \<and> bs_ok (ta_ready a) \<and>
     (\<forall>i. i \<in> set (ta_ready a) \<longleftrightarrow> (\<exists>st. map_of (ta_streams a) i = Some st \<and> queued_frames st \<noteq> [])) \<and>
     length (ta_streams a) \<le> max_streams_per_transport (ta_config a) \<and>
     ta_remote_endpoint a = opposite_endpoint (ta_local_endpoint a) \<and>
     alloc_endpoint (ta_allocator a) = ta_local_endpoint a \<and>
     next_counter (ta_allocator a) \<le> I64_MAX + 1 \<and>
     remote_endpoint (ta_remote_guard a) = ta_remote_endpoint a \<and>
     (\<forall>i st. map_of (ta_streams a) i = Some st \<longrightarrow> stream_inv a i st) \<and>
     (\<forall>i oi. owns a i oi \<longrightarrow> oi \<in> set (active_members (ta_active_opens a))) \<and>
     (\<forall>i j oi. owns a i oi \<longrightarrow> owns a j oi \<longrightarrow> i = j)"

lemma actor_invD:
  assumes "actor_inv a"
  shows "bt_ok (ta_streams a)" "bs_ok (ta_ready a)"
    "\<And>i. i \<in> set (ta_ready a) \<longleftrightarrow> (\<exists>st. map_of (ta_streams a) i = Some st \<and> queued_frames st \<noteq> [])"
    "length (ta_streams a) \<le> max_streams_per_transport (ta_config a)"
    "ta_remote_endpoint a = opposite_endpoint (ta_local_endpoint a)"
    "alloc_endpoint (ta_allocator a) = ta_local_endpoint a"
    "next_counter (ta_allocator a) \<le> I64_MAX + 1"
    "remote_endpoint (ta_remote_guard a) = ta_remote_endpoint a"
    "\<And>i st. map_of (ta_streams a) i = Some st \<Longrightarrow> stream_inv a i st"
    "\<And>i oi. owns a i oi \<Longrightarrow> oi \<in> set (active_members (ta_active_opens a))"
    "\<And>i j oi. owns a i oi \<Longrightarrow> owns a j oi \<Longrightarrow> i = j"
  using assms unfolding actor_inv_def by blast+

lemma actor_invI:
  assumes "bt_ok (ta_streams a)" "bs_ok (ta_ready a)"
    "\<And>i. i \<in> set (ta_ready a) \<longleftrightarrow> (\<exists>st. map_of (ta_streams a) i = Some st \<and> queued_frames st \<noteq> [])"
    "length (ta_streams a) \<le> max_streams_per_transport (ta_config a)"
    "ta_remote_endpoint a = opposite_endpoint (ta_local_endpoint a)"
    "alloc_endpoint (ta_allocator a) = ta_local_endpoint a"
    "next_counter (ta_allocator a) \<le> I64_MAX + 1"
    "remote_endpoint (ta_remote_guard a) = ta_remote_endpoint a"
    "\<And>i st. map_of (ta_streams a) i = Some st \<Longrightarrow> stream_inv a i st"
    "\<And>i oi. owns a i oi \<Longrightarrow> oi \<in> set (active_members (ta_active_opens a))"
    "\<And>i j oi. owns a i oi \<Longrightarrow> owns a j oi \<Longrightarrow> i = j"
  shows "actor_inv a"
  using assms unfolding actor_inv_def by blast

section \<open>Stream identifiers\<close>

lemma allocate_Inr:
  assumes "allocate al = (Inr i, al')"
  shows "initiator_bit i = endpoint_bit (alloc_endpoint al)" "stream_counter i = next_counter al"
    "al' = al\<lparr>next_counter := next_counter al + 1\<rparr>" "next_counter al \<le> I64_MAX" "next_counter al < next_counter al + 1"
proof -
  have le: "\<not> next_counter al > I64_MAX" and i: "i = push_bit 1 (next_counter al) OR endpoint_bit (alloc_endpoint al)"
    and al: "al' = al\<lparr>next_counter := next_counter al + 1\<rparr>"
    using assms by (auto simp: allocate_def split: if_splits)
  let ?k = "unat (next_counter al)"
  have "unat (next_counter al) \<le> unat I64_MAX" using le by (simp add: word_le_nat_alt not_less)
  then have k: "?k < 2 ^ 63" by (simp add: I64_MAX_def)
  have "i = stream_at (alloc_endpoint al) ?k" using i stream_at_OR [of ?k] by simp
  then show "initiator_bit i = endpoint_bit (alloc_endpoint al)" "stream_counter i = next_counter al"
    using stream_at_parts [OF k] by simp_all
  show "al' = al\<lparr>next_counter := next_counter al + 1\<rparr>" "next_counter al \<le> I64_MAX" using al le by simp_all
  have "unat (next_counter al + 1) = ?k + 1" using k by (simp add: unat_word_ariths)
  then show "next_counter al < next_counter al + 1" by (simp add: word_less_nat_alt)
qed

lemma accept_open_Inr:
  assumes "accept_open i g = (Inr u, g')"
  shows "initiator_bit i = endpoint_bit (remote_endpoint g)" "g' = g\<lparr>highest_counter := Some (stream_counter i)\<rparr>"
    "\<And>h. highest_counter g = Some h \<Longrightarrow> h < stream_counter i"
  using assms by (auto simp: accept_open_def not_le split: if_splits option.splits)

lemma endpoint_bit_opposite: "endpoint_bit (opposite_endpoint e) \<noteq> endpoint_bit e"
  by (cases e) simp_all

lemma allocated_fresh:
  "actor_inv a \<Longrightarrow> allocate (ta_allocator a) = (Inr i, al) \<Longrightarrow> \<not> used_id a i"
  using allocate_Inr [of "ta_allocator a" i al] actor_invD(5,6) [of a] endpoint_bit_opposite
  by (auto simp: used_id_def) metis+

lemma accepted_fresh:
  "actor_inv a \<Longrightarrow> accept_open i (ta_remote_guard a) = (Inr u, g) \<Longrightarrow> \<not> used_id a i"
  using accept_open_Inr [of i "ta_remote_guard a" u g] actor_invD(5,8) [of a] endpoint_bit_opposite
  by (force simp: used_id_def)

lemma unused_not_live: "actor_inv a \<Longrightarrow> \<not> used_id a i \<Longrightarrow> map_of (ta_streams a) i = None"
  using actor_invD(9) by (cases "map_of (ta_streams a) i") (auto simp: stream_inv_def)

section \<open>Every move keeps the invariant\<close>

text \<open>Everything the invariant reads beside the stream table and the ready set.\<close>

definition same_frame :: "transport_actor \<Rightarrow> transport_actor \<Rightarrow> bool" where
  "same_frame a b \<longleftrightarrow> ta_local_endpoint b = ta_local_endpoint a \<and> ta_remote_endpoint b = ta_remote_endpoint a \<and>
     ta_allocator b = ta_allocator a \<and> ta_remote_guard b = ta_remote_guard a \<and> ta_config b = ta_config a"

lemma same_frame_stream: "same_frame a b \<Longrightarrow> stream_inv b i st = stream_inv a i st \<and> used_id b i = used_id a i"
  by (cases "stream_origin_of st") (simp_all add: same_frame_def stream_inv_def used_id_def origin_endpoint_def)

lemma stream_inv_mono:
  "stream_inv a i st \<Longrightarrow> ta_config b = ta_config a \<Longrightarrow> ta_local_endpoint b = ta_local_endpoint a \<Longrightarrow>
   ta_remote_endpoint b = ta_remote_endpoint a \<Longrightarrow> (used_id a i \<Longrightarrow> used_id b i) \<Longrightarrow> stream_inv b i st"
  by (cases "stream_origin_of st") (simp_all add: stream_inv_def origin_endpoint_def)

lemma inv_same_streams:
  assumes "actor_inv a" "same_frame a b" "ta_streams b = ta_streams a" "ta_ready b = ta_ready a"
    "\<And>i oi. owns a i oi \<Longrightarrow> oi \<in> set (active_members (ta_active_opens a)) \<Longrightarrow> oi \<in> set (active_members (ta_active_opens b))"
  shows "actor_inv b"
proof -
  have o: "owns b = owns a" using assms(3) by (intro ext) (simp add: owns_def)
  note I = actor_invD [OF assms(1)]
  show ?thesis
    using I assms(2-) same_frame_stream [OF assms(2)] unfolding actor_inv_def o
    by (simp add: same_frame_def)
qed

lemma inv_same_table:
  assumes inv: "actor_inv a" and "ta_streams b = ta_streams a" "ta_ready b = ta_ready a" "ta_config b = ta_config a"
    "ta_active_opens b = ta_active_opens a" "ta_local_endpoint b = ta_local_endpoint a" "ta_remote_endpoint b = ta_remote_endpoint a"
    "alloc_endpoint (ta_allocator b) = ta_local_endpoint a" "next_counter (ta_allocator b) \<le> I64_MAX + 1"
    "remote_endpoint (ta_remote_guard b) = ta_remote_endpoint a" "\<And>j. used_id a j \<Longrightarrow> used_id b j"
  shows "actor_inv b"
proof -
  have "owns b = owns a" using assms(2) by (intro ext) (simp add: owns_def)
  moreover have "stream_inv b i st" if "map_of (ta_streams a) i = Some st" for i st
    using stream_inv_mono [OF actor_invD(9) [OF inv that] assms(4,6,7,11)] .
  ultimately show ?thesis using actor_invD [OF inv] assms by (intro actor_invI) simp_all
qed

lemma inv_change_stream:
  assumes inv: "actor_inv a" and st: "map_of (ta_streams a) i = Some st" and frame: "same_frame a b"
    and streams: "ta_streams b = AList.update i st' (ta_streams a)"
    and ready: "bs_ok (ta_ready b)" "\<And>j. j \<in> set (ta_ready b) \<longleftrightarrow> (if j = i then queued_frames st' \<noteq> [] else j \<in> set (ta_ready a))"
    and st': "stream_inv a i st'" "relay_owner (stream_relay st') = relay_owner (stream_relay st)"
    and active: "ta_active_opens b = ta_active_opens a"
  shows "actor_inv b"
proof -
  note I = actor_invD [OF inv]
  have get: "map_of (ta_streams b) j = (if j = i then Some st' else map_of (ta_streams a) j)" for j
    by (simp add: streams update_conv')
  have owns: "owns b j oi \<longleftrightarrow> owns a j oi" for j oi
    using st st'(2) by (auto simp: owns_def get)
  have "length (ta_streams b) = length (ta_streams a)"
    using st by (simp add: streams length_hm_insert)
  moreover have "bt_ok (ta_streams b)" using bt_ok_modify [OF I(1) st, of st'] by (simp add: streams)
  moreover have "j \<in> set (ta_ready b) \<longleftrightarrow> (\<exists>sj. map_of (ta_streams b) j = Some sj \<and> queued_frames sj \<noteq> [])" for j
    using I(3) [of j] ready(2) [of j] by (simp add: get)
  moreover have "stream_inv b j sj" if "map_of (ta_streams b) j = Some sj" for j sj
    using that I(9) [of j sj] st'(1) same_frame_stream [OF frame] by (auto simp: get split: if_splits)
  ultimately show ?thesis
    using I(4-8,10,11) frame ready(1) by (intro actor_invI) (simp_all add: owns active same_frame_def)
qed

lemma inv_finish_stream:
  assumes inv: "actor_inv a" and own: "owns a i oi"
  shows "actor_inv (finish_stream i a)"
proof -
  note I = actor_invD [OF inv]
  let ?b = "finish_stream i a"
  obtain st where st: "map_of (ta_streams a) i = Some st" "relay_owner (stream_relay st) = Some oi"
    using own by (auto simp: owns_def)
  have b: "ta_streams ?b = AList.delete i (ta_streams a)" "ta_ready ?b = removeAll i (ta_ready a)" "same_frame a ?b"
    "ta_active_opens ?b = active_release oi (ta_active_opens a)"
    using st by (simp_all add: finish_stream_def Let_def notify_def same_frame_def)
  have get: "map_of (ta_streams ?b) j = (if j = i then None else map_of (ta_streams a) j)" for j
    by (simp add: b delete_conv')
  have owns: "owns ?b j oj \<longleftrightarrow> j \<noteq> i \<and> owns a j oj" for j oj by (simp add: owns_def get)
  have "oj \<in> set (active_members (ta_active_opens ?b))" if "owns ?b j oj" for j oj
    using I(10,11) own that by (auto simp: owns b active_release_def)
  moreover have "length (ta_streams ?b) \<le> length (ta_streams a)" by (simp add: b length_delete_le)
  moreover have "bt_ok (ta_streams ?b)" "bs_ok (ta_ready ?b)"
    using I(1,2) by (simp_all add: b bt_ok_remove bs_ok_removeAll)
  ultimately show ?thesis
    using I(3-9,11) b(3) same_frame_stream [OF b(3)]
    by (intro actor_invI) (auto simp: get owns b(2) same_frame_def split: if_splits)
qed

lemma inv_insert_stream:
  assumes inv: "actor_inv a" and fresh: "\<not> used_id a i"
    and b: "ta_streams b = bt_insert i st (ta_streams a)" "ta_ready b = ta_ready a" "ta_config b = ta_config a"
      "ta_local_endpoint b = ta_local_endpoint a" "ta_remote_endpoint b = ta_remote_endpoint a"
      "alloc_endpoint (ta_allocator b) = ta_local_endpoint a" "next_counter (ta_allocator b) \<le> I64_MAX + 1"
      "remote_endpoint (ta_remote_guard b) = ta_remote_endpoint a"
    and mono: "\<And>j. used_id a j \<Longrightarrow> used_id b j"
    and st: "stream_inv b i st" "queued_frames st = []" "relay_owner (stream_relay st) = Some oi"
    and room: "length (ta_streams a) < max_streams_per_transport (ta_config a)"
    and owner: "\<nexists>j. owns a j oi" "oi \<in> set (active_members (ta_active_opens b))"
      "set (active_members (ta_active_opens a)) \<subseteq> set (active_members (ta_active_opens b))"
  shows "actor_inv b"
proof -
  note I = actor_invD [OF inv]
  have none: "map_of (ta_streams a) i = None" using unused_not_live [OF inv fresh] .
  have get: "map_of (ta_streams b) j = (if j = i then Some st else map_of (ta_streams a) j)" for j
    by (simp add: b bt_get_insert)
  have owns: "owns b j oj \<longleftrightarrow> j = i \<and> oj = oi \<or> owns a j oj" for j oj
    using none st(3) by (auto simp: owns_def get)
  have "length (bt_insert i st m) = Suc (length m)" if "map_of m i = None" for m :: "(stream_id, runtime_stream) btreemap"
    using that by (induction m) (auto split: if_splits)
  then have len: "length (ta_streams b) = Suc (length (ta_streams a))" using none by (simp add: b)
  have "stream_inv b j sj" if "map_of (ta_streams b) j = Some sj" for j sj
    using that [unfolded get] I(9) [of j sj] stream_inv_mono [OF _ b(3-5) mono] st(1) by (auto split: if_splits)
  moreover have "bt_ok (ta_streams b)" using I(1) by (simp add: b bt_ok_insert)
  moreover have "oj \<in> set (active_members (ta_active_opens b))" if "owns b j oj" for j oj
    using that I(10) owner by (auto simp: owns)
  moreover have "j = k" if "owns b j oj" "owns b k oj" for j k oj
    using that I(11) owner(1) by (auto simp: owns)
  moreover have "j \<in> set (ta_ready b) \<longleftrightarrow> (\<exists>sj. map_of (ta_streams b) j = Some sj \<and> queued_frames sj \<noteq> [])" for j
    using I(3) [of j] none st(2) by (auto simp: get b(2))
  ultimately show ?thesis using I room len b by (intro actor_invI) auto
qed

lemma stream_fin_Inr:
  "stream_fin e r = Inr (n, r') \<Longrightarrow> relay_is_open r \<and> relay_owner r' = relay_owner r \<and>
     (n \<longleftrightarrow> \<not> finished_by e r) \<and> (relay_state r' = RelayOpen \<or> relay_is_closed r' \<and> n) \<and> (\<not> n \<longrightarrow> r' = r) \<and>
     (n \<longrightarrow> finished_by e r')"
  by (cases e) (auto simp: stream_fin_def and_then_Inr ensure_open_def Let_def split: relay_stream_state.splits if_splits)

lemma relay_opened_Inr:
  "relay_opened r = Inr r' \<Longrightarrow> relay_state r = RelayOpening \<and> r' = r\<lparr>relay_state := RelayOpen\<rparr>"
  by (auto simp: relay_opened_def split: if_splits)

lemma stream_data_Inr: "stream_data e r = Inr () \<longleftrightarrow> relay_is_open r \<and> \<not> finished_by e r"
  by (cases e) (auto simp: stream_data_def and_then_Inr ensure_open_def split: relay_stream_state.splits if_splits)

lemma queue_change_inv:
  assumes "queue_change (ta_local_endpoint a) i st f st'" "stream_inv a i st" "\<not> terminal_queued st"
    "length (queued_frames st) < stream_queue_capacity (ta_config a)"
  shows "stream_inv a i st' \<and> relay_owner (stream_relay st') = relay_owner (stream_relay st) \<and>
    queued_frames st' = queued_frames st @ [f] \<and> stream_origin_of st' = stream_origin_of st"
  using assms
proof cases
  case (change_fin relay)
  then show ?thesis using assms(2-) stream_fin_Inr [OF change_fin(3)]
    by (cases "stream_origin_of st"; cases "relay_state relay") (auto simp: stream_inv_def origin_endpoint_def)
next
  case (change_opened relay)
  then show ?thesis using assms(2-) relay_opened_Inr [OF change_opened(4)] by (auto simp: stream_inv_def origin_endpoint_def)
qed (use assms in \<open>auto simp: stream_inv_def origin_endpoint_def stream_data_Inr\<close>)

lemma relay_change_inv:
  assumes "relay_change (ta_remote_endpoint a) st st'" "stream_inv a i st" "\<not> terminal_queued st"
  shows "stream_inv a i st' \<and> relay_owner (stream_relay st') = relay_owner (stream_relay st) \<and>
    queued_frames st' = queued_frames st \<and> stream_origin_of st' = stream_origin_of st"
  using assms
proof cases
  case (change_open relay)
  then show ?thesis using assms(2-) relay_opened_Inr [OF change_open(3)] by (auto simp: stream_inv_def origin_endpoint_def)
next
  case (change_half relay)
  then show ?thesis using assms(2-) stream_fin_Inr [OF change_half(2)] by (auto simp: stream_inv_def origin_endpoint_def)
next
  case (change_whole relay)
  then show ?thesis using assms(2-) stream_fin_Inr [OF change_whole(2)] by (auto simp: stream_inv_def origin_endpoint_def)
qed

lemma queue_move_inv:
  assumes inv: "actor_inv a" and st: "map_of (ta_streams a) i = Some st" "\<not> terminal_queued st"
    "length (queued_frames st) < stream_queue_capacity (ta_config a)" "queue_change (ta_local_endpoint a) i st f st'"
  shows "actor_inv (set_stream i st' (a\<lparr>ta_ready := bs_insert i (ta_ready a)\<rparr>))"
proof (rule inv_change_stream [OF inv st(1)])
  note I = actor_invD [OF inv]
  show "stream_inv a i st'" "relay_owner (stream_relay st') = relay_owner (stream_relay st)"
    using queue_change_inv [OF st(4) I(9) [OF st(1)] st(2,3)] by simp_all
  show "j \<in> set (ta_ready (set_stream i st' (a\<lparr>ta_ready := bs_insert i (ta_ready a)\<rparr>))) \<longleftrightarrow>
      (if j = i then queued_frames st' \<noteq> [] else j \<in> set (ta_ready a))" for j
    using queue_change_inv [OF st(4) I(9) [OF st(1)] st(2,3)] by (simp add: set_stream_def)
qed (use actor_invD(2) [OF inv] in \<open>simp_all add: set_stream_def same_frame_def bs_ok_insert\<close>)

lemma pop_move_inv:
  assumes inv: "actor_inv a" and st: "map_of (ta_streams a) i = Some st" "queued_frames st = f # fs"
  shows "actor_inv ((if fs = [] then unready i else id) (set_stream i (st\<lparr>queued_frames := fs\<rparr>) (a\<lparr>ta_writer := w\<rparr>)))"
    (is "actor_inv ?b")
proof (rule inv_change_stream [OF inv st(1)])
  note I = actor_invD [OF inv]
  show "stream_inv a i (st\<lparr>queued_frames := fs\<rparr>)"
    using I(9) [OF st(1)] st(2) by (auto simp: stream_inv_def origin_endpoint_def)
  have "i \<in> set (ta_ready a)" using I(3) st by auto
  then show "j \<in> set (ta_ready ?b) \<longleftrightarrow> (if j = i then queued_frames (st\<lparr>queued_frames := fs\<rparr>) \<noteq> [] else j \<in> set (ta_ready a))" for j
    by (auto simp: unready_def set_stream_def)
  show "bs_ok (ta_ready ?b)" using I(2) by (auto simp: unready_def set_stream_def bs_ok_removeAll)
qed (auto simp: unready_def set_stream_def same_frame_def)

lemma open_local_inv:
  assumes inv: "actor_inv a" and al: "allocate (ta_allocator a) = (Inr i, al)"
    and room: "length (ta_streams a) < max_streams_per_transport (ta_config a)"
    and own: "oi \<in> set (active_members (ta_active_opens a))" "\<nexists>i. owns a i oi"
  shows "actor_inv (insert_stream i (new_stream oi OriginLocal deadline) (a\<lparr>ta_allocator := al, ta_writer := w\<rparr>))"
    (is "actor_inv ?b")
proof -
  note I = actor_invD [OF inv]
  note A = allocate_Inr [OF al]
  have used: "used_id ?b j" if "used_id a j" for j
    using that A by (auto simp: used_id_def insert_stream_def)
  have "used_id ?b i" using A I(6) by (simp add: used_id_def insert_stream_def)
  then have "stream_inv ?b i (new_stream oi OriginLocal deadline)"
    using A I(6) by (simp add: stream_inv_def new_stream_def owned_opening_def origin_endpoint_def insert_stream_def)
  then show ?thesis
    using I A own room used
    by (intro inv_insert_stream [OF inv allocated_fresh [OF inv al], where oi = oi and b = ?b])
      (auto simp: insert_stream_def new_stream_def owned_opening_def I64_MAX_def word_le_nat_alt unat_word_ariths)
qed

lemma open_remote_inv:
  assumes inv: "actor_inv a" and g: "accept_open i (ta_remote_guard a) = (Inr (), g)"
    and room: "length (ta_streams a) < max_streams_per_transport (ta_config a)"
    and own: "active_reserve oi (ta_active_opens a) = (Inr True, active)"
  shows "actor_inv (insert_stream i (new_stream oi OriginRemote None) (a\<lparr>ta_remote_guard := g, ta_active_opens := active\<rparr>))"
    (is "actor_inv ?b")
proof -
  note I = actor_invD [OF inv]
  note G = accept_open_Inr [OF g]
  have active: "oi \<notin> set (active_members (ta_active_opens a))" "set (active_members active) = insert oi (set (active_members (ta_active_opens a)))"
    using own by (auto simp: active_reserve_def split: if_splits)
  have used: "used_id ?b j" if "used_id a j" for j
    using that G less_imp_le order_trans by (fastforce simp: used_id_def insert_stream_def)
  have "used_id ?b i" using G I(8) by (simp add: used_id_def insert_stream_def)
  then have "stream_inv ?b i (new_stream oi OriginRemote None)"
    using G I(8) by (simp add: stream_inv_def new_stream_def owned_opening_def origin_endpoint_def insert_stream_def)
  then show ?thesis
    using I G active room used
    by (intro inv_insert_stream [OF inv accepted_fresh [OF inv g], where oi = oi and b = ?b])
      (auto simp: insert_stream_def new_stream_def owned_opening_def)
qed

lemma actor_move_inv:
  assumes "actor_move a l b" "actor_inv a"
  shows "actor_inv b"
  using assms(1)
proof cases
  case (move_relay i st st')
  note I = actor_invD [OF assms(2)]
  have c: "stream_inv a i st' \<and> relay_owner (stream_relay st') = relay_owner (stream_relay st) \<and> queued_frames st' = queued_frames st"
    using relay_change_inv [OF move_relay(5) I(9) [OF move_relay(3)] move_relay(4)] by simp
  then show ?thesis unfolding move_relay(2)
    using I(2,3) move_relay(3) by (intro inv_change_stream [OF assms(2) move_relay(3), where st' = st']) (auto simp: set_stream_def same_frame_def)
next
  case (move_skip i al)
  note A = allocate_Inr [OF move_skip(3)]
  show ?thesis unfolding move_skip(2)
    using A actor_invD(6,8) [OF assms(2)]
    by (intro inv_same_table [OF assms(2)])
      (auto simp: used_id_def I64_MAX_def word_le_nat_alt unat_word_ariths)
next
  case (move_guard i g)
  note G = accept_open_Inr [OF move_guard(3)]
  show ?thesis unfolding move_guard(2)
    using G actor_invD(6-8) [OF assms(2)] less_imp_le order_trans
    by (intro inv_same_table [OF assms(2)]) (fastforce simp: used_id_def)+
qed (use assms(2) in \<open>auto simp: queue_move_inv inv_finish_stream pop_move_inv open_local_inv open_remote_inv
    intro!: inv_same_streams [OF assms(2)] simp: same_frame_def notify_def fail_transport_def release_open_def active_release_def\<close>)

end
