(* ===== verification/Peer_Operations.thy ===== *)
theory Peer_Operations
  imports Peer_Invariant
begin

text \<open>
  Every operation of the transport actor is a sequence of moves. For a command the labels show which payload
  the transport accepted, for a frame which payload it reported.
\<close>

fun accepted_data :: "stream_id \<Rightarrow> move_label \<Rightarrow> bytes list" where
  "accepted_data i (MoveQueue j (PeerFrameData _ bs)) = (if j = i then [bs] else [])"
| "accepted_data i _ = []"

definition accepted_by :: "stream_id \<Rightarrow> move_label list \<Rightarrow> bytes list" where
  "accepted_by i ls = concat (map (accepted_data i) ls)"

fun reports_data :: "move_label \<Rightarrow> bool" where
  "reports_data (MoveReport (EventData _ _)) = True"
| "reports_data _ = False"

lemma accepted_by_simps [simp]:
  "accepted_by i [] = []" "accepted_by i (l # ls) = accepted_data i l @ accepted_by i ls"
  "accepted_by i (ls @ ms) = accepted_by i ls @ accepted_by i ms"
  by (simp_all add: accepted_by_def)

text \<open>A sequence of moves that neither accepts nor reports payload.\<close>

definition plain_moves :: "transport_actor \<Rightarrow> transport_actor \<Rightarrow> bool" where
  "plain_moves a b \<longleftrightarrow> (\<exists>ls. moves a ls b \<and> (\<forall>l \<in> set ls. \<not> reports_data l \<and> (\<forall>i. accepted_data i l = [])))"

lemma plain_refl [simp, intro]: "plain_moves a a"
  unfolding plain_moves_def by (rule exI [of _ "[]"]) (simp add: moves_nil)

lemma plain_one: "actor_move a l b \<Longrightarrow> \<not> reports_data l \<Longrightarrow> (\<And>i. accepted_data i l = []) \<Longrightarrow> plain_moves a b"
  unfolding plain_moves_def by (rule exI [of _ "[l]"]) (simp add: moves_one)

lemma plain_trans: "plain_moves a b \<Longrightarrow> plain_moves b c \<Longrightarrow> plain_moves a c"
  unfolding plain_moves_def by (metis Un_iff moves_append set_append)

lemma plain_then_fail: "plain_moves a b \<Longrightarrow> plain_moves a (fail_transport reason b)"
  by (rule plain_trans [OF _ plain_one [OF move_fail]]) simp_all

lemma moves_inv: "moves a ls b \<Longrightarrow> actor_inv a \<Longrightarrow> actor_inv b"
  by (induction rule: moves.induct) (auto intro: actor_move_inv)

lemma plain_inv: "plain_moves a b \<Longrightarrow> actor_inv a \<Longrightarrow> actor_inv b"
  by (auto simp: plain_moves_def intro: moves_inv)

lemma update_twice: "AList.update k v (AList.update k w m) = AList.update k v m"
  by (induction m) auto

lemma update_self: "map_of m k = Some v \<Longrightarrow> AList.update k v m = m"
  by (induction m) auto

lemma delete_update: "AList.delete k (AList.update k v m) = AList.delete k m"
  by (induction m) auto

lemma set_stream_twice [simp]: "set_stream i st2 (set_stream i st1 a) = set_stream i st2 a"
  by (simp add: set_stream_def update_twice)

lemma set_stream_self: "map_of (ta_streams a) i = Some st \<Longrightarrow> set_stream i st a = a"
  by (simp add: set_stream_def update_self)

lemma get_set_stream [simp]:
  "map_of (ta_streams (set_stream i st a)) j = (if j = i then Some st else map_of (ta_streams a) j)"
  by (simp add: set_stream_def update_conv')

lemma actor_key_cong: "ta_peer_gateway_id b = ta_peer_gateway_id a \<Longrightarrow> ta_peer_transport_id b = ta_peer_transport_id a \<Longrightarrow>
   actor_key b i = actor_key a i"
  by (simp add: actor_key_def)

lemma enqueue_cases:
  assumes "\<not> terminal_queued st" "actor_enqueue i st f t a = (r, b)" "map_of (ta_streams a) i = Some st"
  obtains (refused) e where "r = Inl e" "b = a"
  | (queued) "r = Inr ()" "length (queued_frames st) < stream_queue_capacity (ta_config a)"
      "b = set_stream i (st\<lparr>queued_frames := queued_frames st @ [f], terminal_queued := t,
             stream_open_deadline := (if t then None else stream_open_deadline st)\<rparr>)
           (a\<lparr>ta_ready := bs_insert i (ta_ready a)\<rparr>)"
  using assms set_stream_self [OF assms(3)]
  by (auto simp: actor_enqueue_def enqueue_stream_frame_def not_le split: if_splits)

section \<open>Commands\<close>

lemma owner_of:
  assumes "actor_inv a" "map_of (ta_streams a) i = Some st"
  obtains oi where "relay_owner (stream_relay st) = Some oi" "owns a i oi"
  using actor_invD(9) [OF assms] assms(2) by (auto simp: stream_inv_def owns_def)

lemma plain_fail: "plain_moves a (fail_transport reason a)"
  by (rule plain_one [OF move_fail]) simp_all

lemma plain_terminal:
  assumes "map_of (ta_streams a) i = Some st" "\<not> terminal_queued st" "actor_enqueue i st f True a = (r, b)"
    "(\<exists>c m. f = PeerFrameReset i c m) \<or> (\<exists>c ob m. f = PeerFrameFailed i c ob m) \<or> f = PeerFrameClose i \<and> relay_is_open (stream_relay st)"
  shows "plain_moves a b"
  using assms(2,3,1)
proof (cases rule: enqueue_cases)
  case queued
  have "queue_change (ta_local_endpoint a) i st f
      (st\<lparr>queued_frames := queued_frames st @ [f], terminal_queued := True, stream_open_deadline := None\<rparr>)"
    by (rule change_terminal) (use assms(4) in blast)
  then show ?thesis unfolding queued(3)
    using move_queue [OF assms(1,2) queued(2)] assms(4) by (auto intro!: plain_one)
qed simp

lemma send_reset_plain:
  assumes "send_reset i c m a = (r, b)"
  shows "plain_moves a b"
proof (cases "map_of (ta_streams a) i")
  case (Some st)
  show ?thesis
  proof (cases "terminal_queued st")
    case False
    obtain r1 a1 where e: "actor_enqueue i st (PeerFrameReset i c m) True a = (r1, a1)" by fastforce
    have "plain_moves a a1" by (rule plain_terminal [OF Some False e]) simp
    then show ?thesis using assms Some False e plain_then_fail by (auto simp: send_reset_def split: sum.splits)
  qed (use assms Some in \<open>simp add: send_reset_def\<close>)
qed (use assms in \<open>simp add: send_reset_def\<close>)

lemma cancel_plain: "cancel_stream oi a = (r, b) \<Longrightarrow> plain_moves a b"
  by (auto simp: cancel_stream_def split: option.splits intro: send_reset_plain)

lemma send_failed_plain:
  assumes "send_failed i failure a = (r, b)"
  shows "plain_moves a b"
proof (cases "map_of (ta_streams a) i")
  case (Some st)
  show ?thesis
  proof (cases "terminal_queued st \<or> stream_origin_of st \<noteq> OriginRemote \<or> stream_progress st = ProgressOpened")
    case False
    let ?f = "PeerFrameFailed i (failure_code failure) (failure_observed failure) (failure_message failure)"
    obtain r1 a1 where e: "actor_enqueue i st ?f True a = (r1, a1)" by fastforce
    have "plain_moves a a1" by (rule plain_terminal [OF Some _ e]) (use False in simp_all)
    then show ?thesis using assms Some False e plain_then_fail by (auto simp: send_failed_def split: sum.splits)
  qed (use assms Some in \<open>auto simp: send_failed_def split: if_splits\<close>)
qed (use assms in \<open>simp add: send_failed_def\<close>)

lemma send_close_plain:
  assumes "send_close i a = (r, b)"
  shows "plain_moves a b"
proof (cases "map_of (ta_streams a) i")
  case (Some st)
  show ?thesis
  proof (cases "terminal_queued st \<or> \<not> relay_is_open (stream_relay st)")
    case False
    obtain r1 a1 where e: "actor_enqueue i st (PeerFrameClose i) True a = (r1, a1)" by fastforce
    have "plain_moves a a1" by (rule plain_terminal [OF Some _ e]) (use False in simp_all)
    then show ?thesis using assms Some False e plain_then_fail by (auto simp: send_close_def split: sum.splits)
  qed (use assms Some send_reset_plain in \<open>auto simp: send_close_def split: if_splits\<close>)
qed (use assms in \<open>simp add: send_close_def\<close>)

lemma send_opened_plain:
  assumes "send_opened i a = (r, b)"
  shows "plain_moves a b"
proof (cases "map_of (ta_streams a) i")
  case (Some st)
  show ?thesis
  proof (cases "\<not> terminal_queued st \<and> stream_origin_of st = OriginRemote \<and> stream_progress st \<noteq> ProgressOpened")
    case True
    show ?thesis
    proof (cases "relay_opened (stream_relay st)")
      case (Inr relay)
      obtain r1 a1 where e: "actor_enqueue i st (PeerFrameOpened i) False a = (r1, a1)" by fastforce
      have t: "\<not> terminal_queued st" using True by simp
      show ?thesis using t e Some
      proof (cases rule: enqueue_cases)
        case queued
        have "b = set_stream i (st\<lparr>queued_frames := queued_frames st @ [PeerFrameOpened i], terminal_queued := False,
              stream_relay := relay, stream_progress := ProgressOpened\<rparr>)
            (a\<lparr>ta_ready := bs_insert i (ta_ready a)\<rparr>)"
          using assms Some True Inr e queued by (simp add: send_opened_def)
        then show ?thesis
          using move_queue [OF Some t queued(2) change_opened [OF _ Inr]] True by (auto intro: plain_one)
      qed (use assms Some True Inr e in \<open>simp add: send_opened_def\<close>)
    qed (use assms Some True in \<open>simp add: send_opened_def\<close>)
  qed (use assms Some in \<open>auto simp: send_opened_def split: if_splits\<close>)
qed (use assms in \<open>simp add: send_opened_def\<close>)

lemma send_fin_plain:
  assumes "send_fin i a = (r, b)"
  shows "plain_moves a b"
proof (cases "map_of (ta_streams a) i")
  case (Some st)
  show ?thesis
  proof (cases "\<not> terminal_queued st \<and> (\<exists>relay. stream_fin (ta_local_endpoint a) (stream_relay st) = Inr (True, relay))")
    case True
    then obtain relay where t: "\<not> terminal_queued st" and fin: "stream_fin (ta_local_endpoint a) (stream_relay st) = Inr (True, relay)"
      by blast
    obtain r1 a1 where e: "actor_enqueue i st (PeerFrameFin i) (relay_is_closed relay) a = (r1, a1)" by fastforce
    show ?thesis using t e Some
    proof (cases rule: enqueue_cases)
      case queued
      have "b = set_stream i (st\<lparr>queued_frames := queued_frames st @ [PeerFrameFin i], terminal_queued := relay_is_closed relay,
            stream_open_deadline := (if relay_is_closed relay then None else stream_open_deadline st), stream_relay := relay\<rparr>)
          (a\<lparr>ta_ready := bs_insert i (ta_ready a)\<rparr>)"
        using assms Some t fin e queued by (simp add: send_fin_def)
      then show ?thesis
        using move_queue [OF Some t queued(2) change_fin [OF fin]] by (auto intro: plain_one)
    qed (use assms Some t fin e in \<open>simp add: send_fin_def\<close>)
  qed (use assms Some in \<open>auto simp: send_fin_def split: if_splits sum.splits prod.splits\<close>)
qed (use assms in \<open>simp add: send_fin_def\<close>)

lemma send_data_moves:
  assumes "send_data i bs a = (r, b)"
  shows "(map_of (ta_streams a) i = None \<or> r \<noteq> Inr ()) \<and> b = a \<or>
    map_of (ta_streams a) i \<noteq> None \<and> r = Inr () \<and> actor_move a (MoveQueue i (PeerFrameData i bs)) b"
proof (cases "map_of (ta_streams a) i")
  case (Some st)
  show ?thesis
  proof (cases "stream_data (ta_local_endpoint a) (stream_relay st)")
    case (Inr u)
    show ?thesis
    proof (cases "terminal_queued st")
      case True
      then show ?thesis using assms Some Inr set_stream_self [OF Some]
        by (auto simp: send_data_def actor_enqueue_def enqueue_stream_frame_def)
    next
      case False
      have e: "actor_enqueue i st (PeerFrameData i bs) False a = (r, b)" using assms Some Inr by (simp add: send_data_def)
      show ?thesis using False e Some
      proof (cases rule: enqueue_cases)
        case queued
        then have "b = set_stream i (st\<lparr>queued_frames := queued_frames st @ [PeerFrameData i bs], terminal_queued := False\<rparr>) (a\<lparr>ta_ready := bs_insert i (ta_ready a)\<rparr>)"
          by simp
        then show ?thesis using move_queue [OF Some False queued(2) change_data] Inr queued(1) Some by simp
      qed simp
    qed
  qed (use assms Some in \<open>auto simp: send_data_def\<close>)
qed (use assms in \<open>simp add: send_data_def\<close>)

text \<open>The manager sends an OPEN only after it reserved the identity, which no stream has yet.\<close>

fun command_ready :: "transport_command \<Rightarrow> transport_actor \<Rightarrow> bool" where
  "command_ready (TransportOpen req) a \<longleftrightarrow>
     request_identity req \<in> set (active_members (ta_active_opens a)) \<and> (\<nexists>i. owns a i (request_identity req))"
| "command_ready _ a \<longleftrightarrow> True"

lemma owns_frame [simp]:
  "owns (a\<lparr>ta_writer := w\<rparr>) = owns a" "owns (a\<lparr>ta_allocator := al\<rparr>) = owns a" "owns (a\<lparr>ta_remote_guard := g\<rparr>) = owns a"
  by (simp_all add: owns_def fun_eq_iff)

lemma plain_release: "\<nexists>i. owns a i oi \<Longrightarrow> plain_moves a (release_open oi a)"
  by (rule plain_one [OF move_release]) simp_all

lemma plain_refused: "try_send f (ta_writer a) = (r, w) \<Longrightarrow> r \<noteq> Sent \<Longrightarrow> plain_moves a (a\<lparr>ta_writer := w\<rparr>)"
  by (rule plain_one [OF move_refused]) simp_all

lemma peer_open_plain:
  assumes "peer_open now req a = (r, b)" and own: "request_identity req \<in> set (active_members (ta_active_opens a))"
    "\<nexists>i. owns a i (request_identity req)"
  shows "plain_moves a b"
proof -
  let ?oi = "request_identity req"
  let ?f = "\<lambda>i. PeerFrameOpen i ?oi (request_destination req) (request_relay_session req) (request_binding req)"
  have release: "plain_moves a' (release_open ?oi a')" if "owns a' = owns a" for a'
    using plain_release [of a' ?oi] own(2) that by simp
  show ?thesis
  proof (cases "length (ta_streams a) \<ge> max_streams_per_transport (ta_config a)")
    case True
    then show ?thesis using assms(1) release [of a] by (auto simp: peer_open_def)
  next
    case room: False
    obtain q al where q: "allocate (ta_allocator a) = (q, al)" by fastforce
    show ?thesis
    proof (cases q)
      case (Inl e)
      then have "al = ta_allocator a" using q by (auto simp: allocate_def split: if_splits)
      then show ?thesis using assms(1) room q Inl release [of a] by (auto simp: peer_open_def)
    next
      case (Inr i)
      let ?a = "a\<lparr>ta_allocator := al\<rparr>"
      have skip: "plain_moves a ?a" using q Inr by (intro plain_one [OF move_skip]) auto
      obtain t w where w: "try_send (?f i) (ta_writer a) = (t, w)" by fastforce
      show ?thesis
      proof (cases "t = Sent")
        case True
        then have "b = insert_stream i (new_stream ?oi OriginLocal (instant_checked_add now (open_response_timeout (ta_config a))))
            (a\<lparr>ta_allocator := al, ta_writer := w\<rparr>)"
          using assms(1) room q Inr w by (simp add: peer_open_def commit_open_def)
        moreover have "length (ta_streams a) < max_streams_per_transport (ta_config a)" using room by simp
        ultimately show ?thesis
          using plain_one [OF move_open_local [OF q [unfolded Inr] w [unfolded True] _ own]] by simp
      next
        case False
        then have b: "b = release_open ?oi (?a\<lparr>ta_writer := w\<rparr>)"
          using assms(1) room q Inr w by (auto simp: peer_open_def commit_open_def split: send_result.splits)
        have "plain_moves ?a (?a\<lparr>ta_writer := w\<rparr>)" using w False by (intro plain_refused) simp_all
        moreover have "plain_moves (?a\<lparr>ta_writer := w\<rparr>) b" unfolding b by (rule release) (simp only: owns_frame)
        ultimately show ?thesis using skip by (blast intro: plain_trans)
      qed
    qed
  qed
qed

fun command_payload :: "transport_command \<Rightarrow> transport_reply \<Rightarrow> transport_actor \<Rightarrow> (stream_id \<times> bytes) option" where
  "command_payload (TransportStream i (CmdData bs)) (CommandReply (Inr ())) a =
     (if map_of (ta_streams a) i = None then None else Some (i, bs))"
| "command_payload _ _ a = None"

lemma plain_attempt: "plain_moves a (notify (NoticeAttemptEnded oi) a)"
  by (rule plain_one [OF move_attempt_ended]) simp_all

lemma command_moves:
  assumes "actor_command now c a = (reply, b)" "command_ready c a"
  shows "command_payload c reply a = None \<and> plain_moves a b \<or>
    (\<exists>i bs. command_payload c reply a = Some (i, bs) \<and> actor_move a (MoveQueue i (PeerFrameData i bs)) b)"
proof (cases c)
  case (TransportOpen req)
  obtain q a1 where q: "peer_open now req a = (q, a1)" by fastforce
  have "plain_moves a a1" using peer_open_plain [OF q] assms(2) TransportOpen by simp
  moreover from this have "plain_moves a (notify (NoticeAttemptEnded (request_identity req)) a1)"
    by (rule plain_trans) (rule plain_attempt)
  ultimately show ?thesis using assms(1) TransportOpen q by (cases q) auto
next
  case (TransportCancel oi)
  then show ?thesis using assms by (auto split: prod.splits intro: cancel_plain)
next
  case (TransportStream i sc)
  obtain r where r: "stream_call i sc a = (r, b)" "reply = CommandReply r" using assms TransportStream by (auto split: prod.splits)
  show ?thesis
  proof (cases sc)
    case (CmdData bs)
    then show ?thesis using send_data_moves [of i bs a r b] r TransportStream by (cases r) auto
  qed (use r TransportStream in \<open>auto intro: send_opened_plain send_failed_plain send_fin_plain send_close_plain send_reset_plain\<close>)
qed

section \<open>Frames\<close>

lemma emit_plain:
  assumes "owns a i oi" "event_stream e = Some (actor_key a i)" "event_identity e = None \<or> event_identity e = Some oi"
    "\<not> reports_data (MoveReport e)"
  shows "plain_moves a (emit e a)"
proof (cases "ta_notices_closed a")
  case True
  then show ?thesis using plain_fail by (simp add: emit_def)
next
  case False
  then show ?thesis using assms plain_one [OF move_report [OF False assms(1-3)]] by (simp add: emit_def)
qed

lemma emit_frame [simp]:
  "ta_streams (emit e a) = ta_streams a" "ta_ready (emit e a) = ta_ready a" "owns (emit e a) = owns a"
  "actor_key (emit e a) = actor_key a" "ta_config (emit e a) = ta_config a"
  by (auto simp: emit_def notify_def fail_transport_def owns_def actor_key_def fun_eq_iff)

lemma finish_plain:
  assumes "actor_inv a"
  shows "plain_moves a (finish_stream i a)"
proof (cases "map_of (ta_streams a) i")
  case None
  then have "i \<notin> set (ta_ready a)" using actor_invD(3) [OF assms] by simp
  then show ?thesis using None by (simp add: finish_stream_def)
next
  case (Some st)
  obtain oi where "owns a i oi" using owner_of [OF assms Some] by blast
  then show ?thesis using plain_one [OF move_end] by simp
qed

lemma emit_finish_plain:
  assumes "actor_inv a" "map_of (ta_streams a) i = Some st" "event_stream e = Some (actor_key a i)"
    "event_identity e = None \<or> event_identity e = relay_owner (stream_relay st)" "\<not> reports_data (MoveReport e)"
  shows "plain_moves a (finish_stream i (emit e a))"
proof -
  obtain oi where "relay_owner (stream_relay st) = Some oi" "owns a i oi" using owner_of [OF assms(1,2)] by blast
  then have "plain_moves a (emit e a)" using emit_plain [of a i oi e] assms(3-) by simp
  then show ?thesis using plain_trans finish_plain [OF plain_inv [OF _ assms(1)]] by blast
qed

lemma terminal_reset_plain:
  assumes "actor_inv a"
  shows "plain_moves a (emit_terminal_reset i c m a)"
proof (cases "map_of (ta_streams a) i")
  case (Some st)
  obtain oi where "relay_owner (stream_relay st) = Some oi" "owns a i oi" using owner_of [OF assms Some] by blast
  then show ?thesis using Some emit_plain [of a i oi] by (auto simp: emit_terminal_reset_def)
qed (simp add: emit_terminal_reset_def)

lemma stream_reset_plain:
  assumes "actor_inv a"
  shows "plain_moves a (stream_protocol_reset i m a)"
proof -
  obtain r a1 where r: "send_reset i ProtocolError m a = (r, a1)" by fastforce
  have a1: "plain_moves a a1" using send_reset_plain [OF r] .
  then have "plain_moves a1 (emit_terminal_reset i ProtocolError m a1)"
    using terminal_reset_plain plain_inv assms by blast
  then have "plain_moves a (emit_terminal_reset i ProtocolError m a1)" by (rule plain_trans [OF a1])
  then show ?thesis using a1 r by (auto simp: stream_protocol_reset_def split: sum.splits)
qed

lemma reject_plain: "plain_moves a (reject_remote_open i c m a)"
proof -
  let ?f = "failed_not_observed i c m"
  obtain t w where w: "try_send ?f (ta_writer a) = (t, w)" by fastforce
  show ?thesis
  proof (cases "t = Sent")
    case True
    then show ?thesis using w plain_one [OF move_send [of ?f a w]] by (simp add: reject_remote_open_def failed_not_observed_def)
  next
    case False
    then have "reject_remote_open i c m a = fail_transport WriterFailed (a\<lparr>ta_writer := w\<rparr>)"
      using w by (auto simp: reject_remote_open_def split: send_result.splits)
    then show ?thesis using plain_trans [OF plain_refused [OF w False] plain_fail] by simp
  qed
qed

lemma receive_open_plain:
  assumes inv: "actor_inv a"
  shows "plain_moves a (receive_open i oi d rs b a)"
proof -
  obtain q g where q: "accept_open i (ta_remote_guard a) = (q, g)" by fastforce
  show ?thesis
  proof (cases q)
    case (Inl e)
    then have "g = ta_remote_guard a" using q by (auto simp: accept_open_def split: if_splits)
    then show ?thesis using q Inl reject_plain by (simp add: receive_open_def)
  next
    case (Inr u)
    let ?a = "a\<lparr>ta_remote_guard := g\<rparr>"
    have guard: "plain_moves a ?a" using q Inr by (intro plain_one [OF move_guard]) auto
    obtain t active where t: "active_reserve oi (ta_active_opens a) = (t, active)" by fastforce
    show ?thesis
    proof (cases "entry_gateway oi = ta_peer_gateway_id a \<and> length (ta_streams a) < max_streams_per_transport (ta_config a) \<and> t = Inr True")
      case True
      let ?b = "insert_stream i (new_stream oi OriginRemote None) (?a\<lparr>ta_active_opens := active\<rparr>)"
      have "plain_moves a ?b"
        using plain_one [OF move_open_remote [of i a g oi active]] q Inr t True by simp
      moreover have "owns ?b i oi"
        by (simp add: owns_def insert_stream_def bt_get_insert new_stream_def owned_opening_def)
      then have "plain_moves ?b (emit (EventIncomingOpen (actor_key ?b i) oi d rs b) ?b)"
        by (rule emit_plain) simp_all
      ultimately have "plain_moves a (emit (EventIncomingOpen (actor_key ?b i) oi d rs b) ?b)"
        by (blast intro: plain_trans)
      then show ?thesis using q Inr t True by (simp add: receive_open_def Let_def)
    next
      case False
      have "active = ta_active_opens a" if "t \<noteq> Inr True"
        using t that by (auto simp: active_reserve_def split: if_splits)
      then have "receive_open i oi d rs b a = fail_transport ProtocolErrorClose ?a \<or>
          (\<exists>c m. receive_open i oi d rs b a = reject_remote_open i c m ?a)"
        using q Inr t False by (auto simp: receive_open_def Let_def split: sum.splits bool.splits)
      then show ?thesis using plain_then_fail [OF guard] plain_trans [OF guard reject_plain] by auto
    qed
  qed
qed

lemma receive_opened_plain:
  assumes inv: "actor_inv a"
  shows "plain_moves a (receive_opened i a)"
proof (cases "map_of (ta_streams a) i")
  case (Some st)
  show ?thesis
  proof (cases "\<not> terminal_queued st \<and> stream_origin_of st = OriginLocal \<and> stream_progress st \<noteq> ProgressOpened \<and>
      (\<exists>relay. relay_opened (stream_relay st) = Inr relay)")
    case True
    then obtain relay where r: "relay_opened (stream_relay st) = Inr relay" by blast
    obtain oi where oi: "relay_owner (stream_relay st) = Some oi" using owner_of [OF inv Some] by blast
    let ?b = "set_stream i (st\<lparr>stream_relay := relay, stream_progress := ProgressOpened, stream_open_deadline := None\<rparr>) a"
    have own: "relay_owner relay = Some oi" using relay_opened_Inr [OF r] oi by simp
    have "plain_moves a ?b"
      using plain_one [OF move_relay [OF Some _ change_open [OF _ r]]] True by simp
    moreover have "plain_moves ?b (emit (EventOpened (actor_key ?b i) oi) ?b)"
      by (rule emit_plain [of _ i oi]) (simp_all add: owns_def own)
    ultimately have "plain_moves a (emit (EventOpened (actor_key ?b i) oi) ?b)" by (rule plain_trans)
    then show ?thesis using Some True r own by (simp add: receive_opened_def Let_def)
  qed (use Some stream_reset_plain [OF inv] in \<open>auto simp: receive_opened_def split: sum.splits\<close>)
qed (simp add: receive_opened_def)

lemma finish_set_stream:
  assumes "map_of (ta_streams a) i = Some st" "relay_owner (stream_relay st') = relay_owner (stream_relay st)"
  shows "finish_stream i (emit e (set_stream i st' a)) = finish_stream i (emit e a)"
  using assms
  by (auto simp: finish_stream_def Let_def emit_def notify_def fail_transport_def set_stream_def actor_key_def
      update_conv' delete_update split: option.splits)

lemma receive_fin_plain:
  assumes inv: "actor_inv a"
  shows "plain_moves a (receive_fin i a)"
proof (cases "map_of (ta_streams a) i")
  case (Some st)
  obtain oi where oi: "relay_owner (stream_relay st) = Some oi" "owns a i oi" using owner_of [OF inv Some] by blast
  show ?thesis
  proof (cases "\<not> terminal_queued st \<and> (\<exists>relay. stream_fin (ta_remote_endpoint a) (stream_relay st) = Inr (True, relay))")
    case True
    then obtain relay where t: "\<not> terminal_queued st" and fin: "stream_fin (ta_remote_endpoint a) (stream_relay st) = Inr (True, relay)"
      by blast
    have own: "relay_owner relay = Some oi" using stream_fin_Inr [OF fin] oi by simp
    let ?st = "\<lambda>closed. if closed then st\<lparr>stream_relay := relay, terminal_queued := True, stream_open_deadline := None\<rparr>
      else st\<lparr>stream_relay := relay\<rparr>"
    let ?b = "set_stream i (?st (relay_is_closed relay)) a"
    have key: "actor_key ?b = actor_key a" by (simp add: set_stream_def actor_key_def fun_eq_iff)
    have emit: "plain_moves ?b (emit (EventFin (actor_key a i)) ?b)"
      by (rule emit_plain [of _ i oi]) (simp_all add: owns_def own key)
    show ?thesis
    proof (cases "relay_is_closed relay \<and> queued_frames st = []")
      case whole: True
      have "receive_fin i a = finish_stream i (emit (EventFin (actor_key a i)) a)"
        using Some t fin whole finish_set_stream [OF Some, of "?st True"] oi own by (simp add: receive_fin_def)
      then show ?thesis using emit_finish_plain [OF inv Some] by simp
    next
      case False
      then have "relay_change (ta_remote_endpoint a) st (?st (relay_is_closed relay))"
        using change_half [OF fin] change_whole [OF fin] by auto
      then have "plain_moves a ?b" using plain_one [OF move_relay [OF Some t]] by simp
      moreover have "receive_fin i a = emit (EventFin (actor_key a i)) ?b"
        using Some t fin False by (simp add: receive_fin_def)
      ultimately show ?thesis using plain_trans [OF _ emit] by simp
    qed
  qed (use Some stream_reset_plain [OF inv] in \<open>auto simp: receive_fin_def split: sum.splits\<close>)
qed (simp add: receive_fin_def)

lemma receive_failed_plain: "actor_inv a \<Longrightarrow> plain_moves a (receive_failed i c ob m a)"
  using emit_finish_plain stream_reset_plain plain_fail
  by (auto simp: receive_failed_def split: option.splits)

lemma receive_close_plain: "actor_inv a \<Longrightarrow> plain_moves a (receive_close i a)"
  using emit_finish_plain stream_reset_plain by (auto simp: receive_close_def split: option.splits)

lemma receive_reset_plain: "actor_inv a \<Longrightarrow> plain_moves a (receive_reset i c m a)"
  using plain_trans [OF terminal_reset_plain finish_plain [OF plain_inv [OF terminal_reset_plain]]]
  by (auto simp: receive_reset_def split: option.splits)

lemma frame_plain:
  assumes "actor_inv a" "actor_frame f a = (r, b)" "\<And>i bs. f \<noteq> PeerFrameData i bs"
  shows "plain_moves a b"
proof (cases f)
  case (PeerFramePing n)
  obtain t w where w: "try_send (PeerFramePong n) (ta_writer a) = (t, w)" by fastforce
  show ?thesis
  proof (cases "t = Sent")
    case True
    then show ?thesis using w PeerFramePing assms(2) plain_one [OF move_send [of "PeerFramePong n" a w]] by simp
  next
    case False
    then have "b = fail_transport WriterFailed (a\<lparr>ta_writer := w\<rparr>)"
      using w PeerFramePing assms(2) by (auto split: send_result.splits)
    then show ?thesis using plain_trans [OF plain_refused [OF w False] plain_fail] by simp
  qed
qed (use assms in \<open>auto intro: receive_open_plain receive_opened_plain receive_failed_plain receive_fin_plain
    receive_close_plain receive_reset_plain\<close>)

end
