(* ===== verification/Spec2Isabelle.thy ===== *)
theory Spec2Isabelle
  imports Codec_Correct Route_Properties Gateway_Properties Gateway_Gates Gateway_Effects Routing_Sync Peer_Operations
begin

text \<open>
  A verification library of RelayGate, a relay that lets SDK listeners publish destinations at a
  gateway and lets SDK dialers open byte pipes to them.
\<close>

end
